theory Spec2Isabelle
  imports Main "HOL-Library.Sublist"
begin

section \<open>Data model of the session service\<close>

text \<open>
  The development embeds \<^verbatim>\<open>src/server/session_service.go\<close>. The service works on
  objects reached through pointers; the model keeps the ones it mutates explicit:
  \<^item> the \<^verbatim>\<open>*chshare.Remote\<close> objects live in a store from addresses to values, and the
    slice \<^verbatim>\<open>[]*chshare.Remote\<close> is a list of addresses (the same address may occur twice);
  \<^item> the \<^verbatim>\<open>*csr.ClientSession\<close> a method works on is passed in and returned updated;
  \<^item> the port distributor and the repository are state components of the world.
  Pointers are taken to be non-nil, as Go's type system cannot say.
  The declarations of the types of the packages \<^verbatim>\<open>csr\<close>, \<^verbatim>\<open>ports\<close> and \<^verbatim>\<open>chshare\<close> are
  not part of the sources at hand; the records below carry the fields the service reads
  and writes, with the field names of the Go code.
\<close>

text \<open>\<^verbatim>\<open>chshare.Remote\<close>: the service writes \<^verbatim>\<open>LocalHost\<close> and \<^verbatim>\<open>LocalPort\<close>; the remote
  endpoint is the other half of a forwarding rule.\<close>

record Remote =
  LocalHost :: string
  LocalPort :: string
  RemoteHost :: string
  RemotePort :: string

type_synonym ref = nat

text \<open>\<^verbatim>\<open>csr.TunnelACL\<close>: the permitted caller network ranges; \<^verbatim>\<open>csr.TunnelACL{}\<close> is its
  zero value, the empty list.\<close>

type_synonym TunnelACL = "string list"

definition TunnelACL_zero :: TunnelACL where
  "TunnelACL_zero = []"

text \<open>\<^verbatim>\<open>csr.Tunnel\<close>: one forwarding rule, the resolved remote and its access-control list.\<close>

record Tunnel =
  tunnel_remote :: Remote
  tunnel_acl :: TunnelACL

text \<open>\<^verbatim>\<open>time.Time\<close>: an instant and the location it is shown in. \<^verbatim>\<open>t.UTC()\<close> is the same
  instant with the location set to UTC.\<close>

datatype Location = UTC | Local

record Time =
  unix_nanos :: int
  location :: Location

definition Time_UTC :: "Time \<Rightarrow> Time" where
  "Time_UTC t = t\<lparr>location := UTC\<rparr>"

text \<open>\<^verbatim>\<open>ssh.Conn\<close>: of the transport handle the service only asks
  \<^verbatim>\<open>RemoteAddr().String()\<close>. Context, user and logger are opaque handles.\<close>

record Conn =
  conn_id :: nat
  RemoteAddr :: string

type_synonym handle = nat

text \<open>\<^verbatim>\<open>chshare.ConnectionRequest\<close>: the metadata the client declares and the remotes it
  asks for.\<close>

record ConnectionRequest =
  Name :: string
  Tags :: "string list"
  OS :: string
  Hostname :: string
  Version :: string
  IPv4 :: "string list"
  IPv6 :: "string list"
  Remotes :: "ref list"

text \<open>\<^verbatim>\<open>csr.ClientSession\<close>, with the fields in the order of the struct literal in
  \<^verbatim>\<open>StartClientSession\<close>; \<^verbatim>\<open>Disconnected\<close> is a \<^verbatim>\<open>*time.Time\<close>, \<open>None\<close> for nil.\<close>

record ClientSession =
  ID :: string
  Name :: string
  Tags :: "string list"
  OS :: string
  Hostname :: string
  Version :: string
  IPv4 :: "string list"
  IPv6 :: "string list"
  Address :: string
  Tunnels :: "Tunnel list"
  Connection :: Conn
  Context :: handle
  User :: handle
  Logger :: handle
  Disconnected :: "Time option"

text \<open>\<^verbatim>\<open>csr.ClientSessionRepository\<close>: the service reads its field \<^verbatim>\<open>KeepLostClients\<close>
  (a \<^verbatim>\<open>*time.Duration\<close>); what it stores is left to the repository.\<close>

record 'st ClientSessionRepository =
  KeepLostClients :: "int option"
  store :: 'st

text \<open>
  The calls the service makes to its collaborators, with their outcome, in the order they
  are made. The log is the one component of the model that the Go code does not have: it
  is written, never read, and lets a statement say which calls a method has made.
\<close>

datatype 'e call =
    is_Refresh: Refresh_call "'e option"
  | is_GetRandomPort: GetRandomPort_call "'e + int"
  | is_StartTunnel: StartTunnel_call ref Remote TunnelACL "'e + Tunnel"
  | is_Save: Save_call ClientSession "'e option"
  | is_Delete: Delete_call ClientSession "'e option"

record ('p, 'st, 'e) world =
  portDistributor :: 'p
  repo :: "'st ClientSessionRepository"
  heap :: "ref \<Rightarrow> Remote"
  calls :: "'e call list"

text \<open>
  The methods of other packages that the service calls. Their code is not part of the
  sources at hand, so the service is modelled for any implementation of them: a method
  that may change its receiver returns the receiver's new state next to its result, and a
  Go result pair \<^verbatim>\<open>(value, error)\<close> of a read is a pair. Each method works on its receiver
  alone: \<^verbatim>\<open>Refresh\<close> and \<^verbatim>\<open>GetRandomPort\<close> on the port distributor, the operations of the
  repository on the repository, and \<^verbatim>\<open>StartTunnel\<close> on the session, reading the remote it
  is given.
\<close>

record ('p, 'st, 'e) collab =
  Refresh :: "'p \<Rightarrow> 'e option \<times> 'p"
  GetRandomPort :: "'p \<Rightarrow> ('e + int) \<times> 'p"
  IsLocalSpecified :: "Remote \<Rightarrow> bool"
  StartTunnel :: "ClientSession \<Rightarrow> Remote \<Rightarrow> TunnelACL \<Rightarrow> ('e + Tunnel) \<times> ClientSession"
  repo_Count :: "'st ClientSessionRepository \<Rightarrow> int \<times> 'e option"
  repo_GetActiveByID :: "'st ClientSessionRepository \<Rightarrow> string \<Rightarrow> ClientSession option \<times> 'e option"
  repo_GetAll :: "'st ClientSessionRepository \<Rightarrow> ClientSession list \<times> 'e option"
  repo_Save :: "'st ClientSessionRepository \<Rightarrow> ClientSession
     \<Rightarrow> 'e option \<times> 'st ClientSessionRepository"
  repo_Delete :: "'st ClientSessionRepository \<Rightarrow> ClientSession
     \<Rightarrow> 'e option \<times> 'st ClientSessionRepository"

section \<open>The service\<close>

subsection \<open>\<^verbatim>\<open>strconv.Itoa\<close>\<close>

text \<open>The digit of a number below ten; \<open>formatBits\<close> asks for no other.\<close>

definition digit :: "nat \<Rightarrow> char" where
  "digit n = ''0123456789'' ! n"

fun formatBits :: "nat \<Rightarrow> string" where
  "formatBits n = (if n < 10 then [digit n] else formatBits (n div 10) @ [digit (n mod 10)])"

declare formatBits.simps [simp del]

definition Itoa :: "int \<Rightarrow> string" where
  "Itoa i = (if i < 0 then CHR ''-'' # formatBits (nat (- i)) else formatBits (nat i))"

text \<open>Reading a string of decimal digits, to say what \<open>Itoa\<close> writes.\<close>

definition digit_value :: "char \<Rightarrow> nat" where
  "digit_value c = of_char c - 48"

definition read_decimal :: "string \<Rightarrow> nat" where
  "read_decimal cs = foldl (\<lambda>n c. 10 * n + digit_value c) 0 cs"

definition read_int :: "string \<Rightarrow> int" where
  "read_int cs =
     (case cs of
        [] \<Rightarrow> 0
      | c # rest \<Rightarrow> if c = CHR ''-'' then - int (read_decimal rest) else int (read_decimal cs))"

subsection \<open>Read-through accessors\<close>

definition Count :: "('p, 'st, 'e) collab \<Rightarrow> ('p, 'st, 'e) world \<Rightarrow> int \<times> 'e option" where
  "Count D s = repo_Count D (repo s)"

definition GetActiveByID ::
  "('p, 'st, 'e) collab \<Rightarrow> ('p, 'st, 'e) world \<Rightarrow> string \<Rightarrow> ClientSession option \<times> 'e option" where
  "GetActiveByID D s sid = repo_GetActiveByID D (repo s) sid"

definition GetAll ::
  "('p, 'st, 'e) collab \<Rightarrow> ('p, 'st, 'e) world \<Rightarrow> ClientSession list \<times> 'e option" where
  "GetAll D s = repo_GetAll D (repo s)"

subsection \<open>\<^verbatim>\<open>StartSessionTunnels\<close>\<close>

text \<open>Lines 85 to 92: a remote without a local endpoint gets a port of the distributor
  written into it. The result is the error of \<^verbatim>\<open>GetRandomPort\<close>, if any.\<close>

definition assign_local ::
  "('p, 'st, 'e) collab \<Rightarrow> ('p, 'st, 'e) world \<Rightarrow> ref \<Rightarrow> 'e option \<times> ('p, 'st, 'e) world" where
  "assign_local D s remote =
     (if \<not> IsLocalSpecified D (heap s remote) then
        (case GetRandomPort D (portDistributor s) of
           (Inl err, pd) \<Rightarrow>
             (Some err, s\<lparr>portDistributor := pd,
                          calls := calls s @ [GetRandomPort_call (Inl err)]\<rparr>)
         | (Inr port, pd) \<Rightarrow>
             (None, s\<lparr>portDistributor := pd,
                      heap := (heap s)(remote :=
                         (heap s remote)\<lparr>LocalPort := Itoa port, LocalHost := ''0.0.0.0''\<rparr>),
                      calls := calls s @ [GetRandomPort_call (Inr port)]\<rparr>))
      else (None, s))"

text \<open>Lines 84 to 100: the loop over the remotes, with the slice \<^verbatim>\<open>tunnels\<close> built so far.\<close>

fun start_loop ::
  "('p, 'st, 'e) collab \<Rightarrow> ('p, 'st, 'e) world \<Rightarrow> ClientSession \<Rightarrow> Tunnel list \<Rightarrow> ref list
     \<Rightarrow> TunnelACL \<Rightarrow> ('e + Tunnel list) \<times> ('p, 'st, 'e) world \<times> ClientSession" where
  "start_loop D s session tunnels [] acl = (Inr tunnels, s, session)"
| "start_loop D s session tunnels (remote # rest) acl =
     (case assign_local D s remote of
        (Some err, s1) \<Rightarrow> (Inl err, s1, session)
      | (None, s1) \<Rightarrow>
          (case StartTunnel D session (heap s1 remote) acl of
             (Inl err, session1) \<Rightarrow>
               (Inl err,
                s1\<lparr>calls := calls s1 @ [StartTunnel_call remote (heap s1 remote) acl (Inl err)]\<rparr>,
                session1)
           | (Inr t, session1) \<Rightarrow>
               start_loop D
                 (s1\<lparr>calls := calls s1 @ [StartTunnel_call remote (heap s1 remote) acl (Inr t)]\<rparr>)
                 session1 (tunnels @ [t]) rest acl))"

definition StartSessionTunnels ::
  "('p, 'st, 'e) collab \<Rightarrow> ('p, 'st, 'e) world \<Rightarrow> ClientSession \<Rightarrow> ref list \<Rightarrow> TunnelACL
     \<Rightarrow> ('e + Tunnel list) \<times> ('p, 'st, 'e) world \<times> ClientSession" where
  "StartSessionTunnels D s session remotes acl =
     (case Refresh D (portDistributor s) of
        (Some err, pd) \<Rightarrow>
          (Inl err, s\<lparr>portDistributor := pd, calls := calls s @ [Refresh_call (Some err)]\<rparr>,
           session)
      | (None, pd) \<Rightarrow>
          start_loop D (s\<lparr>portDistributor := pd, calls := calls s @ [Refresh_call None]\<rparr>)
            session [] remotes acl)"

subsection \<open>\<^verbatim>\<open>StartClientSession\<close>\<close>

text \<open>Lines 47 to 62: the session literal. \<^verbatim>\<open>Disconnected\<close> is not named in it and
  has the zero value, nil.\<close>

definition new_session ::
  "handle \<Rightarrow> string \<Rightarrow> Conn \<Rightarrow> ConnectionRequest \<Rightarrow> handle \<Rightarrow> handle \<Rightarrow> ClientSession" where
  "new_session ctx sid sshConn req user clog =
     \<lparr>ID = sid,
      Name = ConnectionRequest.Name req,
      Tags = ConnectionRequest.Tags req,
      OS = ConnectionRequest.OS req,
      Hostname = ConnectionRequest.Hostname req,
      Version = ConnectionRequest.Version req,
      IPv4 = ConnectionRequest.IPv4 req,
      IPv6 = ConnectionRequest.IPv6 req,
      Address = RemoteAddr sshConn,
      Tunnels = [],
      Connection = sshConn,
      Context = ctx,
      User = user,
      Logger = clog,
      Disconnected = None\<rparr>"

definition StartClientSession ::
  "('p, 'st, 'e) collab \<Rightarrow> ('p, 'st, 'e) world \<Rightarrow> handle \<Rightarrow> string \<Rightarrow> Conn \<Rightarrow> ConnectionRequest
     \<Rightarrow> handle \<Rightarrow> handle \<Rightarrow> ('e + ClientSession) \<times> ('p, 'st, 'e) world" where
  "StartClientSession D s ctx sid sshConn req user clog =
     (let session = new_session ctx sid sshConn req user clog
      in case StartSessionTunnels D s session (Remotes req) TunnelACL_zero of
           (Inl err, s1, session1) \<Rightarrow> (Inl err, s1)
         | (Inr _, s1, session1) \<Rightarrow>
             (case repo_Save D (repo s1) session1 of
                (Some err, r) \<Rightarrow>
                  (Inl err, s1\<lparr>repo := r, calls := calls s1 @ [Save_call session1 (Some err)]\<rparr>)
              | (None, r) \<Rightarrow>
                  (Inr session1, s1\<lparr>repo := r, calls := calls s1 @ [Save_call session1 None]\<rparr>)))"

subsection \<open>\<^verbatim>\<open>Terminate\<close>\<close>

text \<open>\<open>time_Now\<close> is what \<^verbatim>\<open>time.Now()\<close> returns when the method reads the clock.\<close>

definition Terminate ::
  "('p, 'st, 'e) collab \<Rightarrow> Time \<Rightarrow> ('p, 'st, 'e) world \<Rightarrow> ClientSession
     \<Rightarrow> 'e option \<times> ('p, 'st, 'e) world \<times> ClientSession" where
  "Terminate D time_Now s session =
     (if KeepLostClients (repo s) = None then
        (case repo_Delete D (repo s) session of
           (err, r) \<Rightarrow> (err, s\<lparr>repo := r, calls := calls s @ [Delete_call session err]\<rparr>, session))
      else
        (let now = Time_UTC time_Now;
             session1 = session\<lparr>Disconnected := Some now\<rparr>
         in case repo_Save D (repo s) session1 of
              (err, r) \<Rightarrow>
                (err, s\<lparr>repo := r, calls := calls s @ [Save_call session1 err]\<rparr>, session1)))"

section \<open>Reading the log\<close>

text \<open>The calls a method has made: those of the world it returns that the world it was
  called in does not have.\<close>

definition calls_since :: "('p, 'st, 'e) world \<Rightarrow> ('p, 'st, 'e) world \<Rightarrow> 'e call list" where
  "calls_since s s' = drop (length (calls s)) (calls s')"

text \<open>The error a call has returned, if any.\<close>

fun failed :: "'e call \<Rightarrow> 'e option" where
  "failed (Refresh_call out) = out"
| "failed (GetRandomPort_call out) = (case out of Inl err \<Rightarrow> Some err | Inr _ \<Rightarrow> None)"
| "failed (StartTunnel_call p v acl out) = (case out of Inl err \<Rightarrow> Some err | Inr _ \<Rightarrow> None)"
| "failed (Save_call c out) = out"
| "failed (Delete_call c out) = out"

text \<open>The tunnel starts of a log, in order: the address of the remote, the value of the
  remote that \<^verbatim>\<open>StartTunnel\<close> was given, and the outcome.\<close>

fun tunnel_starts :: "'e call list \<Rightarrow> (ref \<times> Remote \<times> ('e + Tunnel)) list" where
  "tunnel_starts [] = []"
| "tunnel_starts (StartTunnel_call p v acl out # cs) = (p, v, out) # tunnel_starts cs"
| "tunnel_starts (_ # cs) = tunnel_starts cs"

text \<open>The outcomes of the port allocations of a log, in order.\<close>

fun allocations :: "'e call list \<Rightarrow> ('e + int) list" where
  "allocations [] = []"
| "allocations (GetRandomPort_call out # cs) = out # allocations cs"
| "allocations (_ # cs) = allocations cs"

text \<open>\<open>n\<close> calls of \<^verbatim>\<open>GetRandomPort\<close>, one after the other, on the allocator \<open>pd\<close>: their
  outcomes, and the allocator they leave.\<close>

fun draw :: "('p, 'st, 'e) collab \<Rightarrow> 'p \<Rightarrow> nat \<Rightarrow> ('e + int) list \<times> 'p" where
  "draw D pd 0 = ([], pd)"
| "draw D pd (Suc n) =
     (case GetRandomPort D pd of
        (out, pd1) \<Rightarrow> (case draw D pd1 n of (outs, pd2) \<Rightarrow> (out # outs, pd2)))"

text \<open>The access-control lists that the tunnel starts of a log were given.\<close>

fun start_acls :: "'e call list \<Rightarrow> TunnelACL list" where
  "start_acls [] = []"
| "start_acls (StartTunnel_call p v acl out # cs) = acl # start_acls cs"
| "start_acls (_ # cs) = start_acls cs"

text \<open>The session after the tunnel starts of a log, when they are applied one after the
  other to the session \<open>c\<close>.\<close>

definition after_starts ::
  "('p, 'st, 'e) collab \<Rightarrow> TunnelACL \<Rightarrow> ClientSession \<Rightarrow> (ref \<times> Remote \<times> ('e + Tunnel)) list
     \<Rightarrow> ClientSession" where
  "after_starts D acl c xs = foldl (\<lambda>c x. snd (StartTunnel D c (fst (snd x)) acl)) c xs"

section \<open>The life of a session\<close>

text \<open>
  After \<^verbatim>\<open>StartClientSession\<close> has returned a session, its owner calls the service on it:
  \<^verbatim>\<open>StartSessionTunnels\<close> for further tunnels, and \<^verbatim>\<open>Terminate\<close> when the transport is closed
  or the context is cancelled. Each call is made in the world of its moment, which other
  sessions may have changed since the call before. The history of a session is the list
  of the states the session object goes through, the first being the one before any call.
\<close>

datatype ('p, 'st, 'e) owner_call =
    is_Start_tunnels: Start_tunnels "('p, 'st, 'e) world" "ref list" TunnelACL
  | is_Terminate_at: Terminate_at "('p, 'st, 'e) world" Time

fun apply_call ::
  "('p, 'st, 'e) collab \<Rightarrow> ClientSession \<Rightarrow> ('p, 'st, 'e) owner_call \<Rightarrow> ClientSession" where
  "apply_call D c (Start_tunnels s remotes acl) = snd (snd (StartSessionTunnels D s c remotes acl))"
| "apply_call D c (Terminate_at s time_Now) = snd (snd (Terminate D time_Now s c))"

fun history ::
  "('p, 'st, 'e) collab \<Rightarrow> ClientSession \<Rightarrow> ('p, 'st, 'e) owner_call list \<Rightarrow> ClientSession list" where
  "history D c [] = [c]"
| "history D c (x # xs) = c # history D (apply_call D c x) xs"

section \<open>The collaborators, from the specification\<close>

text \<open>
  The theorems below hold for every implementation of the collaborators. To run the
  service on concrete inputs, the collaborators are also given as the specification
  describes them (its sections 4.1, 4.3, 4.4 and 7).
\<close>

datatype error =
    PoolExhausted
  | ResourceUnavailable
  | InvalidTunnelSpec
  | DuplicateBinding
  | NotFound
  | StorageFailure

text \<open>Modelled from the spec: \<^verbatim>\<open>ports.PortDistributor\<close> is not part of the sources at hand.
  The pool has the allocatable range, the working set of ports considered in use and the
  authoritative occupancy source (\<open>None\<close> when it cannot be queried). The port that
  \<^verbatim>\<open>GetRandomPort\<close> picks among the free ones, in no fixed order, is decided by \<open>pick\<close>,
  which changes with every allocation.\<close>

record PortPool =
  allocatable :: "int list"
  in_use :: "int list"
  occupied :: "int list option"
  pick :: nat

text \<open>Modelled from the spec: \<^verbatim>\<open>Refresh\<close> takes the working set from the occupancy source
  and fails with \<open>ResourceUnavailable\<close> when the source cannot be queried.\<close>

definition spec_Refresh :: "PortPool \<Rightarrow> error option \<times> PortPool" where
  "spec_Refresh p =
     (case occupied p of
        None \<Rightarrow> (Some ResourceUnavailable, p)
      | Some ports \<Rightarrow> (None, p\<lparr>in_use := ports\<rparr>))"

text \<open>Modelled from the spec: \<^verbatim>\<open>GetRandomPort\<close> returns a port of the range that is not in
  the working set and marks it as in use; it fails with \<open>PoolExhausted\<close> when there is none.\<close>

definition spec_GetRandomPort :: "PortPool \<Rightarrow> (error + int) \<times> PortPool" where
  "spec_GetRandomPort p =
     (let free = filter (\<lambda>port. port \<notin> set (in_use p)) (allocatable p)
      in if free = [] then (Inl PoolExhausted, p)
         else (let port = free ! (pick p mod length free)
               in (Inr port, p\<lparr>in_use := port # in_use p, pick := Suc (pick p)\<rparr>)))"

text \<open>Modelled from the spec: \<^verbatim>\<open>Remote.IsLocalSpecified\<close> is not part of the sources at
  hand; a remote specifies its local endpoint when it names a local port.\<close>

definition spec_IsLocalSpecified :: "Remote \<Rightarrow> bool" where
  "spec_IsLocalSpecified r = (LocalPort r \<noteq> [])"

text \<open>Modelled from the spec: \<^verbatim>\<open>ClientSession.StartTunnel\<close> is not part of the sources at
  hand. It fails with \<open>InvalidTunnelSpec\<close> on malformed addressing (here: a port that is
  not a non-empty string of decimal digits) and with \<open>DuplicateBinding\<close> when the local
  endpoint is already used by a tunnel of the session; otherwise it constructs the
  tunnel, appends it to the tunnels of the session and returns it.\<close>

definition well_formed_port :: "string \<Rightarrow> bool" where
  "well_formed_port p = (p \<noteq> [] \<and> list_all (\<lambda>c. c \<in> set ''0123456789'') p)"

definition same_local :: "Remote \<Rightarrow> Tunnel \<Rightarrow> bool" where
  "same_local r t =
     (LocalHost (tunnel_remote t) = LocalHost r \<and> LocalPort (tunnel_remote t) = LocalPort r)"

text \<open>Modelled from the spec: \<^verbatim>\<open>StartTunnel\<close>, as described above.\<close>

definition spec_StartTunnel ::
  "ClientSession \<Rightarrow> Remote \<Rightarrow> TunnelACL \<Rightarrow> (error + Tunnel) \<times> ClientSession" where
  "spec_StartTunnel c r acl =
     (if \<not> (well_formed_port (LocalPort r) \<and> well_formed_port (RemotePort r))
      then (Inl InvalidTunnelSpec, c)
      else if list_ex (same_local r) (Tunnels c) then (Inl DuplicateBinding, c)
      else (let t = \<lparr>tunnel_remote = r, tunnel_acl = acl\<rparr>
            in (Inr t, c\<lparr>Tunnels := Tunnels c @ [t]\<rparr>)))"

text \<open>Modelled from the spec: \<^verbatim>\<open>csr.ClientSessionRepository\<close> is not part of the sources
  at hand. It is a store keyed by the session identifier: \<^verbatim>\<open>Save\<close> overwrites the record
  of the identifier, \<^verbatim>\<open>Delete\<close> removes it, \<^verbatim>\<open>GetActiveByID\<close> finds the sessions without a
  disconnection timestamp, \<^verbatim>\<open>GetAll\<close> and \<^verbatim>\<open>Count\<close> range over all records. A backend that
  is not \<open>available\<close> fails every write and leaves the records as they are.\<close>

record Backend =
  records :: "(string \<times> ClientSession) list"
  available :: bool

text \<open>Modelled from the spec: \<^verbatim>\<open>Save\<close>, an upsert keyed by the identifier.\<close>

definition spec_Save ::
  "Backend ClientSessionRepository \<Rightarrow> ClientSession
     \<Rightarrow> error option \<times> Backend ClientSessionRepository" where
  "spec_Save r c =
     (if \<not> available (store r) then (Some StorageFailure, r)
      else (None,
            r\<lparr>store := (store r)\<lparr>records :=
                 filter (\<lambda>kv. fst kv \<noteq> ID c) (records (store r)) @ [(ID c, c)]\<rparr>\<rparr>))"

text \<open>Modelled from the spec: \<^verbatim>\<open>Delete\<close> removes the record of the identifier.\<close>

definition spec_Delete ::
  "Backend ClientSessionRepository \<Rightarrow> ClientSession
     \<Rightarrow> error option \<times> Backend ClientSessionRepository" where
  "spec_Delete r c =
     (if \<not> available (store r) then (Some StorageFailure, r)
      else (None,
            r\<lparr>store := (store r)\<lparr>records :=
                 filter (\<lambda>kv. fst kv \<noteq> ID c) (records (store r))\<rparr>\<rparr>))"

text \<open>Modelled from the spec: \<^verbatim>\<open>GetActiveByID\<close> fails with \<open>NotFound\<close> when the record is
  absent or has a disconnection timestamp.\<close>

definition spec_GetActiveByID ::
  "Backend ClientSessionRepository \<Rightarrow> string \<Rightarrow> ClientSession option \<times> error option" where
  "spec_GetActiveByID r sid =
     (case map_of (records (store r)) sid of
        None \<Rightarrow> (None, Some NotFound)
      | Some c \<Rightarrow> (if Disconnected c = None then (Some c, None) else (None, Some NotFound)))"

text \<open>Modelled from the spec: \<^verbatim>\<open>GetAll\<close> and \<^verbatim>\<open>Count\<close> range over all records, connected
  or not.\<close>

definition spec_GetAll ::
  "Backend ClientSessionRepository \<Rightarrow> ClientSession list \<times> error option" where
  "spec_GetAll r = (map snd (records (store r)), None)"

definition spec_Count :: "Backend ClientSessionRepository \<Rightarrow> int \<times> error option" where
  "spec_Count r = (int (length (records (store r))), None)"

definition spec_collab :: "(PortPool, Backend, error) collab" where
  "spec_collab =
     \<lparr>Refresh = spec_Refresh,
      GetRandomPort = spec_GetRandomPort,
      IsLocalSpecified = spec_IsLocalSpecified,
      StartTunnel = spec_StartTunnel,
      repo_Count = spec_Count,
      repo_GetActiveByID = spec_GetActiveByID,
      repo_GetAll = spec_GetAll,
      repo_Save = spec_Save,
      repo_Delete = spec_Delete\<rparr>"

subsection \<open>Concrete inputs\<close>

text \<open>A pool with the ports 20000 to 20002, of which 20001 is occupied; an empty
  repository, with and without the retention policy; three remotes, of which the one at
  address 2 names the local endpoint \<open>127.0.0.1:8080\<close>; a fourth remote at address 4 that
  names the same local endpoint; a fifth at address 5 that names no local endpoint and
  has a remote port that is not a number.\<close>

definition pool0 :: PortPool where
  "pool0 = \<lparr>allocatable = [20000, 20001, 20002], in_use = [], occupied = Some [20001], pick = 0\<rparr>"

definition auto_remote :: "string \<Rightarrow> Remote" where
  "auto_remote rport = \<lparr>LocalHost = [], LocalPort = [], RemoteHost = ''10.0.0.5'', RemotePort = rport\<rparr>"

definition fixed_remote :: "string \<Rightarrow> Remote" where
  "fixed_remote rport =
     \<lparr>LocalHost = ''127.0.0.1'', LocalPort = ''8080'', RemoteHost = ''10.0.0.5'', RemotePort = rport\<rparr>"

definition heap0 :: "ref \<Rightarrow> Remote" where
  "heap0 a = (if a = 2 then fixed_remote ''22'' else if a = 4 then fixed_remote ''443''
              else if a = 5 then auto_remote ''http'' else auto_remote ''3389'')"

definition repo0 :: "int option \<Rightarrow> Backend ClientSessionRepository" where
  "repo0 keep = \<lparr>KeepLostClients = keep, store = \<lparr>records = [], available = True\<rparr>\<rparr>"

definition world_of ::
  "PortPool \<Rightarrow> Backend ClientSessionRepository \<Rightarrow> (PortPool, Backend, error) world" where
  "world_of pool r = \<lparr>portDistributor = pool, repo = r, heap = heap0, calls = []\<rparr>"

definition world0 :: "int option \<Rightarrow> (PortPool, Backend, error) world" where
  "world0 keep = world_of pool0 (repo0 keep)"

text \<open>A repository whose backend fails every write.\<close>

definition repo_down :: "Backend ClientSessionRepository" where
  "repo_down = \<lparr>KeepLostClients = None, store = \<lparr>records = [], available = False\<rparr>\<rparr>"

text \<open>The remote at address 1 or 3 once a port has been written into it, and the tunnel
  that the specification's \<^verbatim>\<open>StartTunnel\<close> makes of a remote for the empty access-control
  list.\<close>

definition assigned_remote :: "string \<Rightarrow> Remote" where
  "assigned_remote port = (auto_remote ''3389'')\<lparr>LocalPort := port, LocalHost := ''0.0.0.0''\<rparr>"

definition tunnel_of :: "Remote \<Rightarrow> Tunnel" where
  "tunnel_of r = \<lparr>tunnel_remote = r, tunnel_acl = []\<rparr>"

definition conn0 :: Conn where
  "conn0 = \<lparr>conn_id = 7, RemoteAddr = ''203.0.113.9:51000''\<rparr>"

definition request0 :: "ref list \<Rightarrow> ConnectionRequest" where
  "request0 rs =
     \<lparr>ConnectionRequest.Name = ''edge-1'', Tags = [''lab''], OS = ''linux'', Hostname = ''edge'',
      Version = ''0.9.12'', IPv4 = [''10.0.0.5''], IPv6 = [], Remotes = rs\<rparr>"

definition session0 :: ClientSession where
  "session0 =
     \<lparr>ID = ''s1'', Name = ''edge-1'', Tags = [''lab''], OS = ''linux'', Hostname = ''edge'',
      Version = ''0.9.12'', IPv4 = [''10.0.0.5''], IPv6 = [], Address = ''203.0.113.9:51000'',
      Tunnels = [], Connection = conn0, Context = 1, User = 2, Logger = 3,
      Disconnected = None\<rparr>"

subsection \<open>Concrete runs\<close>

text \<open>Batches of tunnel starts on the session \<open>session0\<close>: all three remotes; the two
  remotes with the same local endpoint, followed by a third; the first remote alone; no
  remote; a batch when the occupancy source cannot be queried; a batch when the pool has
  no port.\<close>

definition batch_ok ::
  "(error + Tunnel list) \<times> (PortPool, Backend, error) world \<times> ClientSession" where
  "batch_ok = StartSessionTunnels spec_collab (world0 None) session0 [1, 2, 3] []"

definition batch_dup ::
  "(error + Tunnel list) \<times> (PortPool, Backend, error) world \<times> ClientSession" where
  "batch_dup = StartSessionTunnels spec_collab (world0 None) session0 [2, 4, 3] []"

definition batch_one ::
  "(error + Tunnel list) \<times> (PortPool, Backend, error) world \<times> ClientSession" where
  "batch_one = StartSessionTunnels spec_collab (world0 None) session0 [1] []"

definition batch_none ::
  "(error + Tunnel list) \<times> (PortPool, Backend, error) world \<times> ClientSession" where
  "batch_none = StartSessionTunnels spec_collab (world0 None) session0 [] []"

definition world_offline :: "(PortPool, Backend, error) world" where
  "world_offline = world_of (pool0\<lparr>occupied := None\<rparr>) (repo0 None)"

definition batch_offline ::
  "(error + Tunnel list) \<times> (PortPool, Backend, error) world \<times> ClientSession" where
  "batch_offline = StartSessionTunnels spec_collab world_offline session0 [1, 2, 3] []"

definition world_exhausted :: "(PortPool, Backend, error) world" where
  "world_exhausted = world_of (pool0\<lparr>allocatable := []\<rparr>) (repo0 None)"

definition batch_exhausted ::
  "(error + Tunnel list) \<times> (PortPool, Backend, error) world \<times> ClientSession" where
  "batch_exhausted = StartSessionTunnels spec_collab world_exhausted session0 [1] []"

text \<open>Session starts: one that succeeds, one whose second tunnel fails, one whose save
  fails.\<close>

definition session_ok :: "(error + ClientSession) \<times> (PortPool, Backend, error) world" where
  "session_ok = StartClientSession spec_collab (world0 None) 1 ''s1'' conn0 (request0 [1, 2, 3]) 2 3"

definition session_dup :: "(error + ClientSession) \<times> (PortPool, Backend, error) world" where
  "session_dup = StartClientSession spec_collab (world0 None) 1 ''s1'' conn0 (request0 [2, 4, 3]) 2 3"

definition session_down :: "(error + ClientSession) \<times> (PortPool, Backend, error) world" where
  "session_down =
     StartClientSession spec_collab (world_of pool0 repo_down) 1 ''s1'' conn0 (request0 [1, 2, 3]) 2 3"

text \<open>A world whose occupancy source reports port 20000 as bound, and the batch of the
  first remote in it; the batch of the fifth remote; the batch of the first two remotes;
  the batch of the first two remotes followed by the one at address 4, which names the
  local endpoint of the second.\<close>

definition world_busy :: "(PortPool, Backend, error) world" where
  "world_busy = world_of (pool0\<lparr>occupied := Some [20000]\<rparr>) (repo0 None)"

definition batch_busy ::
  "(error + Tunnel list) \<times> (PortPool, Backend, error) world \<times> ClientSession" where
  "batch_busy = StartSessionTunnels spec_collab world_busy session0 [1] []"

definition batch_bad ::
  "(error + Tunnel list) \<times> (PortPool, Backend, error) world \<times> ClientSession" where
  "batch_bad = StartSessionTunnels spec_collab (world0 None) session0 [5] []"

definition batch_two ::
  "(error + Tunnel list) \<times> (PortPool, Backend, error) world \<times> ClientSession" where
  "batch_two = StartSessionTunnels spec_collab (world0 None) session0 [1, 2] []"

definition batch_late ::
  "(error + Tunnel list) \<times> (PortPool, Backend, error) world \<times> ClientSession" where
  "batch_late = StartSessionTunnels spec_collab (world0 None) session0 [1, 2, 4] []"

text \<open>The session that the successful session start returns; a repository that retains
  lost clients and holds a lost session under the identifier \<open>s1\<close>; the session start of
  a client that reconnects under that identifier.\<close>

definition session_created :: ClientSession where
  "session_created =
     session0\<lparr>Tunnels := [tunnel_of (assigned_remote ''20000''), tunnel_of (fixed_remote ''22''),
                           tunnel_of (assigned_remote ''20002'')]\<rparr>"

definition repo_lost :: "Backend ClientSessionRepository" where
  "repo_lost =
     \<lparr>KeepLostClients = Some 3600,
      store = \<lparr>records =
                 [(''s1'', session0\<lparr>Disconnected := Some \<lparr>unix_nanos = 100, location = UTC\<rparr>\<rparr>)],
               available = True\<rparr>\<rparr>"

definition session_again :: "(error + ClientSession) \<times> (PortPool, Backend, error) world" where
  "session_again =
     StartClientSession spec_collab (world_of pool0 repo_lost) 1 ''s1'' conn0 (request0 [1, 2, 3]) 2 3"


section \<open>Properties\<close>

subsection \<open>Read-through accessors\<close>

text \<open>C8. For every identifier and every state of the repository, \<^verbatim>\<open>Count()\<close>,
  \<^verbatim>\<open>GetActiveByID(id)\<close> and \<^verbatim>\<open>GetAll()\<close> of the service return exactly the pair of value
  and error that the operation of the repository returns.\<close>

theorem accessors_delegate:
  "Count D s = repo_Count D (repo s)
   \<and> GetActiveByID D s sid = repo_GetActiveByID D (repo s) sid
   \<and> GetAll D s = repo_GetAll D (repo s)"
  by (simp add: Count_def GetActiveByID_def GetAll_def)

subsection \<open>\<^verbatim>\<open>Terminate\<close>\<close>

text \<open>C6. \<^verbatim>\<open>Terminate\<close> looks at the retention flag of the repository only. When the flag
  is absent, the session is deleted from the repository (the one call made) and is itself
  left as it was, so no disconnection timestamp is set. When the flag is present, the
  disconnection timestamp of the session is set to the clock reading in UTC, and the
  session, with that timestamp, is saved (the one call made). The error returned is the one
  of the repository. For every session the branch taken is decided by the flag.\<close>

theorem Terminate_policy:
  assumes "Terminate D time_Now s session = (err, s', session')"
  shows "(KeepLostClients (repo s) = None \<longrightarrow>
            session' = session
            \<and> (err, repo s') = repo_Delete D (repo s) session
            \<and> calls_since s s' = [Delete_call session err])
       \<and> (KeepLostClients (repo s) \<noteq> None \<longrightarrow>
            session' = session\<lparr>Disconnected := Some (Time_UTC time_Now)\<rparr>
            \<and> unix_nanos (Time_UTC time_Now) = unix_nanos time_Now
            \<and> location (Time_UTC time_Now) = UTC
            \<and> (err, repo s') = repo_Save D (repo s) session'
            \<and> calls_since s s' = [Save_call session' err])
       \<and> portDistributor s' = portDistributor s \<and> heap s' = heap s"
proof (cases "KeepLostClients (repo s) = None")
  case True
  with assms show ?thesis
    by (auto simp: Terminate_def calls_since_def split: prod.splits)
next
  case False
  with assms show ?thesis
    by (auto simp: Terminate_def Let_def Time_UTC_def calls_since_def split: prod.splits)
qed

theorem Terminate_policy_witness:
  "KeepLostClients (repo (world0 None)) = None
   \<and> Terminate spec_collab \<lparr>unix_nanos = 1700000000, location = Local\<rparr> (world0 None) session0
       = (None, fst (snd (Terminate spec_collab \<lparr>unix_nanos = 1700000000, location = Local\<rparr> (world0 None) session0)), session0)
   \<and> KeepLostClients (repo (world0 (Some 3600))) \<noteq> None
   \<and> Disconnected (snd (snd (Terminate spec_collab \<lparr>unix_nanos = 1700000000, location = Local\<rparr>
         (world0 (Some 3600)) session0))) = Some \<lparr>unix_nanos = 1700000000, location = UTC\<rparr>
   \<and> calls_since (world0 (Some 3600))
        (fst (snd (Terminate spec_collab \<lparr>unix_nanos = 1700000000, location = Local\<rparr>
           (world0 (Some 3600)) session0)))
       = [Save_call (session0\<lparr>Disconnected := Some \<lparr>unix_nanos = 1700000000, location = UTC\<rparr>\<rparr>) None]"
proof -
  let ?t = "\<lparr>unix_nanos = 1700000000, location = Local\<rparr>"
  let ?a = "Terminate spec_collab ?t (world0 None) session0"
  let ?b = "Terminate spec_collab ?t (world0 (Some 3600)) session0"
  have k1: "KeepLostClients (repo (world0 None)) = None"
    by (simp add: world0_def world_of_def repo0_def)
  have k2: "KeepLostClients (repo (world0 (Some 3600))) \<noteq> None"
    by (simp add: world0_def world_of_def repo0_def)
  have d: "repo_Delete spec_collab (repo (world0 None)) session0 = (None, repo (world0 None))"
    by (simp add: spec_collab_def spec_Delete_def world0_def world_of_def repo0_def)
  have sv: "fst (repo_Save spec_collab (repo (world0 (Some 3600))) c) = None" for c
    by (simp add: spec_collab_def spec_Save_def world0_def world_of_def repo0_def)
  have a: "?a = (fst ?a, fst (snd ?a), snd (snd ?a))" by simp
  have b: "?b = (fst ?b, fst (snd ?b), snd (snd ?b))" by simp
  from Terminate_policy[OF a] k1 d have a1: "snd (snd ?a) = session0" "fst ?a = None"
    by auto
  from Terminate_policy[OF b] k2
  have b1: "snd (snd ?b) = session0\<lparr>Disconnected := Some (Time_UTC ?t)\<rparr>"
    and b2: "(fst ?b, repo (fst (snd ?b))) = repo_Save spec_collab (repo (world0 (Some 3600))) (snd (snd ?b))"
    and b3: "calls_since (world0 (Some 3600)) (fst (snd ?b)) = [Save_call (snd (snd ?b)) (fst ?b)]"
    by auto
  from b2 sv have b4: "fst ?b = None" by (metis fst_conv)
  have u: "Time_UTC ?t = \<lparr>unix_nanos = 1700000000, location = UTC\<rparr>"
    by (simp add: Time_UTC_def)
  from a1 have "?a = (None, fst (snd ?a), session0)" by (metis prod.collapse)
  with k1 k2 b1 b3 b4 u show ?thesis by simp
qed

subsection \<open>\<^verbatim>\<open>strconv.Itoa\<close> writes decimal digits\<close>

lemma below_ten:
  "(d::nat) < 10 \<Longrightarrow>
     d = 0 \<or> d = 1 \<or> d = 2 \<or> d = 3 \<or> d = 4 \<or> d = 5 \<or> d = 6 \<or> d = 7 \<or> d = 8 \<or> d = 9"
  by arith

lemma digit_value_digit: "d < 10 \<Longrightarrow> digit_value (digit d) = d"
  by (drule below_ten) (auto simp: digit_value_def digit_def)

lemma digit_is_decimal: "d < 10 \<Longrightarrow> digit d \<in> set ''0123456789''"
  by (drule below_ten) (auto simp: digit_def)

lemma read_decimal_snoc: "read_decimal (cs @ [c]) = 10 * read_decimal cs + digit_value c"
  by (simp add: read_decimal_def)

lemma read_decimal_formatBits: "read_decimal (formatBits n) = n"
proof (induction n rule: formatBits.induct)
  case (1 n)
  show ?case
  proof (cases "n < 10")
    case True
    then show ?thesis
      by (simp add: formatBits.simps[of n] read_decimal_def digit_value_digit)
  next
    case False
    with 1 have "read_decimal (formatBits (n div 10)) = n div 10" by simp
    with False show ?thesis
      by (simp add: formatBits.simps[of n] read_decimal_snoc digit_value_digit)
  qed
qed

lemma formatBits_decimal: "set (formatBits n) \<subseteq> set ''0123456789''"
proof (induction n rule: formatBits.induct)
  case (1 n)
  show ?case
  proof (cases "n < 10")
    case True
    then show ?thesis
      using digit_is_decimal[of n] by (simp add: formatBits.simps[of n])
  next
    case False
    with 1 have "set (formatBits (n div 10)) \<subseteq> set ''0123456789''" by simp
    with False show ?thesis
      using digit_is_decimal[of "n mod 10"] by (simp add: formatBits.simps[of n])
  qed
qed

lemma Itoa_decimal:
  "0 \<le> i \<Longrightarrow> int (read_decimal (Itoa i)) = i"
  "i < 0 \<Longrightarrow> Itoa i = CHR ''-'' # formatBits (nat (- i))"
  "0 \<le> i \<Longrightarrow> set (Itoa i) \<subseteq> set ''0123456789''"
  using formatBits_decimal[of "nat i"]
  by (simp_all add: Itoa_def read_decimal_formatBits)

lemma formatBits_not_empty: "formatBits n \<noteq> []"
  by (subst formatBits.simps) simp

lemma read_int_Itoa: "read_int (Itoa i) = i"
proof (cases "i < 0")
  case True
  then show ?thesis
    by (simp add: Itoa_def read_int_def read_decimal_formatBits)
next
  case False
  obtain c rest where f: "formatBits (nat i) = c # rest"
    using formatBits_not_empty[of "nat i"] by (cases "formatBits (nat i)") auto
  with formatBits_decimal[of "nat i"] have "c \<in> set ''0123456789''" by simp
  then have "c \<noteq> CHR ''-''" by auto
  with False f read_decimal_formatBits[of "nat i"] show ?thesis
    by (simp add: Itoa_def read_int_def)
qed

lemma Itoa_inject: "Itoa i = Itoa j \<Longrightarrow> i = j"
  by (metis read_int_Itoa)

subsection \<open>The loop of \<^verbatim>\<open>StartSessionTunnels\<close>, step by step\<close>

lemma calls_since_trans:
  assumes "calls s2 = calls s @ B" and "calls s' = calls s2 @ C"
  shows "calls_since s s' = B @ calls_since s2 s'"
  using assms by (simp add: calls_since_def)

lemma assign_local_cases:
  assumes "assign_local D s r = (out, s1)"
  obtains (specified) "IsLocalSpecified D (heap s r)" "out = None" "s1 = s"
  | (exhausted) err pd where "\<not> IsLocalSpecified D (heap s r)"
      "GetRandomPort D (portDistributor s) = (Inl err, pd)" "out = Some err"
      "s1 = s\<lparr>portDistributor := pd, calls := calls s @ [GetRandomPort_call (Inl err)]\<rparr>"
  | (assigned) port pd where "\<not> IsLocalSpecified D (heap s r)"
      "GetRandomPort D (portDistributor s) = (Inr port, pd)" "out = None"
      "s1 = s\<lparr>portDistributor := pd,
              heap := (heap s)(r := (heap s r)\<lparr>LocalPort := Itoa port, LocalHost := ''0.0.0.0''\<rparr>),
              calls := calls s @ [GetRandomPort_call (Inr port)]\<rparr>"
  using assms unfolding assign_local_def
  by (auto split: if_splits prod.splits sum.splits)

lemma start_loop_Cons_cases:
  assumes "start_loop D s c ts (r # rs) acl = (res, s', c')"
  obtains (alloc_failed) err s1 where "assign_local D s r = (Some err, s1)"
      "res = Inl err" "s' = s1" "c' = c"
  | (tunnel_failed) s1 err c1 where "assign_local D s r = (None, s1)"
      "StartTunnel D c (heap s1 r) acl = (Inl err, c1)" "res = Inl err"
      "s' = s1\<lparr>calls := calls s1 @ [StartTunnel_call r (heap s1 r) acl (Inl err)]\<rparr>" "c' = c1"
  | (continued) s1 t c1 where "assign_local D s r = (None, s1)"
      "StartTunnel D c (heap s1 r) acl = (Inr t, c1)"
      "start_loop D (s1\<lparr>calls := calls s1 @ [StartTunnel_call r (heap s1 r) acl (Inr t)]\<rparr>)
         c1 (ts @ [t]) rs acl = (res, s', c')"
  using assms by (auto split: prod.splits option.splits sum.splits)

text \<open>What one allocation step adds to the log.\<close>

lemma assign_local_log:
  assumes "assign_local D s r = (out, s1)"
  shows "\<exists>A. calls s1 = calls s @ A \<and> length A \<le> 1 \<and> tunnel_starts A = []
           \<and> (\<forall>x\<in>set A. is_GetRandomPort x)
           \<and> (out = None \<longrightarrow> (\<forall>x\<in>set A. failed x = None))
           \<and> (\<forall>err. out = Some err \<longrightarrow> A = [GetRandomPort_call (Inl err)])"
  using assms by (cases rule: assign_local_cases) auto

lemma assign_local_repo:
  assumes "assign_local D s r = (out, s1)"
  shows "repo s1 = repo s"
  using assms by (cases rule: assign_local_cases) auto

lemma start_loop_calls:
  assumes "start_loop D s c ts rs acl = (res, s', c')"
  shows "\<exists>cs. calls s' = calls s @ cs"
  using assms
proof (induction rs arbitrary: s c ts)
  case Nil
  then show ?case by simp
next
  case (Cons r rs)
  from Cons.prems show ?case
  proof (cases rule: start_loop_Cons_cases)
    case (alloc_failed err s1)
    then show ?thesis using assign_local_log[of D s r "Some err" s1] by auto
  next
    case (tunnel_failed s1 err c1)
    then show ?thesis using assign_local_log[of D s r None s1] by auto
  next
    case (continued s1 t c1)
    from Cons.IH[OF continued(3)] assign_local_log[OF continued(1)]
    show ?thesis by auto
  qed
qed

lemma start_loop_repo:
  assumes "start_loop D s c ts rs acl = (res, s', c')"
  shows "repo s' = repo s"
  using assms
proof (induction rs arbitrary: s c ts)
  case Nil
  then show ?case by simp
next
  case (Cons r rs)
  from Cons.prems show ?case
  proof (cases rule: start_loop_Cons_cases)
    case (alloc_failed err s1)
    then show ?thesis using assign_local_repo[of D s r "Some err" s1] by auto
  next
    case (tunnel_failed s1 err c1)
    then show ?thesis using assign_local_repo[of D s r None s1] by auto
  next
    case (continued s1 t c1)
    from Cons.IH[OF continued(3)] assign_local_repo[OF continued(1)]
    show ?thesis by auto
  qed
qed

text \<open>The shape of the log of the loop: only allocations and tunnel starts; a call that
  failed is the last one, and its error is the result.\<close>

lemma start_loop_log:
  assumes "start_loop D s c ts rs acl = (res, s', c')"
  shows "(\<forall>x\<in>set (calls_since s s'). is_GetRandomPort x \<or> is_StartTunnel x)
       \<and> (\<forall>x\<in>set (butlast (calls_since s s')). failed x = None)
       \<and> (\<forall>err. res = Inl err \<longrightarrow>
             calls_since s s' \<noteq> [] \<and> failed (last (calls_since s s')) = Some err)
       \<and> (\<forall>ts'. res = Inr ts' \<longrightarrow> (\<forall>x\<in>set (calls_since s s'). failed x = None))"
  using assms
proof (induction rs arbitrary: s c ts)
  case Nil
  then show ?case by (auto simp: calls_since_def)
next
  case (Cons r rs)
  from Cons.prems show ?case
  proof (cases rule: start_loop_Cons_cases)
    case (alloc_failed err s1)
    from assign_local_log[OF alloc_failed(1)]
    have "calls s1 = calls s @ [GetRandomPort_call (Inl err)]" by auto
    with alloc_failed show ?thesis by (simp add: calls_since_def)
  next
    case (tunnel_failed s1 err c1)
    from assign_local_log[OF tunnel_failed(1)] obtain A where
      A: "calls s1 = calls s @ A" "\<forall>x\<in>set A. is_GetRandomPort x" "\<forall>x\<in>set A. failed x = None"
      by auto
    have "calls_since s s' = A @ [StartTunnel_call r (heap s1 r) acl (Inl err)]"
      using tunnel_failed A by (simp add: calls_since_def)
    with tunnel_failed A show ?thesis by auto
  next
    case (continued s1 t c1)
    let ?s2 = "s1\<lparr>calls := calls s1 @ [StartTunnel_call r (heap s1 r) acl (Inr t)]\<rparr>"
    from assign_local_log[OF continued(1)] obtain A where
      A: "calls s1 = calls s @ A" "\<forall>x\<in>set A. is_GetRandomPort x" "\<forall>x\<in>set A. failed x = None"
      by auto
    from start_loop_calls[OF continued(3)] obtain C where C: "calls s' = calls ?s2 @ C"
      by auto
    have B: "calls ?s2 = calls s @ (A @ [StartTunnel_call r (heap s1 r) acl (Inr t)])"
      using A by simp
    have eq: "calls_since s s' = (A @ [StartTunnel_call r (heap s1 r) acl (Inr t)]) @ calls_since ?s2 s'"
      by (rule calls_since_trans[OF B C])
    note IH = Cons.IH[OF continued(3)]
    have ok: "\<forall>x\<in>set (A @ [StartTunnel_call r (heap s1 r) acl (Inr t)]). failed x = None
                \<and> (is_GetRandomPort x \<or> is_StartTunnel x)"
      using A by auto
    show ?thesis
    proof (cases "calls_since ?s2 s' = []")
      case True
      with IH eq ok show ?thesis by (auto dest: in_set_butlastD)
    next
      case False
      then have "butlast (calls_since s s')
                  = (A @ [StartTunnel_call r (heap s1 r) acl (Inr t)]) @ butlast (calls_since ?s2 s')"
        and "last (calls_since s s') = last (calls_since ?s2 s')"
        using eq by (simp_all add: butlast_append)
      with IH eq ok False show ?thesis by auto
    qed
  qed
qed


lemma tunnel_starts_append: "tunnel_starts (xs @ ys) = tunnel_starts xs @ tunnel_starts ys"
  by (induction xs rule: tunnel_starts.induct) simp_all

lemma after_starts_Cons:
  "after_starts D acl c (x # xs) = after_starts D acl (snd (StartTunnel D c (fst (snd x)) acl)) xs"
  by (simp add: after_starts_def)

text \<open>The tunnel starts of the loop: one for each remote of a prefix of the list, in the
  order of the list; the session is what they made of it; on success there is one for
  every remote, and the tunnels returned are theirs.\<close>

lemma start_loop_starts:
  assumes "start_loop D s c ts rs acl = (res, s', c')"
  shows "map fst (tunnel_starts (calls_since s s'))
           = take (length (tunnel_starts (calls_since s s'))) rs
       \<and> c' = after_starts D acl c (tunnel_starts (calls_since s s'))
       \<and> (\<forall>ts'. res = Inr ts' \<longrightarrow>
             take (length ts) ts' = ts \<and> length ts' = length ts + length rs
             \<and> map (\<lambda>x. (fst x, snd (snd x))) (tunnel_starts (calls_since s s'))
                 = zip rs (map Inr (drop (length ts) ts')))"
  using assms
proof (induction rs arbitrary: s c ts)
  case Nil
  then show ?case by (auto simp: calls_since_def after_starts_def)
next
  case (Cons r rs)
  from Cons.prems show ?case
  proof (cases rule: start_loop_Cons_cases)
    case (alloc_failed err s1)
    from assign_local_log[OF alloc_failed(1)]
    have "calls s1 = calls s @ [GetRandomPort_call (Inl err)]" by auto
    with alloc_failed show ?thesis by (simp add: calls_since_def after_starts_def)
  next
    case (tunnel_failed s1 err c1)
    from assign_local_log[OF tunnel_failed(1)] obtain A where
      A: "calls s1 = calls s @ A" "tunnel_starts A = []"
      by auto
    have "calls_since s s' = A @ [StartTunnel_call r (heap s1 r) acl (Inl err)]"
      using tunnel_failed A by (simp add: calls_since_def)
    with tunnel_failed A show ?thesis
      by (simp add: tunnel_starts_append after_starts_def)
  next
    case (continued s1 t c1)
    let ?st = "StartTunnel_call r (heap s1 r) acl (Inr t)"
    let ?s2 = "s1\<lparr>calls := calls s1 @ [?st]\<rparr>"
    from assign_local_log[OF continued(1)] obtain A where
      A: "calls s1 = calls s @ A" "tunnel_starts A = []"
      by auto
    from start_loop_calls[OF continued(3)] obtain C where C: "calls s' = calls ?s2 @ C"
      by auto
    have B: "calls ?s2 = calls s @ (A @ [?st])"
      using A by simp
    have eq: "calls_since s s' = (A @ [?st]) @ calls_since ?s2 s'"
      by (rule calls_since_trans[OF B C])
    have starts: "tunnel_starts (calls_since s s')
                    = (r, heap s1 r, Inr t) # tunnel_starts (calls_since ?s2 s')"
      using eq A by (simp add: tunnel_starts_append)
    note IH = Cons.IH[OF continued(3)]
    have 1: "map fst (tunnel_starts (calls_since s s'))
               = take (length (tunnel_starts (calls_since s s'))) (r # rs)"
      using IH starts by simp
    have 2: "c' = after_starts D acl c (tunnel_starts (calls_since s s'))"
      using IH starts continued(2) by (simp add: after_starts_Cons)
    have 3: "take (length ts) ts' = ts \<and> length ts' = length ts + length (r # rs)
             \<and> map (\<lambda>x. (fst x, snd (snd x))) (tunnel_starts (calls_since s s'))
                 = zip (r # rs) (map Inr (drop (length ts) ts'))" if "res = Inr ts'" for ts'
    proof -
      from IH that have a: "take (Suc (length ts)) ts' = ts @ [t]"
        and b: "length ts' = Suc (length ts) + length rs"
        and c: "map (\<lambda>x. (fst x, snd (snd x))) (tunnel_starts (calls_since ?s2 s'))
                 = zip rs (map Inr (drop (Suc (length ts)) ts'))"
        by auto
      from a have a1: "take (length ts) ts' = ts"
        by (metis append_eq_conv_conj length_append_singleton lessI less_imp_le_nat take_all_iff
            take_take min.absorb1 butlast_snoc butlast_take diff_Suc_1 length_take)
      from a b have a2: "ts' ! length ts = t"
        by (metis lessI less_add_Suc1 nth_append_length nth_take)
      from b have "drop (length ts) ts' = ts' ! length ts # drop (Suc (length ts)) ts'"
        by (simp add: Cons_nth_drop_Suc)
      with a1 a2 b c starts show ?thesis by simp
    qed
    from 1 2 3 show ?thesis by blast
  qed
qed

lemma start_loop_append:
  "start_loop D s c ts (xs @ ys) acl =
     (case start_loop D s c ts xs acl of
        (Inl err, s1, c1) \<Rightarrow> (Inl err, s1, c1)
      | (Inr ts1, s1, c1) \<Rightarrow> start_loop D s1 c1 ts1 ys acl)"
  by (induction xs arbitrary: s c ts) (auto split: prod.splits option.splits sum.splits)

text \<open>A loop that a tunnel start has ended is the loop over the remotes up to that one.\<close>

lemma start_loop_truncate:
  assumes "start_loop D s c ts rs acl = (Inl err, s', c')"
    and "is_StartTunnel (last (calls_since s s'))"
  shows "start_loop D s c ts (take (length (tunnel_starts (calls_since s s'))) rs) acl
           = (Inl err, s', c')"
  using assms
proof (induction rs arbitrary: s c ts)
  case Nil
  then show ?case by simp
next
  case (Cons r rs)
  from Cons.prems(1) show ?case
  proof (cases rule: start_loop_Cons_cases)
    case (alloc_failed e s1)
    from assign_local_log[OF alloc_failed(1)]
    have "calls s1 = calls s @ [GetRandomPort_call (Inl e)]" by auto
    with alloc_failed Cons.prems(2) show ?thesis by (simp add: calls_since_def)
  next
    case (tunnel_failed s1 e c1)
    from assign_local_log[OF tunnel_failed(1)] obtain A where
      A: "calls s1 = calls s @ A" "tunnel_starts A = []"
      by auto
    have "calls_since s s' = A @ [StartTunnel_call r (heap s1 r) acl (Inl e)]"
      using tunnel_failed A by (simp add: calls_since_def)
    then have "length (tunnel_starts (calls_since s s')) = 1"
      using A by (simp add: tunnel_starts_append)
    with tunnel_failed show ?thesis by simp
  next
    case (continued s1 t c1)
    let ?st = "StartTunnel_call r (heap s1 r) acl (Inr t)"
    let ?s2 = "s1\<lparr>calls := calls s1 @ [?st]\<rparr>"
    from assign_local_log[OF continued(1)] obtain A where
      A: "calls s1 = calls s @ A" "tunnel_starts A = []"
      by auto
    from start_loop_calls[OF continued(3)] obtain C where C: "calls s' = calls ?s2 @ C"
      by auto
    have B: "calls ?s2 = calls s @ (A @ [?st])"
      using A by simp
    have eq: "calls_since s s' = (A @ [?st]) @ calls_since ?s2 s'"
      by (rule calls_since_trans[OF B C])
    from start_loop_log[OF continued(3)] have ne: "calls_since ?s2 s' \<noteq> []" by simp
    with eq have "last (calls_since s s') = last (calls_since ?s2 s')" by simp
    with Cons.prems(2) have "is_StartTunnel (last (calls_since ?s2 s'))" by simp
    from Cons.IH[OF continued(3) this]
    have "start_loop D ?s2 c1 (ts @ [t]) (take (length (tunnel_starts (calls_since ?s2 s'))) rs) acl
            = (Inl err, s', c')" .
    moreover have "length (tunnel_starts (calls_since s s'))
                     = Suc (length (tunnel_starts (calls_since ?s2 s')))"
      using eq A by (simp add: tunnel_starts_append)
    ultimately show ?thesis using continued(1,2) by simp
  qed
qed

lemma allocations_append: "allocations (xs @ ys) = allocations xs @ allocations ys"
  by (induction xs rule: allocations.induct) simp_all

text \<open>The allocations of the loop are calls of \<^verbatim>\<open>GetRandomPort\<close> one after the other, the
  first on the allocator the loop starts with; the allocator the loop leaves is the one
  the last of them has left.\<close>

lemma start_loop_draw:
  assumes "start_loop D s c ts rs acl = (res, s', c')"
  shows "draw D (portDistributor s) (length (allocations (calls_since s s')))
           = (allocations (calls_since s s'), portDistributor s')"
  using assms
proof (induction rs arbitrary: s c ts)
  case Nil
  then show ?case by (auto simp: calls_since_def)
next
  case (Cons r rs)
  from Cons.prems show ?case
  proof (cases rule: start_loop_Cons_cases)
    case (alloc_failed err s1)
    from alloc_failed(1) show ?thesis
      by (cases rule: assign_local_cases) (use alloc_failed in \<open>auto simp: calls_since_def\<close>)
  next
    case (tunnel_failed s1 err c1)
    from tunnel_failed(1) show ?thesis
      by (cases rule: assign_local_cases) (use tunnel_failed in \<open>auto simp: calls_since_def\<close>)
  next
    case (continued s1 t c1)
    let ?st = "StartTunnel_call r (heap s1 r) acl (Inr t)"
    let ?s2 = "s1\<lparr>calls := calls s1 @ [?st]\<rparr>"
    from start_loop_calls[OF continued(3)] obtain C where C: "calls s' = calls ?s2 @ C"
      by auto
    note IH = Cons.IH[OF continued(3)]
    from continued(1) show ?thesis
    proof (cases rule: assign_local_cases)
      case specified
      then have B: "calls ?s2 = calls s @ [?st]" by simp
      have "calls_since s s' = [?st] @ calls_since ?s2 s'"
        by (rule calls_since_trans[OF B C])
      with IH specified show ?thesis by simp
    next
      case (exhausted e pd)
      then show ?thesis by simp
    next
      case (assigned port pd)
      then have B: "calls ?s2 = calls s @ [GetRandomPort_call (Inr port), ?st]" by simp
      have "calls_since s s' = [GetRandomPort_call (Inr port), ?st] @ calls_since ?s2 s'"
        by (rule calls_since_trans[OF B C])
      with IH assigned show ?thesis by simp
    qed
  qed
qed

lemma StartSessionTunnels_cases:
  assumes "StartSessionTunnels D s session remotes acl = (res, s', session')"
  obtains (refresh_failed) err pd where "Refresh D (portDistributor s) = (Some err, pd)"
      "res = Inl err" "session' = session"
      "s' = s\<lparr>portDistributor := pd, calls := calls s @ [Refresh_call (Some err)]\<rparr>"
  | (refreshed) pd where "Refresh D (portDistributor s) = (None, pd)"
      "start_loop D (s\<lparr>portDistributor := pd, calls := calls s @ [Refresh_call None]\<rparr>)
         session [] remotes acl = (res, s', session')"
  using assms unfolding StartSessionTunnels_def
  by (auto split: prod.splits option.splits)

lemma StartSessionTunnels_refreshed_calls:
  assumes "start_loop D (s\<lparr>portDistributor := pd, calls := calls s @ [Refresh_call None]\<rparr>)
         session [] remotes acl = (res, s', session')"
  shows "calls_since s s' = Refresh_call None
           # calls_since (s\<lparr>portDistributor := pd, calls := calls s @ [Refresh_call None]\<rparr>) s'"
proof -
  let ?s0 = "s\<lparr>portDistributor := pd, calls := calls s @ [Refresh_call None]\<rparr>"
  from start_loop_calls[OF assms] obtain C where C: "calls s' = calls ?s0 @ C" by auto
  have B: "calls ?s0 = calls s @ [Refresh_call None]" by simp
  from calls_since_trans[OF B C] show ?thesis by simp
qed

subsection \<open>\<^verbatim>\<open>StartSessionTunnels\<close>: the refresh\<close>

text \<open>C3. The first call that \<^verbatim>\<open>StartSessionTunnels\<close> makes is \<^verbatim>\<open>Refresh\<close> of the port
  distributor it was called with, and it makes no other: every later call of the batch is
  a port allocation or a tunnel start. When \<^verbatim>\<open>Refresh\<close> fails, the method returns its error
  and has made no other call: no port is allocated, no tunnel is started, the session, the
  remotes and the repository are as they were, and the port distributor is the one
  \<^verbatim>\<open>Refresh\<close> left. The port allocations of the batch are made on the refreshed
  distributor: they are the outcomes of \<^verbatim>\<open>GetRandomPort\<close> called as many times in a row
  starting from the distributor that \<^verbatim>\<open>Refresh\<close> produced, and the distributor at the end
  of the call is the one the last of them left.\<close>

theorem StartSessionTunnels_Refresh_once:
  assumes "StartSessionTunnels D s session remotes acl = (res, s', session')"
  shows "calls_since s s' = Refresh_call (fst (Refresh D (portDistributor s))) # tl (calls_since s s')
       \<and> (\<forall>x\<in>set (tl (calls_since s s')). is_GetRandomPort x \<or> is_StartTunnel x)
       \<and> (\<forall>err. fst (Refresh D (portDistributor s)) = Some err \<longrightarrow>
             res = Inl err \<and> tl (calls_since s s') = [] \<and> session' = session
             \<and> heap s' = heap s \<and> repo s' = repo s
             \<and> portDistributor s' = snd (Refresh D (portDistributor s)))
       \<and> draw D (snd (Refresh D (portDistributor s))) (length (allocations (calls_since s s')))
           = (allocations (calls_since s s'), portDistributor s')"
  using assms
proof (cases rule: StartSessionTunnels_cases)
  case (refresh_failed err pd)
  then show ?thesis by (simp add: calls_since_def)
next
  case (refreshed pd)
  from StartSessionTunnels_refreshed_calls[OF refreshed(2)] start_loop_log[OF refreshed(2)]
    start_loop_draw[OF refreshed(2)] refreshed(1)
  show ?thesis by simp
qed

lemma in_set_last_or_butlast:
  assumes "x \<in> set xs"
  shows "x \<in> set (butlast xs) \<or> (xs \<noteq> [] \<and> x = last xs)"
  using assms by (cases xs rule: rev_cases) auto

subsection \<open>\<^verbatim>\<open>StartSessionTunnels\<close>: the first failing tunnel ends the batch\<close>

text \<open>C1. When a tunnel start of the batch fails, the method returns the error of that
  start, and the failing start is the last call it makes: the tunnel starts made are those
  of the remotes up to the failing one, in the order of the list, and the outcome (result,
  world, log and session) is that of the batch cut after the failing remote, so no remote
  after it is attempted: no further port is allocated and no further tunnel is started.
  The method commits nothing itself: it makes no call to the repository and leaves it as
  it was, and it does not write to the session, which is what the tunnel starts of this
  call have made of it.\<close>

theorem StartSessionTunnels_fail_fast:
  assumes run: "StartSessionTunnels D s session remotes acl = (res, s', session')"
    and bad: "StartTunnel_call remote v acl' (Inl err) \<in> set (calls_since s s')"
  shows "res = Inl err
       \<and> last (calls_since s s') = StartTunnel_call remote v acl' (Inl err)
       \<and> map fst (tunnel_starts (calls_since s s'))
           = take (length (tunnel_starts (calls_since s s'))) remotes
       \<and> last (take (length (tunnel_starts (calls_since s s'))) remotes) = remote
       \<and> StartSessionTunnels D s session
             (take (length (tunnel_starts (calls_since s s'))) remotes) acl = (res, s', session')
       \<and> repo s' = repo s
       \<and> (\<forall>x\<in>set (calls_since s s'). \<not> is_Save x \<and> \<not> is_Delete x)
       \<and> session' = after_starts D acl session (tunnel_starts (calls_since s s'))"
  using run
proof (cases rule: StartSessionTunnels_cases)
  case (refresh_failed e pd)
  with bad show ?thesis by (simp add: calls_since_def)
next
  case (refreshed pd)
  let ?s0 = "s\<lparr>portDistributor := pd, calls := calls s @ [Refresh_call None]\<rparr>"
  let ?cs = "calls_since ?s0 s'"
  let ?bad = "StartTunnel_call remote v acl' (Inl err)"
  note loop = refreshed(2)
  have cs: "calls_since s s' = Refresh_call None # ?cs"
    by (rule StartSessionTunnels_refreshed_calls[OF loop])
  note log = start_loop_log[OF loop]
  from bad cs have "?bad \<in> set ?cs" by simp
  moreover from log have "?bad \<notin> set (butlast ?cs)" by auto
  ultimately have ne: "?cs \<noteq> []" and last: "last ?cs = ?bad"
    using in_set_last_or_butlast[of ?bad ?cs] by auto
  have res: "res = Inl err"
  proof (cases res)
    case (Inl e)
    with log last show ?thesis by simp
  next
    case (Inr ts')
    with log have "\<forall>x\<in>set ?cs. failed x = None" by blast
    with \<open>?bad \<in> set ?cs\<close> have "failed ?bad = None" by blast
    then show ?thesis by simp
  qed
  have starts: "tunnel_starts (calls_since s s') = tunnel_starts ?cs"
    using cs by simp
  note st = start_loop_starts[OF loop]
  from last have "is_StartTunnel (last ?cs)" by simp
  from start_loop_truncate[OF loop[unfolded res] this] refreshed(1) res
  have trunc: "StartSessionTunnels D s session (take (length (tunnel_starts ?cs)) remotes) acl
                 = (res, s', session')"
    by (simp add: StartSessionTunnels_def)
  obtain ys where ys: "?cs = ys @ [?bad]"
    using ne last by (metis append_butlast_last_id)
  have "map fst (tunnel_starts (ys @ [?bad])) = map fst (tunnel_starts ys) @ [remote]"
    by (simp add: tunnel_starts_append)
  with st ys have "take (length (tunnel_starts ?cs)) remotes = map fst (tunnel_starts ys) @ [remote]"
    by simp
  then have "last (take (length (tunnel_starts ?cs)) remotes) = remote"
    by simp
  moreover have "last (calls_since s s') = ?bad"
    using cs ne last by simp
  moreover have "\<forall>x\<in>set (calls_since s s'). \<not> is_Save x \<and> \<not> is_Delete x"
    using cs log by (auto simp: is_GetRandomPort_def is_StartTunnel_def)
  moreover have "repo s' = repo s"
    using start_loop_repo[OF loop] by simp
  moreover note res trunc
  moreover have "map fst (tunnel_starts ?cs) = take (length (tunnel_starts ?cs)) remotes"
    and "session' = after_starts D acl session (tunnel_starts ?cs)"
    using st by blast+
  ultimately show ?thesis
    unfolding starts by blast
qed

subsection \<open>\<^verbatim>\<open>StartSessionTunnels\<close>: the tunnels returned\<close>

text \<open>C5. When \<^verbatim>\<open>StartSessionTunnels\<close> returns tunnels, it returns as many as there are
  remotes; the tunnel starts it has made are one for each remote, in the order of the
  list, and the tunnel at each position is the one that the start for the remote at that
  position returned. Every call of the batch has succeeded.\<close>

theorem StartSessionTunnels_order:
  assumes "StartSessionTunnels D s session remotes acl = (Inr tunnels, s', session')"
  shows "length tunnels = length remotes
       \<and> map (\<lambda>x. (fst x, snd (snd x))) (tunnel_starts (calls_since s s'))
           = zip remotes (map Inr tunnels)
       \<and> (\<forall>x\<in>set (calls_since s s'). failed x = None)"
  using assms
proof (cases rule: StartSessionTunnels_cases)
  case (refresh_failed e pd)
  then show ?thesis by simp
next
  case (refreshed pd)
  note loop = refreshed(2)
  from StartSessionTunnels_refreshed_calls[OF loop] start_loop_starts[OF loop]
    start_loop_log[OF loop]
  show ?thesis by simp
qed

subsection \<open>The store of remotes\<close>

text \<open>The store of remotes after the loop: a remote is as it was, or it is a remote of
  the list that had no local endpoint and has one of the allocated ports.\<close>

lemma start_loop_heap:
  assumes "start_loop D s c ts rs acl = (res, s', c')"
  shows "heap s' p = heap s p
       \<or> (p \<in> set rs \<and> \<not> IsLocalSpecified D (heap s p)
           \<and> (\<exists>port. GetRandomPort_call (Inr port) \<in> set (calls_since s s')
                \<and> heap s' p = (heap s p)\<lparr>LocalPort := Itoa port, LocalHost := ''0.0.0.0''\<rparr>))"
  using assms
proof (induction rs arbitrary: s c ts)
  case Nil
  then show ?case by simp
next
  case (Cons r rs)
  from Cons.prems show ?case
  proof (cases rule: start_loop_Cons_cases)
    case (alloc_failed err s1)
    from alloc_failed(1) have "heap s1 = heap s"
      by (cases rule: assign_local_cases) simp_all
    with alloc_failed show ?thesis by simp
  next
    case (tunnel_failed s1 err c1)
    from tunnel_failed(1) show ?thesis
    proof (cases rule: assign_local_cases)
      case specified
      with tunnel_failed show ?thesis by simp
    next
      case (exhausted e pd)
      then show ?thesis by simp
    next
      case (assigned port pd)
      with tunnel_failed show ?thesis
        by (cases "p = r") (auto simp: calls_since_def)
    qed
  next
    case (continued s1 t c1)
    let ?st = "StartTunnel_call r (heap s1 r) acl (Inr t)"
    let ?s2 = "s1\<lparr>calls := calls s1 @ [?st]\<rparr>"
    from assign_local_log[OF continued(1)] obtain A where
      A: "calls s1 = calls s @ A"
      by auto
    from start_loop_calls[OF continued(3)] obtain C where C: "calls s' = calls ?s2 @ C"
      by auto
    have B: "calls ?s2 = calls s @ (A @ [?st])"
      using A by simp
    have eq: "calls_since s s' = (A @ [?st]) @ calls_since ?s2 s'"
      by (rule calls_since_trans[OF B C])
    have A_eq: "A = calls_since s s1"
      using A by (simp add: calls_since_def)
    note IH = Cons.IH[OF continued(3), simplified]
    from continued(1) show ?thesis
    proof (cases rule: assign_local_cases)
      case specified
      with IH eq show ?thesis by auto
    next
      case (exhausted e pd)
      then show ?thesis by simp
    next
      case (assigned port pd)
      then have hp: "GetRandomPort_call (Inr port) \<in> set (calls_since s s')"
        using eq A_eq by (simp add: calls_since_def)
      have h2: "heap ?s2 = (heap s)(r := (heap s r)\<lparr>LocalPort := Itoa port, LocalHost := ''0.0.0.0''\<rparr>)"
        using assigned by simp
      show ?thesis
      proof (cases "p = r")
        case True
        from IH show ?thesis
        proof
          assume "heap s' p = heap s1 p"
          with True h2 assigned hp show ?thesis by auto
        next
          assume "p \<in> set rs \<and> \<not> IsLocalSpecified D (heap s1 p)
            \<and> (\<exists>port. GetRandomPort_call (Inr port) \<in> set (calls_since ?s2 s')
                  \<and> heap s' p = (heap s1 p)\<lparr>LocalPort := Itoa port, LocalHost := ''0.0.0.0''\<rparr>)"
          then obtain port' where
            "GetRandomPort_call (Inr port') \<in> set (calls_since ?s2 s')"
            "heap s' p = (heap s1 p)\<lparr>LocalPort := Itoa port', LocalHost := ''0.0.0.0''\<rparr>"
            by blast
          with True h2 assigned(1) eq show ?thesis by auto
        qed
      next
        case False
        with h2 have same: "heap s1 p = heap s p" by simp
        from IH show ?thesis
        proof
          assume "heap s' p = heap s1 p"
          with same show ?thesis by simp
        next
          assume "p \<in> set rs \<and> \<not> IsLocalSpecified D (heap s1 p)
            \<and> (\<exists>port. GetRandomPort_call (Inr port) \<in> set (calls_since ?s2 s')
                  \<and> heap s' p = (heap s1 p)\<lparr>LocalPort := Itoa port, LocalHost := ''0.0.0.0''\<rparr>)"
          with same eq show ?thesis by auto
        qed
      qed
    qed
  qed
qed

text \<open>When the loop succeeds, every remote of the list that had no local endpoint has
  one of the allocated ports.\<close>

lemma start_loop_heap_written:
  assumes "start_loop D s c ts rs acl = (Inr ts', s', c')"
    and "p \<in> set rs" and "\<not> IsLocalSpecified D (heap s p)"
  shows "\<exists>port. GetRandomPort_call (Inr port) \<in> set (calls_since s s')
           \<and> heap s' p = (heap s p)\<lparr>LocalPort := Itoa port, LocalHost := ''0.0.0.0''\<rparr>"
  using assms
proof (induction rs arbitrary: s c ts)
  case Nil
  then show ?case by simp
next
  case (Cons r rs)
  from Cons.prems(1) show ?case
  proof (cases rule: start_loop_Cons_cases)
    case (alloc_failed err s1)
    then show ?thesis by simp
  next
    case (tunnel_failed s1 err c1)
    then show ?thesis by simp
  next
    case (continued s1 t c1)
    let ?st = "StartTunnel_call r (heap s1 r) acl (Inr t)"
    let ?s2 = "s1\<lparr>calls := calls s1 @ [?st]\<rparr>"
    from assign_local_log[OF continued(1)] obtain A where
      A: "calls s1 = calls s @ A"
      by auto
    from start_loop_calls[OF continued(3)] obtain C where C: "calls s' = calls ?s2 @ C"
      by auto
    have B: "calls ?s2 = calls s @ (A @ [?st])"
      using A by simp
    have eq: "calls_since s s' = (A @ [?st]) @ calls_since ?s2 s'"
      by (rule calls_since_trans[OF B C])
    have A_eq: "A = calls_since s s1"
      using A by (simp add: calls_since_def)
    note later = start_loop_heap[OF continued(3), of p, simplified]
    show ?thesis
    proof (cases "p = r")
      case True
      from continued(1) show ?thesis
      proof (cases rule: assign_local_cases)
        case specified
        with True Cons.prems(3) show ?thesis by simp
      next
        case (exhausted e pd)
        then show ?thesis by simp
      next
        case (assigned port pd)
        then have hp: "GetRandomPort_call (Inr port) \<in> set (calls_since s s')"
          using eq A_eq by (simp add: calls_since_def)
        have h2: "heap s1 p = (heap s p)\<lparr>LocalPort := Itoa port, LocalHost := ''0.0.0.0''\<rparr>"
          using assigned True by simp
        from later show ?thesis
        proof
          assume "heap s' p = heap s1 p"
          with h2 hp show ?thesis by auto
        next
          assume "p \<in> set rs \<and> \<not> IsLocalSpecified D (heap s1 p)
            \<and> (\<exists>port. GetRandomPort_call (Inr port) \<in> set (calls_since ?s2 s')
                  \<and> heap s' p = (heap s1 p)\<lparr>LocalPort := Itoa port, LocalHost := ''0.0.0.0''\<rparr>)"
          then obtain port' where
            "GetRandomPort_call (Inr port') \<in> set (calls_since ?s2 s')"
            "heap s' p = (heap s1 p)\<lparr>LocalPort := Itoa port', LocalHost := ''0.0.0.0''\<rparr>"
            by blast
          with h2 eq show ?thesis by auto
        qed
      qed
    next
      case False
      with Cons.prems(2) have in_rs: "p \<in> set rs" by simp
      from continued(1) False have same: "heap s1 p = heap s p"
        by (cases rule: assign_local_cases) simp_all
      with Cons.prems(3) have "\<not> IsLocalSpecified D (heap ?s2 p)" by simp
      from Cons.IH[OF continued(3) in_rs this] same eq show ?thesis by auto
    qed
  qed
qed

lemma StartSessionTunnels_heap:
  assumes "StartSessionTunnels D s session remotes acl = (res, s', session')"
  shows "heap s' p = heap s p
       \<or> (p \<in> set remotes \<and> \<not> IsLocalSpecified D (heap s p)
           \<and> (\<exists>port. GetRandomPort_call (Inr port) \<in> set (calls_since s s')
                \<and> heap s' p = (heap s p)\<lparr>LocalPort := Itoa port, LocalHost := ''0.0.0.0''\<rparr>))"
  using assms
proof (cases rule: StartSessionTunnels_cases)
  case (refresh_failed err pd)
  then show ?thesis by simp
next
  case (refreshed pd)
  from start_loop_heap[OF refreshed(2), of p] StartSessionTunnels_refreshed_calls[OF refreshed(2)]
  show ?thesis by auto
qed

lemma StartSessionTunnels_heap_written:
  assumes "StartSessionTunnels D s session remotes acl = (Inr tunnels, s', session')"
    and "p \<in> set remotes" and "\<not> IsLocalSpecified D (heap s p)"
  shows "\<exists>port. GetRandomPort_call (Inr port) \<in> set (calls_since s s')
           \<and> heap s' p = (heap s p)\<lparr>LocalPort := Itoa port, LocalHost := ''0.0.0.0''\<rparr>"
  using assms(1)
proof (cases rule: StartSessionTunnels_cases)
  case (refresh_failed err pd)
  then show ?thesis by simp
next
  case (refreshed pd)
  from start_loop_heap_written[OF refreshed(2) assms(2)] assms(3)
    StartSessionTunnels_refreshed_calls[OF refreshed(2)]
  show ?thesis by auto
qed

lemma StartSessionTunnels_draw:
  assumes "StartSessionTunnels D s session remotes acl = (res, s', session')"
  shows "draw D (snd (Refresh D (portDistributor s))) (length (allocations (calls_since s s')))
           = (allocations (calls_since s s'), portDistributor s')"
  using assms
proof (cases rule: StartSessionTunnels_cases)
  case (refresh_failed err pd)
  then show ?thesis by (simp add: calls_since_def)
next
  case (refreshed pd)
  from StartSessionTunnels_refreshed_calls[OF refreshed(2)] start_loop_draw[OF refreshed(2)]
    refreshed(1)
  show ?thesis by simp
qed

lemma allocations_mem: "GetRandomPort_call out \<in> set cs \<Longrightarrow> out \<in> set (allocations cs)"
  by (induction cs rule: allocations.induct) auto

subsection \<open>One remote of the batch\<close>

text \<open>A batch goes on from where the batch of its first remotes has arrived, and a batch
  that has failed is not continued.\<close>

lemma StartSessionTunnels_append:
  assumes "StartSessionTunnels D s session xs acl = (Inr ts1, s1, session1)"
  shows "StartSessionTunnels D s session (xs @ ys) acl = start_loop D s1 session1 ts1 ys acl"
  using assms
proof (cases rule: StartSessionTunnels_cases)
  case (refresh_failed err pd)
  then show ?thesis by simp
next
  case (refreshed pd)
  then show ?thesis
    by (simp add: StartSessionTunnels_def start_loop_append)
qed

lemma StartSessionTunnels_append_failed:
  assumes "StartSessionTunnels D s session xs acl = (Inl err, s1, session1)"
  shows "StartSessionTunnels D s session (xs @ ys) acl = (Inl err, s1, session1)"
  using assms
proof (cases rule: StartSessionTunnels_cases)
  case (refresh_failed e pd)
  then show ?thesis by (simp add: StartSessionTunnels_def)
next
  case (refreshed pd)
  then show ?thesis
    by (simp add: StartSessionTunnels_def start_loop_append)
qed

text \<open>The turn of one remote, in each of its three cases.\<close>

lemma turn_specified:
  assumes "IsLocalSpecified D (heap s1 remote)"
    and "start_loop D s1 c1 ts1 [remote] acl = (r2, s2, c2)"
  shows "calls s2 = calls s1 @ [StartTunnel_call remote (heap s1 remote) acl
                                  (fst (StartTunnel D c1 (heap s1 remote) acl))]"
    and "portDistributor s2 = portDistributor s1" and "heap s2 = heap s1"
    and "repo s2 = repo s1"
    and "c2 = snd (StartTunnel D c1 (heap s1 remote) acl)"
    and "r2 = (case fst (StartTunnel D c1 (heap s1 remote) acl) of
                 Inl err \<Rightarrow> Inl err | Inr t \<Rightarrow> Inr (ts1 @ [t]))"
  using assms
  by (auto simp: assign_local_def split: prod.splits sum.splits)

lemma turn_assigned:
  assumes "\<not> IsLocalSpecified D (heap s1 remote)"
    and "GetRandomPort D (portDistributor s1) = (Inr port, pd)"
    and "v = (heap s1 remote)\<lparr>LocalPort := Itoa port, LocalHost := ''0.0.0.0''\<rparr>"
    and "start_loop D s1 c1 ts1 [remote] acl = (r2, s2, c2)"
  shows "calls s2 = calls s1 @ [GetRandomPort_call (Inr port),
                                StartTunnel_call remote v acl (fst (StartTunnel D c1 v acl))]"
    and "portDistributor s2 = pd" and "heap s2 = (heap s1)(remote := v)"
    and "repo s2 = repo s1"
    and "c2 = snd (StartTunnel D c1 v acl)"
    and "r2 = (case fst (StartTunnel D c1 v acl) of
                 Inl err \<Rightarrow> Inl err | Inr t \<Rightarrow> Inr (ts1 @ [t]))"
  using assms
  by (auto simp: assign_local_def split: prod.splits sum.splits)

lemma turn_exhausted:
  assumes "\<not> IsLocalSpecified D (heap s1 remote)"
    and "GetRandomPort D (portDistributor s1) = (Inl err, pd)"
    and "start_loop D s1 c1 ts1 (remote # post) acl = (r2, s2, c2)"
  shows "calls s2 = calls s1 @ [GetRandomPort_call (Inl err)]"
    and "portDistributor s2 = pd" and "heap s2 = heap s1" and "repo s2 = repo s1"
    and "c2 = c1" and "r2 = Inl err"
  using assms
  by (auto simp: assign_local_def split: prod.splits sum.splits)

text \<open>The batch after the turn of a remote: it has ended there, or it goes on with the
  remotes that follow.\<close>

lemma after_turn:
  assumes full: "StartSessionTunnels D s session (pre @ remote # post) acl = (res, s', session')"
    and step: "StartSessionTunnels D s session (pre @ [remote]) acl = (r2, s2, session2)"
  shows "prefix (calls s2) (calls s')"
    and "remote \<notin> set post \<or> IsLocalSpecified D (heap s2 remote)
           \<Longrightarrow> heap s' remote = heap s2 remote"
    and "\<And>err. r2 = Inl err \<Longrightarrow> res = Inl err \<and> s' = s2 \<and> session' = session2"
proof -
  have split: "pre @ remote # post = (pre @ [remote]) @ post" by simp
  show a: "r2 = Inl err \<Longrightarrow> res = Inl err \<and> s' = s2 \<and> session' = session2" for err
    using StartSessionTunnels_append_failed[of D s session "pre @ [remote]" acl err s2 session2 post]
      full step unfolding split by simp
  have b: "start_loop D s2 session2 ts2 post acl = (res, s', session')" if "r2 = Inr ts2" for ts2
    using StartSessionTunnels_append[of D s session "pre @ [remote]" acl ts2 s2 session2 post]
      full step that unfolding split by simp
  show "prefix (calls s2) (calls s')"
  proof (cases r2)
    case (Inl err)
    with a show ?thesis by simp
  next
    case (Inr ts2)
    from start_loop_calls[OF b[OF Inr]] show ?thesis by (auto simp: prefix_def)
  qed
  show "heap s' remote = heap s2 remote"
    if "remote \<notin> set post \<or> IsLocalSpecified D (heap s2 remote)"
  proof (cases r2)
    case (Inl err)
    with a show ?thesis by simp
  next
    case (Inr ts2)
    from start_loop_heap[OF b[OF Inr], of remote] that show ?thesis by blast
  qed
qed

subsection \<open>\<^verbatim>\<open>StartSessionTunnels\<close>: the remotes of the caller\<close>

text \<open>C10. \<^verbatim>\<open>StartSessionTunnels\<close> writes into the remote objects it is given. Take a
  remote of the list, the state \<open>s1\<close> that the batch has reached when the remotes before it
  have been processed, and the state \<open>s2\<close> after the turn of the remote. If the remote
  specifies its local endpoint, no remote has changed in its turn. If it does not, and
  \<^verbatim>\<open>GetRandomPort\<close> on the port distributor of \<open>s1\<close> returns a port, then the object of the
  remote, and no other, has been written: its \<^verbatim>\<open>LocalPort\<close> is \<^verbatim>\<open>strconv.Itoa\<close> of that very
  port, a string that reads back in base ten as the port and consists of decimal digits
  when the port is not negative, its \<^verbatim>\<open>LocalHost\<close> is \<open>0.0.0.0\<close>, and its other fields are
  untouched; this holds whether or not the tunnel start that follows succeeds. If
  \<^verbatim>\<open>GetRandomPort\<close> fails, nothing has been written. What has been written stays: at the end
  of the call, whatever its result, the remote is as its turn left it, unless it occurs
  again later in the list without a local endpoint. A remote that specified its local
  endpoint when the method was called, and any remote that is not in the list, is after
  the call what it was before; a remote that has changed has the fields above, for a port
  allocated during the call; when the call succeeds, every remote of the list that did not
  specify a local endpoint has been written in this way. The ports allocated are those of
  \<^verbatim>\<open>GetRandomPort\<close> called in a row from the refreshed distributor.\<close>

theorem StartSessionTunnels_writes_back:
  assumes full: "StartSessionTunnels D s session (pre @ remote # post) acl = (res, s', session')"
    and pre: "StartSessionTunnels D s session pre acl = (Inr ts1, s1, session1)"
    and step: "StartSessionTunnels D s session (pre @ [remote]) acl = (r2, s2, session2)"
  shows "(IsLocalSpecified D (heap s1 remote) \<longrightarrow> heap s2 = heap s1)
       \<and> (\<forall>port pd. \<not> IsLocalSpecified D (heap s1 remote)
              \<and> GetRandomPort D (portDistributor s1) = (Inr port, pd) \<longrightarrow>
            heap s2 = (heap s1)(remote :=
                        (heap s1 remote)\<lparr>LocalPort := Itoa port, LocalHost := ''0.0.0.0''\<rparr>)
            \<and> LocalPort (heap s2 remote) = Itoa port
            \<and> read_int (LocalPort (heap s2 remote)) = port
            \<and> (0 \<le> port \<longrightarrow> set (LocalPort (heap s2 remote)) \<subseteq> set ''0123456789'')
            \<and> LocalHost (heap s2 remote) = ''0.0.0.0''
            \<and> RemoteHost (heap s2 remote) = RemoteHost (heap s1 remote)
            \<and> RemotePort (heap s2 remote) = RemotePort (heap s1 remote))
       \<and> (\<forall>err pd. \<not> IsLocalSpecified D (heap s1 remote)
              \<and> GetRandomPort D (portDistributor s1) = (Inl err, pd) \<longrightarrow> heap s2 = heap s1)
       \<and> (remote \<notin> set post \<or> IsLocalSpecified D (heap s2 remote) \<longrightarrow>
            heap s' remote = heap s2 remote)
       \<and> (IsLocalSpecified D (heap s remote) \<or> remote \<notin> set pre \<longrightarrow>
            heap s1 remote = heap s remote)
       \<and> (\<forall>p. IsLocalSpecified D (heap s p) \<or> p \<notin> set (pre @ remote # post) \<longrightarrow>
            heap s' p = heap s p)
       \<and> (\<forall>p. heap s' p \<noteq> heap s p \<longrightarrow>
            (\<exists>port. Inr port \<in> set (allocations (calls_since s s'))
               \<and> heap s' p = (heap s p)\<lparr>LocalPort := Itoa port, LocalHost := ''0.0.0.0''\<rparr>))
       \<and> (\<forall>tunnels p. res = Inr tunnels \<and> p \<in> set (pre @ remote # post)
              \<and> \<not> IsLocalSpecified D (heap s p) \<longrightarrow>
            (\<exists>port. Inr port \<in> set (allocations (calls_since s s'))
               \<and> heap s' p = (heap s p)\<lparr>LocalPort := Itoa port, LocalHost := ''0.0.0.0''\<rparr>))
       \<and> draw D (snd (Refresh D (portDistributor s))) (length (allocations (calls_since s s')))
           = (allocations (calls_since s s'), portDistributor s')"
proof -
  from StartSessionTunnels_append[OF pre, of "[remote]"] step
  have turn: "start_loop D s1 session1 ts1 [remote] acl = (r2, s2, session2)" by simp
  have 1: "heap s2 = heap s1" if "IsLocalSpecified D (heap s1 remote)"
    using turn_specified(3)[OF that turn] .
  have 2: "heap s2 = (heap s1)(remote :=
                        (heap s1 remote)\<lparr>LocalPort := Itoa port, LocalHost := ''0.0.0.0''\<rparr>)
            \<and> LocalPort (heap s2 remote) = Itoa port
            \<and> read_int (LocalPort (heap s2 remote)) = port
            \<and> (0 \<le> port \<longrightarrow> set (LocalPort (heap s2 remote)) \<subseteq> set ''0123456789'')
            \<and> LocalHost (heap s2 remote) = ''0.0.0.0''
            \<and> RemoteHost (heap s2 remote) = RemoteHost (heap s1 remote)
            \<and> RemotePort (heap s2 remote) = RemotePort (heap s1 remote)"
    if "\<not> IsLocalSpecified D (heap s1 remote)"
      "GetRandomPort D (portDistributor s1) = (Inr port, pd)" for port pd
    using turn_assigned(3)[OF that refl turn] Itoa_decimal(3)[of port]
    by (simp add: read_int_Itoa)
  have 3: "heap s2 = heap s1"
    if "\<not> IsLocalSpecified D (heap s1 remote)"
      "GetRandomPort D (portDistributor s1) = (Inl err, pd)" for err pd
    using turn_exhausted(3)[OF that turn] .
  note 4 = after_turn(2)[OF full step]
  have 5: "IsLocalSpecified D (heap s remote) \<or> remote \<notin> set pre \<longrightarrow> heap s1 remote = heap s remote"
    using StartSessionTunnels_heap[OF pre, of remote] by blast
  note in_log = allocations_mem
  note h = StartSessionTunnels_heap[OF full]
  have 6: "heap s' p = heap s p"
    if "IsLocalSpecified D (heap s p) \<or> p \<notin> set (pre @ remote # post)" for p
    using h[of p] that by blast
  have 7: "\<exists>port. Inr port \<in> set (allocations (calls_since s s'))
               \<and> heap s' p = (heap s p)\<lparr>LocalPort := Itoa port, LocalHost := ''0.0.0.0''\<rparr>"
    if "heap s' p \<noteq> heap s p" for p
    using h[of p] that in_log by blast
  have 8: "\<exists>port. Inr port \<in> set (allocations (calls_since s s'))
               \<and> heap s' p = (heap s p)\<lparr>LocalPort := Itoa port, LocalHost := ''0.0.0.0''\<rparr>"
    if "res = Inr tunnels" "p \<in> set (pre @ remote # post)" "\<not> IsLocalSpecified D (heap s p)"
    for tunnels p
    using StartSessionTunnels_heap_written[OF full[unfolded that(1)] that(2,3)] in_log by blast
  note 9 = StartSessionTunnels_draw[OF full]
  from 1 2 3 4 5 6 7 8 9 show ?thesis by blast
qed

subsection \<open>\<^verbatim>\<open>StartSessionTunnels\<close>: the local endpoint of each tunnel\<close>

text \<open>C4. Take a remote of the list, the state \<open>s1\<close> and the session that the batch has
  reached when the remotes before it have been processed, in the order given, and the
  state \<open>s2\<close> after the turn of the remote. If the remote specifies its local endpoint, the
  only call of its turn is the tunnel start for it, with the remote as it is: the
  allocator is not consulted, and the port distributor and all remotes are in \<open>s2\<close> what
  they were in \<open>s1\<close>. If it does not, the first call of its turn is \<^verbatim>\<open>GetRandomPort\<close> on the
  port distributor of \<open>s1\<close>. When that returns a port, the second and last call of the turn
  is the tunnel start for the remote with \<^verbatim>\<open>strconv.Itoa\<close> of that very port as local port,
  a string that reads back in base ten as the port, and \<open>0.0.0.0\<close> as local host; the port
  distributor of \<open>s2\<close> is the one \<^verbatim>\<open>GetRandomPort\<close> left. When it fails, the batch ends with
  its error and no tunnel is started for the remote. In the first two cases the session
  and the result of the turn are those of the tunnel start. The calls up to the end of the
  turn are the beginning of the calls of the whole batch. A remote that specified its
  local endpoint when the method was called, or that does not occur earlier in the list,
  is still as the caller passed it when its turn comes.\<close>

theorem StartSessionTunnels_local_endpoint:
  assumes full: "StartSessionTunnels D s session (pre @ remote # post) acl = (res, s', session')"
    and pre: "StartSessionTunnels D s session pre acl = (Inr ts1, s1, session1)"
    and step: "StartSessionTunnels D s session (pre @ [remote]) acl = (r2, s2, session2)"
  shows "(IsLocalSpecified D (heap s1 remote) \<longrightarrow>
            calls s2 = calls s1 @ [StartTunnel_call remote (heap s1 remote) acl
                                     (fst (StartTunnel D session1 (heap s1 remote) acl))]
            \<and> portDistributor s2 = portDistributor s1
            \<and> heap s2 = heap s1
            \<and> session2 = snd (StartTunnel D session1 (heap s1 remote) acl)
            \<and> r2 = (case fst (StartTunnel D session1 (heap s1 remote) acl) of
                      Inl err \<Rightarrow> Inl err | Inr t \<Rightarrow> Inr (ts1 @ [t])))
       \<and> (\<forall>port pd v. \<not> IsLocalSpecified D (heap s1 remote)
              \<and> GetRandomPort D (portDistributor s1) = (Inr port, pd)
              \<and> v = (heap s1 remote)\<lparr>LocalPort := Itoa port, LocalHost := ''0.0.0.0''\<rparr> \<longrightarrow>
            calls s2 = calls s1 @ [GetRandomPort_call (Inr port),
                                   StartTunnel_call remote v acl (fst (StartTunnel D session1 v acl))]
            \<and> LocalHost v = ''0.0.0.0''
            \<and> LocalPort v = Itoa port
            \<and> read_int (LocalPort v) = port
            \<and> portDistributor s2 = pd
            \<and> heap s2 = (heap s1)(remote := v)
            \<and> session2 = snd (StartTunnel D session1 v acl)
            \<and> r2 = (case fst (StartTunnel D session1 v acl) of
                      Inl err \<Rightarrow> Inl err | Inr t \<Rightarrow> Inr (ts1 @ [t])))
       \<and> (\<forall>err pd. \<not> IsLocalSpecified D (heap s1 remote)
              \<and> GetRandomPort D (portDistributor s1) = (Inl err, pd) \<longrightarrow>
            r2 = Inl err \<and> res = Inl err \<and> s' = s2 \<and> session' = session2
            \<and> calls s2 = calls s1 @ [GetRandomPort_call (Inl err)]
            \<and> portDistributor s2 = pd \<and> heap s2 = heap s1 \<and> session2 = session1)
       \<and> prefix (calls s2) (calls s')
       \<and> (IsLocalSpecified D (heap s remote) \<or> remote \<notin> set pre \<longrightarrow> heap s1 remote = heap s remote)"
proof -
  from StartSessionTunnels_append[OF pre, of "[remote]"] step
  have turn: "start_loop D s1 session1 ts1 [remote] acl = (r2, s2, session2)" by simp
  have 1: "calls s2 = calls s1 @ [StartTunnel_call remote (heap s1 remote) acl
                                     (fst (StartTunnel D session1 (heap s1 remote) acl))]
            \<and> portDistributor s2 = portDistributor s1
            \<and> heap s2 = heap s1
            \<and> session2 = snd (StartTunnel D session1 (heap s1 remote) acl)
            \<and> r2 = (case fst (StartTunnel D session1 (heap s1 remote) acl) of
                      Inl err \<Rightarrow> Inl err | Inr t \<Rightarrow> Inr (ts1 @ [t]))"
    if "IsLocalSpecified D (heap s1 remote)"
    using turn_specified[OF that turn] by blast
  have 2: "calls s2 = calls s1 @ [GetRandomPort_call (Inr port),
                                   StartTunnel_call remote v acl (fst (StartTunnel D session1 v acl))]
            \<and> LocalHost v = ''0.0.0.0''
            \<and> LocalPort v = Itoa port
            \<and> read_int (LocalPort v) = port
            \<and> portDistributor s2 = pd
            \<and> heap s2 = (heap s1)(remote := v)
            \<and> session2 = snd (StartTunnel D session1 v acl)
            \<and> r2 = (case fst (StartTunnel D session1 v acl) of
                      Inl err \<Rightarrow> Inl err | Inr t \<Rightarrow> Inr (ts1 @ [t]))"
    if "\<not> IsLocalSpecified D (heap s1 remote)"
      "GetRandomPort D (portDistributor s1) = (Inr port, pd)"
      "v = (heap s1 remote)\<lparr>LocalPort := Itoa port, LocalHost := ''0.0.0.0''\<rparr>" for port pd v
  proof -
    have "LocalHost v = ''0.0.0.0''" "LocalPort v = Itoa port" "read_int (LocalPort v) = port"
      using that(3) by (simp_all add: read_int_Itoa)
    with turn_assigned[OF that turn] show ?thesis by blast
  qed
  have 3: "r2 = Inl err \<and> res = Inl err \<and> s' = s2 \<and> session' = session2
            \<and> calls s2 = calls s1 @ [GetRandomPort_call (Inl err)]
            \<and> portDistributor s2 = pd \<and> heap s2 = heap s1 \<and> session2 = session1"
    if "\<not> IsLocalSpecified D (heap s1 remote)"
      "GetRandomPort D (portDistributor s1) = (Inl err, pd)" for err pd
  proof -
    note t = turn_exhausted[OF that turn]
    from after_turn(3)[OF full step t(6)] t show ?thesis by blast
  qed
  note 4 = after_turn(1)[OF full step]
  have 5: "IsLocalSpecified D (heap s remote) \<or> remote \<notin> set pre \<longrightarrow> heap s1 remote = heap s remote"
    using StartSessionTunnels_heap[OF pre, of remote] by blast
  from 1 2 3 4 5 show ?thesis by blast
qed

subsection \<open>What \<^verbatim>\<open>StartSessionTunnels\<close> leaves alone\<close>

lemma start_acls_append: "start_acls (xs @ ys) = start_acls xs @ start_acls ys"
  by (induction xs rule: start_acls.induct) simp_all

lemma start_acls_allocations:
  "tunnel_starts A = [] \<Longrightarrow> start_acls A = []"
  by (induction A rule: tunnel_starts.induct) simp_all

lemma start_loop_acls:
  assumes "start_loop D s c ts rs acl = (res, s', c')"
  shows "set (start_acls (calls_since s s')) \<subseteq> {acl}"
  using assms
proof (induction rs arbitrary: s c ts)
  case Nil
  then show ?case by (simp add: calls_since_def)
next
  case (Cons r rs)
  from Cons.prems show ?case
  proof (cases rule: start_loop_Cons_cases)
    case (alloc_failed err s1)
    from assign_local_log[OF alloc_failed(1)]
    have "calls s1 = calls s @ [GetRandomPort_call (Inl err)]" by auto
    with alloc_failed show ?thesis by (simp add: calls_since_def)
  next
    case (tunnel_failed s1 err c1)
    from assign_local_log[OF tunnel_failed(1)] obtain A where
      A: "calls s1 = calls s @ A" "tunnel_starts A = []"
      by auto
    have "calls_since s s' = A @ [StartTunnel_call r (heap s1 r) acl (Inl err)]"
      using tunnel_failed A by (simp add: calls_since_def)
    with A show ?thesis
      by (simp add: start_acls_append start_acls_allocations)
  next
    case (continued s1 t c1)
    let ?st = "StartTunnel_call r (heap s1 r) acl (Inr t)"
    let ?s2 = "s1\<lparr>calls := calls s1 @ [?st]\<rparr>"
    from assign_local_log[OF continued(1)] obtain A where
      A: "calls s1 = calls s @ A" "tunnel_starts A = []"
      by auto
    from start_loop_calls[OF continued(3)] obtain C where C: "calls s' = calls ?s2 @ C"
      by auto
    have B: "calls ?s2 = calls s @ (A @ [?st])"
      using A by simp
    have eq: "calls_since s s' = (A @ [?st]) @ calls_since ?s2 s'"
      by (rule calls_since_trans[OF B C])
    from Cons.IH[OF continued(3)] eq A show ?thesis
      by (simp add: start_acls_append start_acls_allocations)
  qed
qed

text \<open>What \<^verbatim>\<open>StartSessionTunnels\<close> leaves alone, and what its log is made of.\<close>

lemma StartSessionTunnels_frame:
  assumes "StartSessionTunnels D s session remotes acl = (res, s', session')"
  shows "repo s' = repo s
       \<and> (\<exists>cs. calls s' = calls s @ cs)
       \<and> (\<forall>x\<in>set (calls_since s s'). \<not> is_Save x \<and> \<not> is_Delete x)
       \<and> set (start_acls (calls_since s s')) \<subseteq> {acl}
       \<and> map fst (tunnel_starts (calls_since s s'))
           = take (length (tunnel_starts (calls_since s s'))) remotes
       \<and> session' = after_starts D acl session (tunnel_starts (calls_since s s'))
       \<and> (\<forall>ts. res = Inr ts \<longrightarrow> length (tunnel_starts (calls_since s s')) = length remotes)"
  using assms
proof (cases rule: StartSessionTunnels_cases)
  case (refresh_failed err pd)
  then show ?thesis by (simp add: calls_since_def after_starts_def)
next
  case (refreshed pd)
  note loop = refreshed(2)
  note cs = StartSessionTunnels_refreshed_calls[OF loop]
  from start_loop_calls[OF loop] have 1: "\<exists>cs. calls s' = calls s @ cs" by auto
  from start_loop_log[OF loop] cs
  have 2: "\<forall>x\<in>set (calls_since s s'). \<not> is_Save x \<and> \<not> is_Delete x"
    by (auto simp: is_GetRandomPort_def is_StartTunnel_def)
  from start_loop_acls[OF loop] cs have 3: "set (start_acls (calls_since s s')) \<subseteq> {acl}"
    by simp
  note st = start_loop_starts[OF loop]
  from st cs have 4: "map fst (tunnel_starts (calls_since s s'))
           = take (length (tunnel_starts (calls_since s s'))) remotes"
    and 5: "session' = after_starts D acl session (tunnel_starts (calls_since s s'))"
    by simp_all
  have 6: "length (tunnel_starts (calls_since s s')) = length remotes" if "res = Inr ts" for ts
  proof -
    from st that cs have "map (\<lambda>x. (fst x, snd (snd x))) (tunnel_starts (calls_since s s'))
                 = zip remotes (map Inr ts)" "length ts = length remotes"
      by simp_all
    then have "length (map (\<lambda>x. (fst x, snd (snd x))) (tunnel_starts (calls_since s s')))
                 = length remotes"
      by simp
    then show ?thesis by simp
  qed
  from start_loop_repo[OF loop] 1 2 3 4 5 6 show ?thesis by simp
qed

lemma StartClientSession_cases:
  assumes "StartClientSession D s ctx sid sshConn req user clog = (res, s')"
  obtains (tunnels_failed) err s1 c1 where
      "StartSessionTunnels D s (new_session ctx sid sshConn req user clog) (Remotes req) TunnelACL_zero
         = (Inl err, s1, c1)"
      "res = Inl err" "s' = s1"
  | (save_failed) ts s1 c1 err r where
      "StartSessionTunnels D s (new_session ctx sid sshConn req user clog) (Remotes req) TunnelACL_zero
         = (Inr ts, s1, c1)"
      "repo_Save D (repo s1) c1 = (Some err, r)" "res = Inl err"
      "s' = s1\<lparr>repo := r, calls := calls s1 @ [Save_call c1 (Some err)]\<rparr>"
  | (saved) ts s1 c1 r where
      "StartSessionTunnels D s (new_session ctx sid sshConn req user clog) (Remotes req) TunnelACL_zero
         = (Inr ts, s1, c1)"
      "repo_Save D (repo s1) c1 = (None, r)" "res = Inr c1"
      "s' = s1\<lparr>repo := r, calls := calls s1 @ [Save_call c1 None]\<rparr>"
  using assms unfolding StartClientSession_def Let_def
  by (auto split: prod.splits sum.splits option.splits)

lemma filter_is_Save_none:
  "\<forall>x\<in>set cs. \<not> is_Save x \<and> \<not> is_Delete x \<Longrightarrow> filter is_Save cs = []"
  by (induction cs) auto

subsection \<open>\<^verbatim>\<open>StartClientSession\<close>\<close>

text \<open>C2. \<^verbatim>\<open>StartClientSession\<close> starts the tunnels of the request on the session it has
  constructed. When that fails, the error is returned, the repository is as it was and no
  \<^verbatim>\<open>Save\<close> has been called. When it succeeds, the session is saved once: if \<^verbatim>\<open>Save\<close> fails,
  its error is returned, and that failed call is the only \<^verbatim>\<open>Save\<close> made; if \<^verbatim>\<open>Save\<close>
  succeeds, the saved session is returned, and the repository is the one \<^verbatim>\<open>Save\<close> has
  produced. So a session is returned only after a successful \<^verbatim>\<open>Save\<close> of it, and an error
  is returned only when no \<^verbatim>\<open>Save\<close> has succeeded. Nothing is deleted.\<close>

theorem StartClientSession_persists:
  assumes "StartClientSession D s ctx sid sshConn req user clog = (res, s')"
    and "StartSessionTunnels D s (new_session ctx sid sshConn req user clog) (Remotes req)
           TunnelACL_zero = (r1, s1, c1)"
  shows "(\<forall>err. r1 = Inl err \<longrightarrow>
            res = Inl err \<and> s' = s1 \<and> repo s' = repo s \<and> filter is_Save (calls_since s s') = [])
       \<and> (\<forall>ts err. r1 = Inr ts \<and> fst (repo_Save D (repo s) c1) = Some err \<longrightarrow>
            res = Inl err \<and> repo s' = snd (repo_Save D (repo s) c1)
            \<and> filter is_Save (calls_since s s') = [Save_call c1 (Some err)])
       \<and> (\<forall>ts. r1 = Inr ts \<and> fst (repo_Save D (repo s) c1) = None \<longrightarrow>
            res = Inr c1 \<and> repo s' = snd (repo_Save D (repo s) c1)
            \<and> filter is_Save (calls_since s s') = [Save_call c1 None])
       \<and> (\<forall>c. res = Inr c \<longrightarrow> Save_call c None \<in> set (calls_since s s'))
       \<and> (\<forall>err. res = Inl err \<longrightarrow> (\<forall>c. Save_call c None \<notin> set (calls_since s s')))
       \<and> (\<forall>x\<in>set (calls_since s s'). \<not> is_Delete x)"
proof -
  note fr = StartSessionTunnels_frame[OF assms(2)]
  from fr obtain cs where cs: "calls s1 = calls s @ cs" by blast
  then have cs_eq: "calls_since s s1 = cs" by (simp add: calls_since_def)
  with fr have none: "filter is_Save cs = []" "\<forall>x\<in>set cs. \<not> is_Save x \<and> \<not> is_Delete x"
    by (simp_all add: filter_is_Save_none)
  from fr have repo: "repo s1 = repo s" by simp
  from assms(1) show ?thesis
  proof (cases rule: StartClientSession_cases)
    case (tunnels_failed err s1' c1')
    with assms(2) have "r1 = Inl err" "s1' = s1" by simp_all
    with tunnels_failed cs_eq none repo show ?thesis by auto
  next
    case (save_failed ts s1' c1' err r)
    with assms(2) have "r1 = Inr ts" "s1' = s1" "c1' = c1" by simp_all
    moreover from this save_failed cs
    have "calls_since s s' = cs @ [Save_call c1 (Some err)]"
      by (simp add: calls_since_def)
    ultimately show ?thesis using save_failed none repo by auto
  next
    case (saved ts s1' c1' r)
    with assms(2) have "r1 = Inr ts" "s1' = s1" "c1' = c1" by simp_all
    moreover from this saved cs
    have "calls_since s s' = cs @ [Save_call c1 None]"
      by (simp add: calls_since_def)
    ultimately show ?thesis using saved none repo by auto
  qed
qed

lemma tunnel_starts_snoc_Save [simp]:
  "tunnel_starts (cs @ [Save_call c out]) = tunnel_starts cs"
  "start_acls (cs @ [Save_call c out]) = start_acls cs"
  by (simp_all add: tunnel_starts_append start_acls_append)

lemma after_starts_Tunnels_only:
  assumes "\<forall>c r a. snd (StartTunnel D c r a) = c\<lparr>Tunnels := Tunnels (snd (StartTunnel D c r a))\<rparr>"
  shows "after_starts D acl c xs = c\<lparr>Tunnels := Tunnels (after_starts D acl c xs)\<rparr>"
proof (induction xs arbitrary: c)
  case Nil
  show ?case by (simp add: after_starts_def)
next
  case (Cons x xs)
  let ?c1 = "snd (StartTunnel D c (fst (snd x)) acl)"
  from assms have c1: "?c1 = c\<lparr>Tunnels := Tunnels ?c1\<rparr>" by blast
  have "after_starts D acl c (x # xs) = after_starts D acl ?c1 xs"
    by (rule after_starts_Cons)
  also have "\<dots> = ?c1\<lparr>Tunnels := Tunnels (after_starts D acl ?c1 xs)\<rparr>"
    by (rule Cons.IH)
  also have "\<dots> = c\<lparr>Tunnels := Tunnels (after_starts D acl ?c1 xs)\<rparr>"
    by (subst c1) simp
  finally show ?case by (simp add: after_starts_Cons)
qed

lemma after_starts_Disconnected:
  assumes "\<forall>c r a. Disconnected (snd (StartTunnel D c r a)) = Disconnected c"
  shows "Disconnected (after_starts D acl c xs) = Disconnected c"
  using assms by (induction xs arbitrary: c) (simp_all add: after_starts_def)

text \<open>C9. The session that \<^verbatim>\<open>StartClientSession\<close> constructs has the identifier given, the
  name, tags, operating system, hostname, version and IPv4 and IPv6 addresses of the
  request, the remote address of the transport handle, the handle itself, the context, the
  user and the logger given, no tunnels and no disconnection timestamp. The calls the method
  makes begin with those of \<^verbatim>\<open>StartSessionTunnels\<close> on that session, the remotes of the
  request and the empty access-control list: every tunnel start is given the empty list, and
  the tunnel starts are those of the remotes of the request, in order. A session that is
  returned is the constructed session after the tunnel starts, one for each remote of the
  request; when \<^verbatim>\<open>StartTunnel\<close> changes nothing of a session but its tunnels, it is the
  constructed session with its tunnels.\<close>

theorem StartClientSession_constructs:
  assumes "StartClientSession D s ctx sid sshConn req user clog = (res, s')"
  shows "new_session ctx sid sshConn req user clog =
           \<lparr>ID = sid, Name = ConnectionRequest.Name req, Tags = ConnectionRequest.Tags req,
            OS = ConnectionRequest.OS req, Hostname = ConnectionRequest.Hostname req,
            Version = ConnectionRequest.Version req, IPv4 = ConnectionRequest.IPv4 req,
            IPv6 = ConnectionRequest.IPv6 req, Address = RemoteAddr sshConn, Tunnels = [],
            Connection = sshConn, Context = ctx, User = user, Logger = clog,
            Disconnected = None\<rparr>
       \<and> prefix (calls (fst (snd (StartSessionTunnels D s
                    (new_session ctx sid sshConn req user clog) (Remotes req) []))))
           (calls s')
       \<and> set (start_acls (calls_since s s')) \<subseteq> {[]}
       \<and> map fst (tunnel_starts (calls_since s s'))
           = take (length (tunnel_starts (calls_since s s'))) (Remotes req)
       \<and> (\<forall>c. res = Inr c \<longrightarrow>
             length (tunnel_starts (calls_since s s')) = length (Remotes req)
             \<and> c = after_starts D [] (new_session ctx sid sshConn req user clog)
                     (tunnel_starts (calls_since s s')))
       \<and> ((\<forall>c r a. snd (StartTunnel D c r a) = c\<lparr>Tunnels := Tunnels (snd (StartTunnel D c r a))\<rparr>)
            \<longrightarrow> (\<forall>c. res = Inr c \<longrightarrow>
                   c = (new_session ctx sid sshConn req user clog)\<lparr>Tunnels := Tunnels c\<rparr>))"
proof -
  let ?new = "new_session ctx sid sshConn req user clog"
  let ?T = "StartSessionTunnels D s ?new (Remotes req) TunnelACL_zero"
  have T: "?T = (fst ?T, fst (snd ?T), snd (snd ?T))" by simp
  note fr = StartSessionTunnels_frame[OF T]
  from fr obtain cs where cs: "calls (fst (snd ?T)) = calls s @ cs" by blast
  then have cs_eq: "calls_since s (fst (snd ?T)) = cs" by (simp add: calls_since_def)
  have z: "TunnelACL_zero = []" by (simp add: TunnelACL_zero_def)
  have obs: "prefix (calls (fst (snd ?T))) (calls s')
       \<and> set (start_acls (calls_since s s')) \<subseteq> {[]}
       \<and> map fst (tunnel_starts (calls_since s s'))
           = take (length (tunnel_starts (calls_since s s'))) (Remotes req)
       \<and> (\<forall>c. res = Inr c \<longrightarrow>
             length (tunnel_starts (calls_since s s')) = length (Remotes req)
             \<and> c = after_starts D [] ?new (tunnel_starts (calls_since s s')))"
    using assms
  proof (cases rule: StartClientSession_cases)
    case (tunnels_failed err s1 c1)
    with fr z show ?thesis by simp
  next
    case (save_failed ts s1 c1 err r)
    then have "calls_since s s' = calls_since s (fst (snd ?T)) @ [Save_call c1 (Some err)]"
      using cs by (simp add: calls_since_def)
    with save_failed fr z show ?thesis by (simp add: prefix_def)
  next
    case (saved ts s1 c1 r)
    then have "calls_since s s' = calls_since s (fst (snd ?T)) @ [Save_call c1 None]"
      using cs by (simp add: calls_since_def)
    with saved fr z show ?thesis by (simp add: prefix_def)
  qed
  have fields: "c = ?new\<lparr>Tunnels := Tunnels c\<rparr>"
    if "\<forall>c r a. snd (StartTunnel D c r a) = c\<lparr>Tunnels := Tunnels (snd (StartTunnel D c r a))\<rparr>"
      and "res = Inr c" for c
  proof -
    from obs that(2)
    have "c = after_starts D [] ?new (tunnel_starts (calls_since s s'))" by blast
    with after_starts_Tunnels_only[OF that(1), of "[]" ?new "tunnel_starts (calls_since s s')"]
    show ?thesis by simp
  qed
  have lit: "?new = \<lparr>ID = sid, Name = ConnectionRequest.Name req, Tags = ConnectionRequest.Tags req,
            OS = ConnectionRequest.OS req, Hostname = ConnectionRequest.Hostname req,
            Version = ConnectionRequest.Version req, IPv4 = ConnectionRequest.IPv4 req,
            IPv6 = ConnectionRequest.IPv6 req, Address = RemoteAddr sshConn, Tunnels = [],
            Connection = sshConn, Context = ctx, User = user, Logger = clog,
            Disconnected = None\<rparr>"
    by (simp add: new_session_def)
  from obs fields lit z show ?thesis by (simp only:) blast
qed

subsection \<open>The service does not read the repository when it starts tunnels\<close>

lemma assign_local_same:
  assumes "portDistributor w = portDistributor s" and "heap w = heap s"
  shows "fst (assign_local D w r) = fst (assign_local D s r)
       \<and> portDistributor (snd (assign_local D w r)) = portDistributor (snd (assign_local D s r))
       \<and> heap (snd (assign_local D w r)) = heap (snd (assign_local D s r))"
  using assms by (simp add: assign_local_def split: prod.splits sum.splits)

lemma start_loop_same:
  assumes "portDistributor w = portDistributor s" and "heap w = heap s"
  shows "fst (start_loop D w c ts rs acl) = fst (start_loop D s c ts rs acl)
       \<and> snd (snd (start_loop D w c ts rs acl)) = snd (snd (start_loop D s c ts rs acl))"
  using assms
proof (induction rs arbitrary: w s c ts)
  case Nil
  show ?case by simp
next
  case (Cons r rs)
  obtain o1 w1 where aw: "assign_local D w r = (o1, w1)" by (cases "assign_local D w r")
  obtain o2 s1 where as: "assign_local D s r = (o2, s1)" by (cases "assign_local D s r")
  from assign_local_same[OF Cons.prems, of D r] aw as
  have same: "o1 = o2" "portDistributor w1 = portDistributor s1" "heap w1 = heap s1"
    by simp_all
  show ?case
  proof (cases o2)
    case (Some err)
    with aw as same show ?thesis by simp
  next
    case None
    obtain out c1 where st: "StartTunnel D c (heap s1 r) acl = (out, c1)"
      by (cases "StartTunnel D c (heap s1 r) acl")
    show ?thesis
    proof (cases out)
      case (Inl err)
      with None aw as same st show ?thesis by simp
    next
      case (Inr t)
      let ?call = "StartTunnel_call r (heap s1 r) acl (Inr t)"
      have "portDistributor (w1\<lparr>calls := calls w1 @ [?call]\<rparr>)
              = portDistributor (s1\<lparr>calls := calls s1 @ [?call]\<rparr>)"
        and "heap (w1\<lparr>calls := calls w1 @ [?call]\<rparr>) = heap (s1\<lparr>calls := calls s1 @ [?call]\<rparr>)"
        using same by simp_all
      from Cons.IH[OF this, of c1 "ts @ [t]"] None aw as same st Inr
      show ?thesis by simp
    qed
  qed
qed

lemma StartSessionTunnels_same:
  assumes "portDistributor w = portDistributor s" and "heap w = heap s"
  shows "fst (StartSessionTunnels D w c rs acl) = fst (StartSessionTunnels D s c rs acl)
       \<and> snd (snd (StartSessionTunnels D w c rs acl)) = snd (snd (StartSessionTunnels D s c rs acl))"
proof (cases "Refresh D (portDistributor s)")
  case (Pair out pd)
  show ?thesis
  proof (cases out)
    case (Some err)
    with Pair assms show ?thesis by (simp add: StartSessionTunnels_def)
  next
    case None
    have "portDistributor (w\<lparr>portDistributor := pd, calls := calls w @ [Refresh_call None]\<rparr>)
            = portDistributor (s\<lparr>portDistributor := pd, calls := calls s @ [Refresh_call None]\<rparr>)"
      and "heap (w\<lparr>portDistributor := pd, calls := calls w @ [Refresh_call None]\<rparr>)
            = heap (s\<lparr>portDistributor := pd, calls := calls s @ [Refresh_call None]\<rparr>)"
      using assms by simp_all
    from start_loop_same[OF this, of D c "[]" rs acl] Pair None assms
    show ?thesis by (simp add: StartSessionTunnels_def)
  qed
qed

subsection \<open>The history of a session\<close>

lemma history_length [simp]: "length (history D c xs) = Suc (length xs)"
  by (induction xs arbitrary: c) simp_all

lemma history_not_Nil [simp]: "history D c xs \<noteq> []"
  by (cases xs) simp_all

lemma history_snoc:
  "history D c (xs @ [x]) = history D c xs @ [apply_call D (last (history D c xs)) x]"
  by (induction xs arbitrary: c) simp_all

lemma apply_call_keeps_set:
  assumes "\<forall>c r a. Disconnected (snd (StartTunnel D c r a)) = Disconnected c"
    and "Disconnected c \<noteq> None"
  shows "Disconnected (apply_call D c x) \<noteq> None"
proof (cases x)
  case (Start_tunnels s remotes acl)
  let ?T = "StartSessionTunnels D s c remotes acl"
  have "?T = (fst ?T, fst (snd ?T), snd (snd ?T))" by simp
  from StartSessionTunnels_frame[OF this]
  have "snd (snd ?T) = after_starts D acl c (tunnel_starts (calls_since s (fst (snd ?T))))"
    by simp
  with assms Start_tunnels show ?thesis
    by (simp add: after_starts_Disconnected)
next
  case (Terminate_at s t)
  with assms(2) show ?thesis
    by (simp add: Terminate_def Let_def split: prod.splits)
qed

lemma apply_call_live:
  assumes "\<forall>c r a. Disconnected (snd (StartTunnel D c r a)) = Disconnected c"
    and "\<not> is_Terminate_at x"
  shows "Disconnected (apply_call D c x) = Disconnected c"
proof (cases x)
  case (Start_tunnels s remotes acl)
  let ?T = "StartSessionTunnels D s c remotes acl"
  have "?T = (fst ?T, fst (snd ?T), snd (snd ?T))" by simp
  from StartSessionTunnels_frame[OF this]
  have "snd (snd ?T) = after_starts D acl c (tunnel_starts (calls_since s (fst (snd ?T))))"
    by simp
  with assms Start_tunnels show ?thesis
    by (simp add: after_starts_Disconnected)
next
  case (Terminate_at s t)
  with assms(2) show ?thesis by simp
qed

lemma history_live:
  assumes "\<forall>c r a. Disconnected (snd (StartTunnel D c r a)) = Disconnected c"
    and "\<forall>x\<in>set xs. \<not> is_Terminate_at x"
  shows "map Disconnected (history D c xs) = replicate (Suc (length xs)) (Disconnected c)"
  using assms(2)
proof (induction xs arbitrary: c)
  case Nil
  show ?case by simp
next
  case (Cons x xs)
  then have "Disconnected (apply_call D c x) = Disconnected c"
    using apply_call_live[OF assms(1)] by simp
  with Cons show ?case by simp
qed

lemma history_keeps_set:
  assumes "\<forall>c r a. Disconnected (snd (StartTunnel D c r a)) = Disconnected c"
    and "Disconnected c \<noteq> None"
  shows "\<forall>y\<in>set (history D c xs). Disconnected y \<noteq> None"
  using assms(2)
proof (induction xs arbitrary: c)
  case Nil
  then show ?case by simp
next
  case (Cons x xs)
  from apply_call_keeps_set[OF assms(1) Cons.prems]
  have "Disconnected (apply_call D c x) \<noteq> None" .
  from Cons.IH[OF this] Cons.prems show ?case by simp
qed

lemma history_drop:
  "i \<le> length xs \<Longrightarrow> drop i (history D c xs) = history D (history D c xs ! i) (drop i xs)"
proof (induction xs arbitrary: c i)
  case Nil
  then show ?case by simp
next
  case (Cons x xs)
  show ?case
  proof (cases i)
    case 0
    then show ?thesis by simp
  next
    case (Suc k)
    with Cons.prems have "k \<le> length xs" by simp
    from Cons.IH[OF this] Suc show ?thesis by simp
  qed
qed

lemma history_one_way:
  assumes "\<forall>c r a. Disconnected (snd (StartTunnel D c r a)) = Disconnected c"
    and "i \<le> j" and "j < length (history D c xs)"
    and "Disconnected (history D c xs ! i) \<noteq> None"
  shows "Disconnected (history D c xs ! j) \<noteq> None"
proof -
  from assms(2,3) have i: "i \<le> length xs" by simp
  let ?rest = "history D (history D c xs ! i) (drop i xs)"
  from history_drop[OF i] have d: "drop i (history D c xs) = ?rest" .
  from assms(2,3) have "history D c xs ! j = drop i (history D c xs) ! (j - i)"
    by simp
  moreover from assms(2,3) have "j - i < length (drop i (history D c xs))"
    by simp
  ultimately have "history D c xs ! j \<in> set ?rest"
    unfolding d by (metis nth_mem)
  with history_keeps_set[OF assms(1,4), of "drop i xs"] show ?thesis by blast
qed

subsection \<open>The disconnection timestamp\<close>

text \<open>C7. Let \<^verbatim>\<open>StartTunnel\<close> leave the disconnection timestamp of a session as it is, and
  take a session that \<^verbatim>\<open>StartClientSession\<close> has returned. It has no disconnection
  timestamp. It is built from the request alone: it is the constructed session after the
  tunnel starts of the call, the record saved is this session, and a call in a world with
  the same port distributor and remotes but any other repository, one that retains a lost
  session under the same identifier included, returns and saves the same new session; the
  service does not read a retained record, let alone revive it. Follow the session
  through the operations that its owner applies to it, \<^verbatim>\<open>StartSessionTunnels\<close> any number
  of times while the transport is live and then \<^verbatim>\<open>Terminate\<close> once, as the caller is
  required to: the timestamp is absent in every state before \<^verbatim>\<open>Terminate\<close>; if lost
  clients are kept, \<^verbatim>\<open>Terminate\<close> sets it, this one time, to the clock reading in UTC; if
  they are not, the session is deleted and the timestamp stays absent. For every session
  and every sequence of operations, \<^verbatim>\<open>Terminate\<close> repeated included, a timestamp that is
  set in one state is set in every later state: no operation of the service clears it.\<close>

theorem Disconnected_lifecycle:
  assumes frame: "\<forall>c r a. Disconnected (snd (StartTunnel D c r a)) = Disconnected c"
    and created: "StartClientSession D s0 ctx sid sshConn req user clog = (Inr created, s1)"
  shows "Disconnected created = None
       \<and> created = after_starts D [] (new_session ctx sid sshConn req user clog)
                     (tunnel_starts (calls_since s0 s1))
       \<and> repo s1 = snd (repo_Save D (repo s0) created)
       \<and> last (calls s1) = Save_call created None
       \<and> (\<forall>w again w1. portDistributor w = portDistributor s0 \<and> heap w = heap s0
              \<and> StartClientSession D w ctx sid sshConn req user clog = (Inr again, w1) \<longrightarrow>
            again = created \<and> repo w1 = snd (repo_Save D (repo w) created)
            \<and> last (calls w1) = Save_call created None)
       \<and> (\<forall>xs. (\<forall>x\<in>set xs. \<not> is_Terminate_at x) \<longrightarrow>
            map Disconnected (history D created xs) = replicate (Suc (length xs)) None)
       \<and> (\<forall>xs s time_Now. (\<forall>x\<in>set xs. \<not> is_Terminate_at x) \<and> KeepLostClients (repo s) \<noteq> None \<longrightarrow>
            map Disconnected (history D created (xs @ [Terminate_at s time_Now]))
              = replicate (Suc (length xs)) None @ [Some (Time_UTC time_Now)]
            \<and> unix_nanos (Time_UTC time_Now) = unix_nanos time_Now
            \<and> location (Time_UTC time_Now) = UTC)
       \<and> (\<forall>xs s time_Now. (\<forall>x\<in>set xs. \<not> is_Terminate_at x) \<and> KeepLostClients (repo s) = None \<longrightarrow>
            map Disconnected (history D created (xs @ [Terminate_at s time_Now]))
              = replicate (Suc (Suc (length xs))) None)
       \<and> (\<forall>c xs i j. i \<le> j \<and> j < length (history D c xs)
              \<and> Disconnected (history D c xs ! i) \<noteq> None \<longrightarrow>
            Disconnected (history D c xs ! j) \<noteq> None)"
proof -
  let ?new = "new_session ctx sid sshConn req user clog"
  from created obtain ts sT where
    inner: "StartSessionTunnels D s0 ?new (Remotes req) TunnelACL_zero = (Inr ts, sT, created)"
    and s1: "calls s1 = calls sT @ [Save_call created None]"
    and r1: "repo s1 = snd (repo_Save D (repo sT) created)"
    by (cases rule: StartClientSession_cases) auto
  note fr = StartSessionTunnels_frame[OF inner]
  from fr obtain cs where cs: "calls sT = calls s0 @ cs" by blast
  have "calls_since s0 s1 = calls_since s0 sT @ [Save_call created None]"
    using s1 cs by (simp add: calls_since_def)
  with fr have 2: "created = after_starts D [] ?new (tunnel_starts (calls_since s0 s1))"
    by (simp add: TunnelACL_zero_def)
  then have 1: "Disconnected created = None"
    using after_starts_Disconnected[OF frame] by (simp add: new_session_def)
  from fr r1 have saved: "repo s1 = snd (repo_Save D (repo s0) created)" by simp
  from s1 have logged: "last (calls s1) = Save_call created None" by simp
  have 3: "again = created \<and> repo w1 = snd (repo_Save D (repo w) created)
            \<and> last (calls w1) = Save_call created None"
    if "portDistributor w = portDistributor s0" "heap w = heap s0"
      "StartClientSession D w ctx sid sshConn req user clog = (Inr again, w1)" for w again w1
  proof -
    from that(3) obtain ts' wT where
      run: "StartSessionTunnels D w ?new (Remotes req) TunnelACL_zero = (Inr ts', wT, again)"
      and w1: "calls w1 = calls wT @ [Save_call again None]"
      and rw: "repo w1 = snd (repo_Save D (repo wT) again)"
      by (cases rule: StartClientSession_cases) auto
    from run StartSessionTunnels_same[OF that(1,2), of D ?new "Remotes req" TunnelACL_zero] inner
    have eq: "again = created" by simp
    from StartSessionTunnels_frame[OF run] have "repo wT = repo w" by simp
    with rw w1 eq show ?thesis by simp
  qed
  have 4: "map Disconnected (history D created xs) = replicate (Suc (length xs)) None"
    if "\<forall>x\<in>set xs. \<not> is_Terminate_at x" for xs
    using history_live[OF frame that, of created] 1 by simp
  have last_live: "Disconnected (last (history D created xs)) = None"
    if "\<forall>x\<in>set xs. \<not> is_Terminate_at x" for xs
  proof -
    have "set (map Disconnected (history D created xs)) \<subseteq> {None}"
      unfolding 4[OF that] by (auto simp: set_replicate_conv_if)
    moreover have "last (history D created xs) \<in> set (history D created xs)"
      by (rule last_in_set) simp
    ultimately show ?thesis by (simp only: set_map) blast
  qed
  have 5: "map Disconnected (history D created (xs @ [Terminate_at s time_Now]))
              = replicate (Suc (length xs)) None @ [Some (Time_UTC time_Now)]
            \<and> unix_nanos (Time_UTC time_Now) = unix_nanos time_Now
            \<and> location (Time_UTC time_Now) = UTC"
    if "\<forall>x\<in>set xs. \<not> is_Terminate_at x" "KeepLostClients (repo s) \<noteq> None" for xs s time_Now
  proof -
    from that(2) obtain d where d: "KeepLostClients (repo s) = Some d" by auto
    have "Disconnected (apply_call D (last (history D created xs)) (Terminate_at s time_Now))
            = Some (Time_UTC time_Now)"
      by (simp add: Terminate_def Let_def d split: prod.splits)
    with 4[OF that(1)] show ?thesis by (simp add: history_snoc Time_UTC_def)
  qed
  have 6: "map Disconnected (history D created (xs @ [Terminate_at s time_Now]))
              = replicate (Suc (Suc (length xs))) None"
    if "\<forall>x\<in>set xs. \<not> is_Terminate_at x" "KeepLostClients (repo s) = None" for xs s time_Now
  proof -
    have "Disconnected (apply_call D (last (history D created xs)) (Terminate_at s time_Now)) = None"
      using last_live[OF that(1)] that(2) by (simp add: Terminate_def split: prod.splits)
    with 4[OF that(1)] show ?thesis by (simp add: history_snoc replicate_append_same)
  qed
  have 7: "Disconnected (history D c xs ! j) \<noteq> None"
    if "i \<le> j" "j < length (history D c xs)" "Disconnected (history D c xs ! i) \<noteq> None"
    for c xs i j
    using history_one_way[OF frame that] .
  from 1 2 saved logged 3 4 5 6 7 show ?thesis by blast
qed

subsection \<open>The log is not read\<close>

lemma assign_local_log_free:
  "assign_local D (s\<lparr>calls := l\<rparr>) r =
     (case assign_local D s r of (out, s1) \<Rightarrow> (out, s1\<lparr>calls := l @ calls_since s s1\<rparr>))"
  by (simp add: assign_local_def calls_since_def split: prod.splits sum.splits)

lemma start_loop_log_free:
  "start_loop D (s\<lparr>calls := l\<rparr>) c ts rs acl =
     (case start_loop D s c ts rs acl of
        (res, s', c') \<Rightarrow> (res, s'\<lparr>calls := l @ calls_since s s'\<rparr>, c'))"
proof (induction rs arbitrary: s c ts l)
  case Nil
  show ?case by (simp add: calls_since_def)
next
  case (Cons r rs)
  obtain out s1 where a: "assign_local D s r = (out, s1)"
    by (cases "assign_local D s r")
  from assign_local_log[OF a] obtain A where A: "calls s1 = calls s @ A" by blast
  then have A_eq: "calls_since s s1 = A" by (simp add: calls_since_def)
  have a': "assign_local D (s\<lparr>calls := l\<rparr>) r = (out, s1\<lparr>calls := l @ A\<rparr>)"
    by (simp add: assign_local_log_free a A_eq)
  show ?case
  proof (cases out)
    case (Some err)
    with a a' A_eq show ?thesis by simp
  next
    case None
    obtain o2 c1 where st: "StartTunnel D c (heap s1 r) acl = (o2, c1)"
      by (cases "StartTunnel D c (heap s1 r) acl")
    show ?thesis
    proof (cases o2)
      case (Inl err)
      with None a a' st A show ?thesis by (simp add: calls_since_def)
    next
      case (Inr t)
      let ?st = "StartTunnel_call r (heap s1 r) acl (Inr t)"
      let ?s2 = "s1\<lparr>calls := calls s1 @ [?st]\<rparr>"
      obtain res s' c' where run: "start_loop D ?s2 c1 (ts @ [t]) rs acl = (res, s', c')"
        by (cases "start_loop D ?s2 c1 (ts @ [t]) rs acl")
      from start_loop_calls[OF run] obtain C where C: "calls s' = calls ?s2 @ C" by auto
      have B: "calls ?s2 = calls s @ (A @ [?st])" using A by simp
      have eq: "calls_since s s' = (A @ [?st]) @ calls_since ?s2 s'"
        by (rule calls_since_trans[OF B C])
      have "start_loop D (?s2\<lparr>calls := l @ A @ [?st]\<rparr>) c1 (ts @ [t]) rs acl
              = (res, s'\<lparr>calls := (l @ A @ [?st]) @ calls_since ?s2 s'\<rparr>, c')"
        by (simp only: Cons.IH[where s = ?s2 and l = "l @ A @ [?st]" and c = c1 and ts = "ts @ [t]"] run prod.case)
      moreover have "start_loop D (s\<lparr>calls := l\<rparr>) c ts (r # rs) acl
              = start_loop D (?s2\<lparr>calls := l @ A @ [?st]\<rparr>) c1 (ts @ [t]) rs acl"
        using None a' st Inr by simp
      moreover have "start_loop D s c ts (r # rs) acl = (res, s', c')"
        using None a st Inr run by simp
      ultimately show ?thesis using eq by simp
    qed
  qed
qed

text \<open>The log is written and never read: started with another log, a method returns the
  same result and the same session, and the same world but for the log, to which it has
  added the same calls.\<close>

lemma StartSessionTunnels_log_free:
  "StartSessionTunnels D (s\<lparr>calls := l\<rparr>) session remotes acl =
     (case StartSessionTunnels D s session remotes acl of
        (res, s', session') \<Rightarrow> (res, s'\<lparr>calls := l @ calls_since s s'\<rparr>, session'))"
proof (cases "Refresh D (portDistributor s)")
  case (Pair out pd)
  show ?thesis
  proof (cases out)
    case (Some err)
    with Pair show ?thesis by (simp add: StartSessionTunnels_def calls_since_def)
  next
    case None
    let ?s0 = "s\<lparr>portDistributor := pd, calls := calls s @ [Refresh_call None]\<rparr>"
    obtain res s' c' where run: "start_loop D ?s0 session [] remotes acl = (res, s', c')"
      by (cases "start_loop D ?s0 session [] remotes acl")
    note cs = StartSessionTunnels_refreshed_calls[OF run]
    have "start_loop D (?s0\<lparr>calls := l @ [Refresh_call None]\<rparr>) session [] remotes acl
            = (res, s'\<lparr>calls := (l @ [Refresh_call None]) @ calls_since ?s0 s'\<rparr>, c')"
      by (simp only: start_loop_log_free[where s = ?s0 and l = "l @ [Refresh_call None]"] run prod.case)
    with Pair None run cs show ?thesis
      by (simp add: StartSessionTunnels_def)
  qed
qed

lemma Terminate_log_free:
  "Terminate D time_Now (s\<lparr>calls := l\<rparr>) session =
     (case Terminate D time_Now s session of
        (err, s', session') \<Rightarrow> (err, s'\<lparr>calls := l @ calls_since s s'\<rparr>, session'))"
  by (simp add: Terminate_def Let_def calls_since_def split: prod.splits)

section \<open>The concrete runs\<close>

text \<open>The service on the inputs of the section on concrete inputs, with the collaborators
  of the specification: what the runs return, and the theorems above at these runs.\<close>

lemmas spec_defs = spec_collab_def spec_Refresh_def spec_GetRandomPort_def
  spec_IsLocalSpecified_def spec_StartTunnel_def well_formed_port_def same_local_def
  spec_Save_def spec_Delete_def

lemmas input_defs = world0_def world_of_def pool0_def repo0_def repo_down_def repo_lost_def heap0_def
  auto_remote_def fixed_remote_def assigned_remote_def tunnel_of_def session0_def conn0_def
  request0_def

lemmas run_defs = StartSessionTunnels_def assign_local_def Itoa_def formatBits.simps digit_def
  Let_def

lemma new_session0: "new_session 1 ''s1'' conn0 (request0 rs) 2 3 = session0"
  by (simp add: new_session_def session0_def request0_def conn0_def)

lemma run_ok:
  assumes "StartSessionTunnels spec_collab (world_of pool0 R) session0 [1, 2, 3] [] = (r, w, c)"
  shows "r = Inr [tunnel_of (assigned_remote ''20000''), tunnel_of (fixed_remote ''22''),
                  tunnel_of (assigned_remote ''20002'')]"
    and "calls w = [Refresh_call None, GetRandomPort_call (Inr 20000),
           StartTunnel_call 1 (assigned_remote ''20000'') []
             (Inr (tunnel_of (assigned_remote ''20000''))),
           StartTunnel_call 2 (fixed_remote ''22'') [] (Inr (tunnel_of (fixed_remote ''22''))),
           GetRandomPort_call (Inr 20002),
           StartTunnel_call 3 (assigned_remote ''20002'') []
             (Inr (tunnel_of (assigned_remote ''20002'')))]"
    and "heap w 1 = assigned_remote ''20000''"
    and "heap w 2 = fixed_remote ''22''"
    and "heap w 3 = assigned_remote ''20002''"
    and "c = session0\<lparr>Tunnels := [tunnel_of (assigned_remote ''20000''),
             tunnel_of (fixed_remote ''22''), tunnel_of (assigned_remote ''20002'')]\<rparr>"
    and "repo w = R"
  using assms by (auto simp: spec_defs input_defs run_defs)

lemma run_dup:
  assumes "StartSessionTunnels spec_collab (world_of pool0 R) session0 [2, 4, 3] [] = (r, w, c)"
  shows "r = Inl DuplicateBinding"
    and "calls w = [Refresh_call None,
           StartTunnel_call 2 (fixed_remote ''22'') [] (Inr (tunnel_of (fixed_remote ''22''))),
           StartTunnel_call 4 (fixed_remote ''443'') [] (Inl DuplicateBinding)]"
    and "c = session0\<lparr>Tunnels := [tunnel_of (fixed_remote ''22'')]\<rparr>"
    and "repo w = R"
  using assms by (auto simp: spec_defs input_defs run_defs)

lemma run_none:
  assumes "StartSessionTunnels spec_collab (world_of pool R) session0 [] [] = (r, w, c)"
    and "occupied pool = Some occ"
  shows "r = Inr []" and "calls w = [Refresh_call None]" and "heap w = heap0"
    and "portDistributor w = pool\<lparr>in_use := occ\<rparr>" and "c = session0"
  using assms by (auto simp: spec_defs input_defs run_defs)

lemma run_one:
  assumes "StartSessionTunnels spec_collab (world_of pool0 R) session0 [1] [] = (r, w, c)"
  shows "r = Inr [tunnel_of (assigned_remote ''20000'')]"
    and "calls w = [Refresh_call None, GetRandomPort_call (Inr 20000),
           StartTunnel_call 1 (assigned_remote ''20000'') []
             (Inr (tunnel_of (assigned_remote ''20000'')))]"
    and "heap w 2 = fixed_remote ''22''"
    and "c = session0\<lparr>Tunnels := [tunnel_of (assigned_remote ''20000'')]\<rparr>"
  using assms by (auto simp: spec_defs input_defs run_defs)

lemma run_two:
  assumes "StartSessionTunnels spec_collab (world_of pool0 R) session0 [1, 2] [] = (r, w, c)"
  shows "r = Inr [tunnel_of (assigned_remote ''20000''), tunnel_of (fixed_remote ''22'')]"
    and "calls w = [Refresh_call None, GetRandomPort_call (Inr 20000),
           StartTunnel_call 1 (assigned_remote ''20000'') []
             (Inr (tunnel_of (assigned_remote ''20000''))),
           StartTunnel_call 2 (fixed_remote ''22'') [] (Inr (tunnel_of (fixed_remote ''22'')))]"
    and "heap w 3 = auto_remote ''3389''"
    and "portDistributor w = pool0\<lparr>in_use := [20000, 20001], pick := 1\<rparr>"
    and "c = session0\<lparr>Tunnels := [tunnel_of (assigned_remote ''20000''),
             tunnel_of (fixed_remote ''22'')]\<rparr>"
  using assms by (auto simp: spec_defs input_defs run_defs)

lemma run_late:
  assumes "StartSessionTunnels spec_collab (world_of pool0 R) session0 [1, 2, 4] [] = (r, w, c)"
  shows "r = Inl DuplicateBinding"
    and "heap w 1 = assigned_remote ''20000''"
    and "heap w 2 = fixed_remote ''22''"
    and "c = session0\<lparr>Tunnels := [tunnel_of (assigned_remote ''20000''),
             tunnel_of (fixed_remote ''22'')]\<rparr>"
  using assms by (auto simp: spec_defs input_defs run_defs)

lemma run_bad:
  assumes "StartSessionTunnels spec_collab (world_of pool0 R) session0 [5] [] = (r, w, c)"
  shows "r = Inl InvalidTunnelSpec"
    and "heap w 5 = (auto_remote ''http'')\<lparr>LocalPort := ''20000'', LocalHost := ''0.0.0.0''\<rparr>"
    and "calls w = [Refresh_call None, GetRandomPort_call (Inr 20000),
           StartTunnel_call 5
             ((auto_remote ''http'')\<lparr>LocalPort := ''20000'', LocalHost := ''0.0.0.0''\<rparr>) []
             (Inl InvalidTunnelSpec)]"
    and "c = session0"
  using assms by (auto simp: spec_defs input_defs run_defs)

lemma run_busy:
  assumes "StartSessionTunnels spec_collab (world_of (pool0\<lparr>occupied := Some [20000]\<rparr>) R)
             session0 [1] [] = (r, w, c)"
  shows "r = Inr [tunnel_of (assigned_remote ''20001'')]"
    and "calls w = [Refresh_call None, GetRandomPort_call (Inr 20001),
           StartTunnel_call 1 (assigned_remote ''20001'') []
             (Inr (tunnel_of (assigned_remote ''20001'')))]"
    and "heap w 1 = assigned_remote ''20001''"
  using assms by (auto simp: spec_defs input_defs run_defs)

lemma calls_since_fresh: "calls s = [] \<Longrightarrow> calls_since s s' = calls s'"
  by (simp add: calls_since_def)

lemma calls_world_of [simp]: "calls (world_of pool R) = []" "calls (world0 keep) = []"
  "heap (world_of pool R) = heap0" "heap (world0 keep) = heap0"
  "repo (world_of pool R) = R" "repo (world0 keep) = repo0 keep"
  "portDistributor (world_of pool R) = pool" "portDistributor (world0 keep) = pool0"
  by (simp_all add: world0_def world_of_def)

lemma batch_ok_eq: "StartSessionTunnels spec_collab (world_of pool0 (repo0 None)) session0 [1, 2, 3] []
   = (fst batch_ok, fst (snd batch_ok), snd (snd batch_ok))"
  by (simp add: batch_ok_def world0_def)

lemma batch_dup_eq: "StartSessionTunnels spec_collab (world_of pool0 (repo0 None)) session0 [2, 4, 3] []
   = (fst batch_dup, fst (snd batch_dup), snd (snd batch_dup))"
  by (simp add: batch_dup_def world0_def)

lemma batch_one_eq: "StartSessionTunnels spec_collab (world_of pool0 (repo0 None)) session0 [1] []
   = (fst batch_one, fst (snd batch_one), snd (snd batch_one))"
  by (simp add: batch_one_def world0_def)

lemma batch_none_eq: "StartSessionTunnels spec_collab (world_of pool0 (repo0 None)) session0 [] []
   = (fst batch_none, fst (snd batch_none), snd (snd batch_none))"
  by (simp add: batch_none_def world0_def)

lemma batch_offline_eq:
  "StartSessionTunnels spec_collab (world_of (pool0\<lparr>occupied := None\<rparr>) (repo0 None)) session0 [1, 2, 3] []
   = (fst batch_offline, fst (snd batch_offline), snd (snd batch_offline))"
  by (simp add: batch_offline_def world_offline_def)

lemma batch_two_eq: "StartSessionTunnels spec_collab (world_of pool0 (repo0 None)) session0 [1, 2] []
   = (fst batch_two, fst (snd batch_two), snd (snd batch_two))"
  by (simp add: batch_two_def world0_def)

lemma batch_late_eq: "StartSessionTunnels spec_collab (world_of pool0 (repo0 None)) session0 [1, 2, 4] []
   = (fst batch_late, fst (snd batch_late), snd (snd batch_late))"
  by (simp add: batch_late_def world0_def)

lemma batch_bad_eq: "StartSessionTunnels spec_collab (world_of pool0 (repo0 None)) session0 [5] []
   = (fst batch_bad, fst (snd batch_bad), snd (snd batch_bad))"
  by (simp add: batch_bad_def world0_def)

lemma batch_busy_eq:
  "StartSessionTunnels spec_collab (world_of (pool0\<lparr>occupied := Some [20000]\<rparr>) (repo0 None)) session0 [1] []
   = (fst batch_busy, fst (snd batch_busy), snd (snd batch_busy))"
  by (simp add: batch_busy_def world_busy_def)

theorem StartSessionTunnels_Refresh_once_witness:
  "fst batch_offline = Inl ResourceUnavailable
   \<and> calls_since world_offline (fst (snd batch_offline)) = [Refresh_call (Some ResourceUnavailable)]
   \<and> snd (snd batch_offline) = session0
   \<and> heap (fst (snd batch_offline)) = heap world_offline
   \<and> hd (calls_since (world0 None) (fst (snd batch_ok))) = Refresh_call None
   \<and> list_all (\<lambda>x. \<not> is_Refresh x) (tl (calls_since (world0 None) (fst (snd batch_ok))))
   \<and> in_use (portDistributor world_busy) = []
   \<and> in_use (snd (Refresh spec_collab (portDistributor world_busy))) = [20000]
   \<and> allocations (calls_since world_busy (fst (snd batch_busy))) = [Inr 20001]
   \<and> in_use (portDistributor (fst (snd batch_busy))) = [20001, 20000]"
proof -
  let ?cs1 = "calls_since world_offline (fst (snd batch_offline))"
  let ?cs2 = "calls_since (world0 None) (fst (snd batch_ok))"
  let ?cs3 = "calls_since world_busy (fst (snd batch_busy))"
  have r1: "fst (Refresh spec_collab (portDistributor world_offline)) = Some ResourceUnavailable"
    by (simp add: world_offline_def spec_collab_def spec_Refresh_def pool0_def)
  have r2: "fst (Refresh spec_collab (portDistributor (world0 None))) = None"
    by (simp add: spec_collab_def spec_Refresh_def pool0_def)
  note t1 = StartSessionTunnels_Refresh_once[OF batch_offline_eq[folded world_offline_def]]
  note t2 = StartSessionTunnels_Refresh_once[OF batch_ok_eq[folded world0_def]]
  note t3 = StartSessionTunnels_Refresh_once[OF batch_busy_eq[folded world_busy_def]]
  from t1 r1 have a: "fst batch_offline = Inl ResourceUnavailable" "tl ?cs1 = []"
    "snd (snd batch_offline) = session0" "heap (fst (snd batch_offline)) = heap world_offline"
    by simp_all
  from t1 have "?cs1 = Refresh_call (fst (Refresh spec_collab (portDistributor world_offline)))
                       # tl ?cs1"
    by (rule conjunct1)
  then have b: "?cs1 = [Refresh_call (Some ResourceUnavailable)]"
    unfolding r1 a(2) .
  from t2 have "?cs2 = Refresh_call (fst (Refresh spec_collab (portDistributor (world0 None))))
                       # tl ?cs2"
    by (rule conjunct1)
  then have "?cs2 = Refresh_call None # tl ?cs2"
    unfolding r2 .
  then have c: "hd ?cs2 = Refresh_call None" by (metis list.sel(1))
  from t2 have "\<forall>x\<in>set (tl ?cs2). is_GetRandomPort x \<or> is_StartTunnel x" by blast
  then have d: "list_all (\<lambda>x. \<not> is_Refresh x) (tl ?cs2)"
    by (auto simp: list_all_iff is_GetRandomPort_def is_StartTunnel_def)
  \<comment> \<open>the allocator that the allocation is made on is the refreshed one\<close>
  have e: "in_use (portDistributor world_busy) = []"
    by (simp add: world_busy_def pool0_def)
  have rf: "snd (Refresh spec_collab (portDistributor world_busy))
              = pool0\<lparr>in_use := [20000], occupied := Some [20000]\<rparr>"
    by (simp add: world_busy_def spec_collab_def spec_Refresh_def pool0_def)
  then have f: "in_use (snd (Refresh spec_collab (portDistributor world_busy))) = [20000]"
    by simp
  have "calls (fst (snd batch_busy)) = [Refresh_call None, GetRandomPort_call (Inr 20001),
           StartTunnel_call 1 (assigned_remote ''20001'') []
             (Inr (tunnel_of (assigned_remote ''20001'')))]"
    by (rule run_busy(2)[OF batch_busy_eq])
  then have n: "length (allocations ?cs3) = 1"
    by (simp add: calls_since_fresh world_busy_def)
  from t3 have "draw spec_collab (snd (Refresh spec_collab (portDistributor world_busy)))
                  (length (allocations ?cs3)) = (allocations ?cs3, portDistributor (fst (snd batch_busy)))"
    by blast
  then have "(allocations ?cs3, portDistributor (fst (snd batch_busy)))
               = draw spec_collab (pool0\<lparr>in_use := [20000], occupied := Some [20000]\<rparr>) 1"
    unfolding n rf by simp
  also have "\<dots> = ([Inr 20001],
                pool0\<lparr>in_use := [20001, 20000], occupied := Some [20000], pick := 1\<rparr>)"
    by (simp add: spec_collab_def spec_GetRandomPort_def pool0_def Let_def)
  finally have g: "allocations ?cs3 = [Inr 20001]"
    and h: "in_use (portDistributor (fst (snd batch_busy))) = [20001, 20000]"
    by simp_all
  from a(1) b a(3,4) c d e f g h show ?thesis by blast
qed

theorem StartSessionTunnels_fail_fast_witness:
  "StartTunnel_call 4 (fixed_remote ''443'') [] (Inl DuplicateBinding)
     \<in> set (calls_since (world0 None) (fst (snd batch_dup)))
   \<and> fst batch_dup = Inl DuplicateBinding
   \<and> last (calls_since (world0 None) (fst (snd batch_dup)))
       = StartTunnel_call 4 (fixed_remote ''443'') [] (Inl DuplicateBinding)
   \<and> StartSessionTunnels spec_collab (world0 None) session0 [2, 4] [] = batch_dup
   \<and> repo (fst (snd batch_dup)) = repo (world0 None)
   \<and> snd (snd batch_dup)
       = after_starts spec_collab [] session0
           (tunnel_starts (calls_since (world0 None) (fst (snd batch_dup))))"
proof -
  let ?cs = "calls_since (world0 None) (fst (snd batch_dup))"
  note ev = run_dup[OF batch_dup_eq]
  have cs: "?cs = [Refresh_call None,
           StartTunnel_call 2 (fixed_remote ''22'') [] (Inr (tunnel_of (fixed_remote ''22''))),
           StartTunnel_call 4 (fixed_remote ''443'') [] (Inl DuplicateBinding)]"
    using ev(2) by (simp add: calls_since_fresh)
  then have bad: "StartTunnel_call 4 (fixed_remote ''443'') [] (Inl DuplicateBinding) \<in> set ?cs"
    by simp
  have n: "take (length (tunnel_starts ?cs)) [2, 4, 3] = [2, 4::nat]"
    by (simp add: cs)
  note t = StartSessionTunnels_fail_fast[OF batch_dup_eq[folded world0_def] bad]
  from t have 1: "fst batch_dup = Inl DuplicateBinding"
    and 2: "last ?cs = StartTunnel_call 4 (fixed_remote ''443'') [] (Inl DuplicateBinding)"
    and 3: "StartSessionTunnels spec_collab (world0 None) session0
           (take (length (tunnel_starts ?cs)) [2, 4, 3]) []
          = (fst batch_dup, fst (snd batch_dup), snd (snd batch_dup))"
    and 4: "repo (fst (snd batch_dup)) = repo (world0 None)"
    and 5: "snd (snd batch_dup) = after_starts spec_collab [] session0 (tunnel_starts ?cs)"
    by blast+
  from 3 have 6: "StartSessionTunnels spec_collab (world0 None) session0 [2, 4] [] = batch_dup"
    unfolding n by simp
  from bad 1 2 6 4 5 show ?thesis by blast
qed

theorem StartSessionTunnels_order_witness:
  "batch_ok = (Inr [tunnel_of (assigned_remote ''20000''), tunnel_of (fixed_remote ''22''),
                    tunnel_of (assigned_remote ''20002'')],
               fst (snd batch_ok), snd (snd batch_ok))
   \<and> length [tunnel_of (assigned_remote ''20000''), tunnel_of (fixed_remote ''22''),
              tunnel_of (assigned_remote ''20002'')] = length [1, 2, 3::nat]
   \<and> map (\<lambda>x. (fst x, snd (snd x))) (tunnel_starts (calls_since (world0 None) (fst (snd batch_ok))))
       = zip [1, 2, 3]
           (map Inr [tunnel_of (assigned_remote ''20000''), tunnel_of (fixed_remote ''22''),
                     tunnel_of (assigned_remote ''20002'')])"
proof -
  let ?ts = "[tunnel_of (assigned_remote ''20000''), tunnel_of (fixed_remote ''22''),
              tunnel_of (assigned_remote ''20002'')]"
  have f: "fst batch_ok = Inr ?ts"
    by (rule run_ok(1)[OF batch_ok_eq])
  have eq: "StartSessionTunnels spec_collab (world0 None) session0 [1, 2, 3] []
              = (Inr ?ts, fst (snd batch_ok), snd (snd batch_ok))"
    using batch_ok_eq[folded world0_def] unfolding f .
  then have 1: "batch_ok = (Inr ?ts, fst (snd batch_ok), snd (snd batch_ok))"
    by (simp only: batch_ok_def)
  from StartSessionTunnels_order[OF eq]
  have 2: "length ?ts = length [1, 2, 3::nat]"
    and 3: "map (\<lambda>x. (fst x, snd (snd x))) (tunnel_starts (calls_since (world0 None) (fst (snd batch_ok))))
       = zip [1, 2, 3] (map Inr ?ts)"
    by blast+
  from 1 2 3 show ?thesis by blast
qed

lemma Itoa_20000: "Itoa 20000 = ''20000''"
  by (simp add: Itoa_def formatBits.simps digit_def)

lemma Itoa_20002: "Itoa 20002 = ''20002''"
  by (simp add: Itoa_def formatBits.simps digit_def)

lemma spec_unspecified: "\<not> IsLocalSpecified spec_collab (auto_remote p)"
  by (simp add: spec_collab_def spec_IsLocalSpecified_def auto_remote_def)

lemma spec_specified: "IsLocalSpecified spec_collab (fixed_remote p)"
  "IsLocalSpecified spec_collab (assigned_remote ''20000'')"
  by (simp_all add: spec_collab_def spec_IsLocalSpecified_def fixed_remote_def assigned_remote_def)

text \<open>The batches of no remote, of the first, and of the first two, as the theorems on
  one remote of a batch take them.\<close>

lemma pre_none:
  "StartSessionTunnels spec_collab (world0 None) session0 [] []
     = (Inr [], fst (snd batch_none), snd (snd batch_none))"
  "heap (fst (snd batch_none)) = heap0"
  "portDistributor (fst (snd batch_none)) = pool0\<lparr>in_use := [20001]\<rparr>"
  "snd (snd batch_none) = session0"
proof -
  have occ: "occupied pool0 = Some [20001]" by (simp add: pool0_def)
  note none = run_none[OF batch_none_eq occ]
  show "StartSessionTunnels spec_collab (world0 None) session0 [] []
     = (Inr [], fst (snd batch_none), snd (snd batch_none))"
    using batch_none_eq[folded world0_def] unfolding none(1) .
  show "heap (fst (snd batch_none)) = heap0" by (rule none(3))
  show "portDistributor (fst (snd batch_none)) = pool0\<lparr>in_use := [20001]\<rparr>" by (rule none(4))
  show "snd (snd batch_none) = session0" by (rule none(5))
qed

lemma pre_one:
  "StartSessionTunnels spec_collab (world0 None) session0 [1] []
     = (Inr [tunnel_of (assigned_remote ''20000'')], fst (snd batch_one), snd (snd batch_one))"
  using batch_one_eq[folded world0_def] unfolding run_one(1)[OF batch_one_eq] .

lemma pre_two:
  "StartSessionTunnels spec_collab (world0 None) session0 [1, 2] []
     = (Inr [tunnel_of (assigned_remote ''20000''), tunnel_of (fixed_remote ''22'')],
        fst (snd batch_two), snd (snd batch_two))"
  using batch_two_eq[folded world0_def] unfolding run_two(1)[OF batch_two_eq] .

lemma first_port:
  "GetRandomPort spec_collab (pool0\<lparr>in_use := [20001]\<rparr>)
     = (Inr 20000, pool0\<lparr>in_use := [20000, 20001], pick := 1\<rparr>)"
  by (simp add: spec_collab_def spec_GetRandomPort_def pool0_def Let_def)

lemma second_port:
  "GetRandomPort spec_collab (pool0\<lparr>in_use := [20000, 20001], pick := 1\<rparr>)
     = (Inr 20002, pool0\<lparr>in_use := [20002, 20000, 20001], pick := 2\<rparr>)"
  by (simp add: spec_collab_def spec_GetRandomPort_def pool0_def Let_def)

theorem StartSessionTunnels_writes_back_witness:
  "fst batch_late = Inl DuplicateBinding
   \<and> LocalPort (heap (world0 None) 1) = []
   \<and> LocalPort (heap (fst (snd batch_late)) 1) = ''20000''
   \<and> LocalHost (heap (fst (snd batch_late)) 1) = ''0.0.0.0''
   \<and> RemotePort (heap (fst (snd batch_late)) 1) = ''3389''
   \<and> read_int (LocalPort (heap (fst (snd batch_late)) 1)) = 20000
   \<and> fst batch_bad = Inl InvalidTunnelSpec
   \<and> LocalPort (heap (fst (snd batch_bad)) 5) = ''20000''
   \<and> LocalHost (heap (fst (snd batch_bad)) 5) = ''0.0.0.0''
   \<and> heap (fst (snd batch_two)) = heap (fst (snd batch_one))
   \<and> heap (fst (snd batch_ok)) 2 = heap (world0 None) 2
   \<and> heap (fst (snd batch_ok)) 4 = heap (world0 None) 4
   \<and> LocalPort (heap (fst (snd batch_ok)) 3) = ''20002''
   \<and> heap (fst (snd batch_exhausted)) = heap world_exhausted"
proof -
  \<comment> \<open>the remote at 1, first of a batch that fails at its third remote\<close>
  have full1: "StartSessionTunnels spec_collab (world0 None) session0 ([] @ 1 # [2, 4]) []
                 = (fst batch_late, fst (snd batch_late), snd (snd batch_late))"
    using batch_late_eq[folded world0_def] by simp
  have step1: "StartSessionTunnels spec_collab (world0 None) session0 ([] @ [1]) []
                 = (fst batch_one, fst (snd batch_one), snd (snd batch_one))"
    using batch_one_eq[folded world0_def] by simp
  note t1 = StartSessionTunnels_writes_back[OF full1 pre_none(1) step1]
  have un1: "\<not> IsLocalSpecified spec_collab (heap (fst (snd batch_none)) 1)"
    unfolding pre_none(2) by (simp add: heap0_def spec_unspecified)
  have g1: "GetRandomPort spec_collab (portDistributor (fst (snd batch_none)))
              = (Inr 20000, pool0\<lparr>in_use := [20000, 20001], pick := 1\<rparr>)"
    unfolding pre_none(3) by (rule first_port)
  from t1 un1 g1
  have w1: "LocalPort (heap (fst (snd batch_one)) 1) = Itoa 20000"
    "read_int (LocalPort (heap (fst (snd batch_one)) 1)) = 20000"
    "LocalHost (heap (fst (snd batch_one)) 1) = ''0.0.0.0''"
    "RemotePort (heap (fst (snd batch_one)) 1) = RemotePort (heap (fst (snd batch_none)) 1)"
    by blast+
  from w1(1) have "IsLocalSpecified spec_collab (heap (fst (snd batch_one)) 1)"
    by (simp add: spec_collab_def spec_IsLocalSpecified_def Itoa_20000)
  with t1 have keep1: "heap (fst (snd batch_late)) 1 = heap (fst (snd batch_one)) 1"
    by blast
  have a: "fst batch_late = Inl DuplicateBinding" by (rule run_late(1)[OF batch_late_eq])
  have b: "LocalPort (heap (world0 None) 1) = []" by (simp add: heap0_def auto_remote_def)
  have c: "LocalPort (heap (fst (snd batch_late)) 1) = ''20000''"
    "LocalHost (heap (fst (snd batch_late)) 1) = ''0.0.0.0''"
    "RemotePort (heap (fst (snd batch_late)) 1) = ''3389''"
    "read_int (LocalPort (heap (fst (snd batch_late)) 1)) = 20000"
    unfolding keep1 using w1 by (simp_all add: Itoa_20000 pre_none(2) heap0_def auto_remote_def)
  \<comment> \<open>the remote at 5, whose tunnel start fails\<close>
  have full2: "StartSessionTunnels spec_collab (world0 None) session0 ([] @ 5 # []) []
                 = (fst batch_bad, fst (snd batch_bad), snd (snd batch_bad))"
    using batch_bad_eq[folded world0_def] by simp
  have step2: "StartSessionTunnels spec_collab (world0 None) session0 ([] @ [5]) []
                 = (fst batch_bad, fst (snd batch_bad), snd (snd batch_bad))"
    using batch_bad_eq[folded world0_def] by simp
  note t2 = StartSessionTunnels_writes_back[OF full2 pre_none(1) step2]
  have un2: "\<not> IsLocalSpecified spec_collab (heap (fst (snd batch_none)) 5)"
    unfolding pre_none(2) by (simp add: heap0_def spec_unspecified)
  from t2 un2 g1
  have "LocalPort (heap (fst (snd batch_bad)) 5) = Itoa 20000"
    "LocalHost (heap (fst (snd batch_bad)) 5) = ''0.0.0.0''"
    by blast+
  then have d: "LocalPort (heap (fst (snd batch_bad)) 5) = ''20000''"
    "LocalHost (heap (fst (snd batch_bad)) 5) = ''0.0.0.0''"
    by (simp_all add: Itoa_20000)
  have e: "fst batch_bad = Inl InvalidTunnelSpec" by (rule run_bad(1)[OF batch_bad_eq])
  \<comment> \<open>the remote at 2, which names its local endpoint\<close>
  have full3: "StartSessionTunnels spec_collab (world0 None) session0 ([1] @ 2 # [3]) []
                 = (fst batch_ok, fst (snd batch_ok), snd (snd batch_ok))"
    using batch_ok_eq[folded world0_def] by simp
  have step3: "StartSessionTunnels spec_collab (world0 None) session0 ([1] @ [2]) []
                 = (fst batch_two, fst (snd batch_two), snd (snd batch_two))"
    using batch_two_eq[folded world0_def] by simp
  note t3 = StartSessionTunnels_writes_back[OF full3 pre_one step3]
  have sp3: "IsLocalSpecified spec_collab (heap (fst (snd batch_one)) 2)"
    unfolding run_one(3)[OF batch_one_eq] by (rule spec_specified)
  from t3 sp3 have f: "heap (fst (snd batch_two)) = heap (fst (snd batch_one))"
    by blast
  have sp0: "IsLocalSpecified spec_collab (heap (world0 None) 2)"
    by (simp add: heap0_def spec_specified)
  from t3 sp0 have g: "heap (fst (snd batch_ok)) 2 = heap (world0 None) 2"
    by blast
  have "4 \<notin> set ([1] @ 2 # [3::nat])" by simp
  with t3 have h: "heap (fst (snd batch_ok)) 4 = heap (world0 None) 4"
    by blast
  \<comment> \<open>the remote at 3, last of a batch that succeeds\<close>
  have full4: "StartSessionTunnels spec_collab (world0 None) session0 ([1, 2] @ 3 # []) []
                 = (fst batch_ok, fst (snd batch_ok), snd (snd batch_ok))"
    using batch_ok_eq[folded world0_def] by simp
  have step4: "StartSessionTunnels spec_collab (world0 None) session0 ([1, 2] @ [3]) []
                 = (fst batch_ok, fst (snd batch_ok), snd (snd batch_ok))"
    using batch_ok_eq[folded world0_def] by simp
  note t4 = StartSessionTunnels_writes_back[OF full4 pre_two step4]
  note two = run_two[OF batch_two_eq]
  have un4: "\<not> IsLocalSpecified spec_collab (heap (fst (snd batch_two)) 3)"
    unfolding two(3) by (rule spec_unspecified)
  have g4: "GetRandomPort spec_collab (portDistributor (fst (snd batch_two)))
              = (Inr 20002, pool0\<lparr>in_use := [20002, 20000, 20001], pick := 2\<rparr>)"
    unfolding two(4) by (rule second_port)
  from t4 un4 g4 have "LocalPort (heap (fst (snd batch_ok)) 3) = Itoa 20002"
    by blast
  then have i: "LocalPort (heap (fst (snd batch_ok)) 3) = ''20002''"
    by (simp add: Itoa_20002)
  \<comment> \<open>the remote at 1 when the pool has no port\<close>
  have occ5: "occupied (pool0\<lparr>allocatable := []\<rparr>) = Some [20001]" by (simp add: pool0_def)
  let ?N = "StartSessionTunnels spec_collab world_exhausted session0 [] []"
  have ex_none: "?N = (fst ?N, fst (snd ?N), snd (snd ?N))" by simp
  note none5 = run_none[OF ex_none[unfolded world_exhausted_def] occ5, folded world_exhausted_def]
  have pre5: "?N = (Inr [], fst (snd ?N), snd (snd ?N))"
    using ex_none unfolding none5(1) .
  have full5: "StartSessionTunnels spec_collab world_exhausted session0 ([] @ 1 # []) []
                = (fst batch_exhausted, fst (snd batch_exhausted), snd (snd batch_exhausted))"
    by (simp add: batch_exhausted_def)
  have step5: "StartSessionTunnels spec_collab world_exhausted session0 ([] @ [1]) []
                = (fst batch_exhausted, fst (snd batch_exhausted), snd (snd batch_exhausted))"
    by (simp add: batch_exhausted_def)
  note t5 = StartSessionTunnels_writes_back[OF full5 pre5 step5]
  have un5: "\<not> IsLocalSpecified spec_collab (heap (fst (snd ?N)) 1)"
    unfolding none5(3) by (simp add: heap0_def spec_unspecified)
  have g5: "GetRandomPort spec_collab (portDistributor (fst (snd ?N)))
             = (Inl PoolExhausted, pool0\<lparr>allocatable := [], in_use := [20001]\<rparr>)"
    unfolding none5(4) by (simp add: spec_collab_def spec_GetRandomPort_def pool0_def Let_def)
  from t5 un5 g5 have "heap (fst (snd batch_exhausted)) = heap (fst (snd ?N))"
    by blast
  then have j: "heap (fst (snd batch_exhausted)) = heap world_exhausted"
    unfolding none5(3) by (simp add: world_exhausted_def)
  from a b c d e f g h i j show ?thesis by blast
qed

theorem StartSessionTunnels_local_endpoint_witness:
  "calls (fst (snd batch_two))
     = calls (fst (snd batch_one))
       @ [StartTunnel_call 2 (fixed_remote ''22'') [] (Inr (tunnel_of (fixed_remote ''22'')))]
   \<and> portDistributor (fst (snd batch_two)) = portDistributor (fst (snd batch_one))
   \<and> heap (fst (snd batch_two)) = heap (fst (snd batch_one))
   \<and> heap (fst (snd batch_one)) 2 = heap (world0 None) 2
   \<and> prefix (calls (fst (snd batch_two))) (calls (fst (snd batch_ok)))
   \<and> calls (fst (snd batch_one))
       = calls (fst (snd batch_none))
         @ [GetRandomPort_call (Inr 20000),
            StartTunnel_call 1 (assigned_remote ''20000'') []
              (Inr (tunnel_of (assigned_remote ''20000'')))]
   \<and> portDistributor (fst (snd batch_one)) = pool0\<lparr>in_use := [20000, 20001], pick := 1\<rparr>
   \<and> LocalPort (heap (fst (snd batch_one)) 1) = ''20000''
   \<and> calls (fst (snd batch_ok))
       = calls (fst (snd batch_two))
         @ [GetRandomPort_call (Inr 20002),
            StartTunnel_call 3 (assigned_remote ''20002'') []
              (Inr (tunnel_of (assigned_remote ''20002'')))]
   \<and> LocalPort (heap (fst (snd batch_ok)) 3) = ''20002''
   \<and> LocalHost (heap (fst (snd batch_ok)) 3) = ''0.0.0.0''
   \<and> fst batch_exhausted = Inl PoolExhausted
   \<and> calls (fst (snd batch_exhausted))
       = [Refresh_call None, GetRandomPort_call (Inl PoolExhausted)]"
proof -
  \<comment> \<open>the remote at 2, after the remote at 1\<close>
  note one = run_one[OF batch_one_eq]
  have full1: "StartSessionTunnels spec_collab (world0 None) session0 ([1] @ 2 # [3]) []
                = (fst batch_ok, fst (snd batch_ok), snd (snd batch_ok))"
    using batch_ok_eq[folded world0_def] by simp
  have step1: "StartSessionTunnels spec_collab (world0 None) session0 ([1] @ [2]) []
                 = (fst batch_two, fst (snd batch_two), snd (snd batch_two))"
    using batch_two_eq[folded world0_def] by simp
  note t1 = StartSessionTunnels_local_endpoint[OF full1 pre_one step1]
  have sp: "IsLocalSpecified spec_collab (heap (fst (snd batch_one)) 2)"
    unfolding one(3) by (rule spec_specified)
  have sp0: "IsLocalSpecified spec_collab (heap (world0 None) 2)"
    by (simp add: heap0_def spec_specified)
  have out1: "fst (StartTunnel spec_collab (snd (snd batch_one)) (heap (fst (snd batch_one)) 2) [])
                = Inr (tunnel_of (fixed_remote ''22''))"
    unfolding one(3,4)
    by (simp add: spec_defs input_defs Let_def)
  from t1 sp have "calls (fst (snd batch_two))
     = calls (fst (snd batch_one))
       @ [StartTunnel_call 2 (heap (fst (snd batch_one)) 2) []
            (fst (StartTunnel spec_collab (snd (snd batch_one)) (heap (fst (snd batch_one)) 2) []))]"
    by blast
  then have a: "calls (fst (snd batch_two))
     = calls (fst (snd batch_one))
       @ [StartTunnel_call 2 (fixed_remote ''22'') [] (Inr (tunnel_of (fixed_remote ''22'')))]"
    unfolding out1 unfolding one(3) .
  from t1 sp have b: "portDistributor (fst (snd batch_two)) = portDistributor (fst (snd batch_one))"
    "heap (fst (snd batch_two)) = heap (fst (snd batch_one))"
    by blast+
  from t1 sp0 have c: "heap (fst (snd batch_one)) 2 = heap (world0 None) 2"
    by blast
  from t1 have d: "prefix (calls (fst (snd batch_two))) (calls (fst (snd batch_ok)))"
    by blast
  \<comment> \<open>the remote at 1, the first of the batch\<close>
  have full2: "StartSessionTunnels spec_collab (world0 None) session0 ([] @ 1 # [2, 3]) []
                = (fst batch_ok, fst (snd batch_ok), snd (snd batch_ok))"
    using batch_ok_eq[folded world0_def] by simp
  have step2: "StartSessionTunnels spec_collab (world0 None) session0 ([] @ [1]) []
                 = (fst batch_one, fst (snd batch_one), snd (snd batch_one))"
    using batch_one_eq[folded world0_def] by simp
  note t2 = StartSessionTunnels_local_endpoint[OF full2 pre_none(1) step2]
  have un: "\<not> IsLocalSpecified spec_collab (heap (fst (snd batch_none)) 1)"
    unfolding pre_none(2) by (simp add: heap0_def spec_unspecified)
  have g: "GetRandomPort spec_collab (portDistributor (fst (snd batch_none)))
             = (Inr 20000, pool0\<lparr>in_use := [20000, 20001], pick := 1\<rparr>)"
    unfolding pre_none(3) by (rule first_port)
  have v: "assigned_remote ''20000''
             = (heap (fst (snd batch_none)) 1)\<lparr>LocalPort := Itoa 20000, LocalHost := ''0.0.0.0''\<rparr>"
    unfolding pre_none(2)
    by (simp add: heap0_def assigned_remote_def Itoa_20000)
  have out2: "fst (StartTunnel spec_collab (snd (snd batch_none)) (assigned_remote ''20000'') [])
                = Inr (tunnel_of (assigned_remote ''20000''))"
    unfolding pre_none(4)
    by (simp add: spec_defs input_defs Let_def)
  from t2 un g v
  have "calls (fst (snd batch_one))
       = calls (fst (snd batch_none))
         @ [GetRandomPort_call (Inr 20000),
            StartTunnel_call 1 (assigned_remote ''20000'') []
              (fst (StartTunnel spec_collab (snd (snd batch_none)) (assigned_remote ''20000'') []))]"
    and f: "portDistributor (fst (snd batch_one)) = pool0\<lparr>in_use := [20000, 20001], pick := 1\<rparr>"
    and "heap (fst (snd batch_one)) = (heap (fst (snd batch_none)))(1 := assigned_remote ''20000'')"
    by blast+
  then have e: "calls (fst (snd batch_one))
       = calls (fst (snd batch_none))
         @ [GetRandomPort_call (Inr 20000),
            StartTunnel_call 1 (assigned_remote ''20000'') []
              (Inr (tunnel_of (assigned_remote ''20000'')))]"
    and h: "LocalPort (heap (fst (snd batch_one)) 1) = ''20000''"
    unfolding out2 by (simp_all add: assigned_remote_def)
  \<comment> \<open>the remote at 3, after the remotes at 1 and 2\<close>
  note two = run_two[OF batch_two_eq]
  have full3: "StartSessionTunnels spec_collab (world0 None) session0 ([1, 2] @ 3 # []) []
                 = (fst batch_ok, fst (snd batch_ok), snd (snd batch_ok))"
    using batch_ok_eq[folded world0_def] by simp
  have step3: "StartSessionTunnels spec_collab (world0 None) session0 ([1, 2] @ [3]) []
                 = (fst batch_ok, fst (snd batch_ok), snd (snd batch_ok))"
    using batch_ok_eq[folded world0_def] by simp
  note t3 = StartSessionTunnels_local_endpoint[OF full3 pre_two step3]
  have un3: "\<not> IsLocalSpecified spec_collab (heap (fst (snd batch_two)) 3)"
    unfolding two(3) by (rule spec_unspecified)
  have g3: "GetRandomPort spec_collab (portDistributor (fst (snd batch_two)))
              = (Inr 20002, pool0\<lparr>in_use := [20002, 20000, 20001], pick := 2\<rparr>)"
    unfolding two(4) by (rule second_port)
  have v3: "assigned_remote ''20002''
             = (heap (fst (snd batch_two)) 3)\<lparr>LocalPort := Itoa 20002, LocalHost := ''0.0.0.0''\<rparr>"
    unfolding two(3) by (simp add: assigned_remote_def Itoa_20002)
  have out3: "fst (StartTunnel spec_collab (snd (snd batch_two)) (assigned_remote ''20002'') [])
                = Inr (tunnel_of (assigned_remote ''20002''))"
    unfolding two(5)
    by (simp add: spec_defs input_defs Let_def)
  from t3 un3 g3 v3
  have "calls (fst (snd batch_ok))
       = calls (fst (snd batch_two))
         @ [GetRandomPort_call (Inr 20002),
            StartTunnel_call 3 (assigned_remote ''20002'') []
              (fst (StartTunnel spec_collab (snd (snd batch_two)) (assigned_remote ''20002'') []))]"
    and "heap (fst (snd batch_ok)) = (heap (fst (snd batch_two)))(3 := assigned_remote ''20002'')"
    by blast+
  then have i: "calls (fst (snd batch_ok))
       = calls (fst (snd batch_two))
         @ [GetRandomPort_call (Inr 20002),
            StartTunnel_call 3 (assigned_remote ''20002'') []
              (Inr (tunnel_of (assigned_remote ''20002'')))]"
    and j: "LocalPort (heap (fst (snd batch_ok)) 3) = ''20002''"
      "LocalHost (heap (fst (snd batch_ok)) 3) = ''0.0.0.0''"
    unfolding out3 by (simp_all add: assigned_remote_def)
  \<comment> \<open>the remote at 1 when the pool has no port\<close>
  have occ5: "occupied (pool0\<lparr>allocatable := []\<rparr>) = Some [20001]" by (simp add: pool0_def)
  let ?N = "StartSessionTunnels spec_collab world_exhausted session0 [] []"
  have ex_none: "?N = (fst ?N, fst (snd ?N), snd (snd ?N))" by simp
  note none5 = run_none[OF ex_none[unfolded world_exhausted_def] occ5, folded world_exhausted_def]
  have pre5: "?N = (Inr [], fst (snd ?N), snd (snd ?N))"
    using ex_none unfolding none5(1) .
  have full5: "StartSessionTunnels spec_collab world_exhausted session0 ([] @ 1 # []) []
                = (fst batch_exhausted, fst (snd batch_exhausted), snd (snd batch_exhausted))"
    by (simp add: batch_exhausted_def)
  have step5: "StartSessionTunnels spec_collab world_exhausted session0 ([] @ [1]) []
                = (fst batch_exhausted, fst (snd batch_exhausted), snd (snd batch_exhausted))"
    by (simp add: batch_exhausted_def)
  note t5 = StartSessionTunnels_local_endpoint[OF full5 pre5 step5]
  have un5: "\<not> IsLocalSpecified spec_collab (heap (fst (snd ?N)) 1)"
    unfolding none5(3) by (simp add: heap0_def spec_unspecified)
  have g5: "GetRandomPort spec_collab (portDistributor (fst (snd ?N)))
             = (Inl PoolExhausted, pool0\<lparr>allocatable := [], in_use := [20001]\<rparr>)"
    unfolding none5(4) by (simp add: spec_collab_def spec_GetRandomPort_def pool0_def Let_def)
  from t5 un5 g5 have k: "fst batch_exhausted = Inl PoolExhausted"
    and "calls (fst (snd batch_exhausted)) = calls (fst (snd ?N)) @ [GetRandomPort_call (Inl PoolExhausted)]"
    by blast+
  then have l: "calls (fst (snd batch_exhausted))
                  = [Refresh_call None, GetRandomPort_call (Inl PoolExhausted)]"
    unfolding none5(2) by simp
  from a b c d e f h i j k l show ?thesis by blast
qed

lemma request0_Remotes: "Remotes (request0 rs) = rs"
  by (simp add: request0_def)

lemma spec_StartTunnel_Tunnels_only:
  "\<forall>c r a. snd (StartTunnel spec_collab c r a)
     = c\<lparr>Tunnels := Tunnels (snd (StartTunnel spec_collab c r a))\<rparr>"
  by (simp add: spec_collab_def spec_StartTunnel_def Let_def)

lemma spec_StartTunnel_Disconnected:
  "\<forall>c r a. Disconnected (snd (StartTunnel spec_collab c r a)) = Disconnected c"
  by (simp add: spec_collab_def spec_StartTunnel_def Let_def)

lemma inner_ok:
  "StartSessionTunnels spec_collab (world_of pool0 R) (new_session 1 ''s1'' conn0 (request0 [1, 2, 3]) 2 3)
     (Remotes (request0 [1, 2, 3])) TunnelACL_zero
   = (fst (StartSessionTunnels spec_collab (world_of pool0 R) session0 [1, 2, 3] []),
      fst (snd (StartSessionTunnels spec_collab (world_of pool0 R) session0 [1, 2, 3] [])),
      snd (snd (StartSessionTunnels spec_collab (world_of pool0 R) session0 [1, 2, 3] [])))"
  unfolding new_session0 request0_Remotes TunnelACL_zero_def by simp

lemma inner_dup:
  "StartSessionTunnels spec_collab (world_of pool0 R) (new_session 1 ''s1'' conn0 (request0 [2, 4, 3]) 2 3)
     (Remotes (request0 [2, 4, 3])) TunnelACL_zero
   = (fst (StartSessionTunnels spec_collab (world_of pool0 R) session0 [2, 4, 3] []),
      fst (snd (StartSessionTunnels spec_collab (world_of pool0 R) session0 [2, 4, 3] [])),
      snd (snd (StartSessionTunnels spec_collab (world_of pool0 R) session0 [2, 4, 3] [])))"
  unfolding new_session0 request0_Remotes TunnelACL_zero_def by simp

lemma session_eqs:
  "StartClientSession spec_collab (world_of pool0 (repo0 None)) 1 ''s1'' conn0 (request0 [1, 2, 3]) 2 3
     = (fst session_ok, snd session_ok)"
  "StartClientSession spec_collab (world_of pool0 (repo0 None)) 1 ''s1'' conn0 (request0 [2, 4, 3]) 2 3
     = (fst session_dup, snd session_dup)"
  "StartClientSession spec_collab (world_of pool0 repo_down) 1 ''s1'' conn0 (request0 [1, 2, 3]) 2 3
     = (fst session_down, snd session_down)"
  by (simp_all add: session_ok_def session_dup_def session_down_def world0_def)

theorem StartClientSession_persists_witness:
  "fst session_dup = Inl DuplicateBinding
   \<and> repo (snd session_dup) = repo (world0 None)
   \<and> filter is_Save (calls_since (world0 None) (snd session_dup)) = []
   \<and> fst session_down = Inl StorageFailure
   \<and> repo (snd session_down) = repo_down
   \<and> filter is_Save (calls_since (world_of pool0 repo_down) (snd session_down))
       = [Save_call (session0\<lparr>Tunnels := [tunnel_of (assigned_remote ''20000''),
             tunnel_of (fixed_remote ''22''), tunnel_of (assigned_remote ''20002'')]\<rparr>)
            (Some StorageFailure)]
   \<and> fst session_ok = Inr (session0\<lparr>Tunnels := [tunnel_of (assigned_remote ''20000''),
             tunnel_of (fixed_remote ''22''), tunnel_of (assigned_remote ''20002'')]\<rparr>)
   \<and> records (store (repo (snd session_ok)))
       = [(''s1'', session0\<lparr>Tunnels := [tunnel_of (assigned_remote ''20000''),
             tunnel_of (fixed_remote ''22''), tunnel_of (assigned_remote ''20002'')]\<rparr>)]
   \<and> Save_call (session0\<lparr>Tunnels := [tunnel_of (assigned_remote ''20000''),
             tunnel_of (fixed_remote ''22''), tunnel_of (assigned_remote ''20002'')]\<rparr>) None
       \<in> set (calls_since (world0 None) (snd session_ok))"
proof -
  let ?c = "session0\<lparr>Tunnels := [tunnel_of (assigned_remote ''20000''),
             tunnel_of (fixed_remote ''22''), tunnel_of (assigned_remote ''20002'')]\<rparr>"
  let ?ts = "[tunnel_of (assigned_remote ''20000''), tunnel_of (fixed_remote ''22''),
              tunnel_of (assigned_remote ''20002'')]"
  \<comment> \<open>the second tunnel fails\<close>
  have T1: "StartSessionTunnels spec_collab (world_of pool0 (repo0 None)) session0 [2, 4, 3] []
              = (fst batch_dup, fst (snd batch_dup), snd (snd batch_dup))"
    by (rule batch_dup_eq)
  note t1 = StartClientSession_persists[OF session_eqs(2) inner_dup, unfolded T1 fst_conv snd_conv]
  have "fst batch_dup = Inl DuplicateBinding" by (rule run_dup(1)[OF batch_dup_eq])
  with t1 have a: "fst session_dup = Inl DuplicateBinding"
    "repo (snd session_dup) = repo (world_of pool0 (repo0 None))"
    "filter is_Save (calls_since (world_of pool0 (repo0 None)) (snd session_dup)) = []"
    by blast+
  \<comment> \<open>the save fails\<close>
  have T2: "StartSessionTunnels spec_collab (world_of pool0 repo_down) session0 [1, 2, 3] []
      = (fst (StartSessionTunnels spec_collab (world_of pool0 repo_down) session0 [1, 2, 3] []),
         fst (snd (StartSessionTunnels spec_collab (world_of pool0 repo_down) session0 [1, 2, 3] [])),
         snd (snd (StartSessionTunnels spec_collab (world_of pool0 repo_down) session0 [1, 2, 3] [])))"
    by simp
  note ok2 = run_ok[OF T2]
  note t2 = StartClientSession_persists[OF session_eqs(3) inner_ok, unfolded ok2(1) ok2(6)]
  have sv2: "repo_Save spec_collab (repo (world_of pool0 repo_down)) ?c
               = (Some StorageFailure, repo_down)"
    by (simp add: spec_collab_def spec_Save_def repo_down_def)
  from t2 sv2 have b: "fst session_down = Inl StorageFailure"
    "repo (snd session_down) = repo_down"
    "filter is_Save (calls_since (world_of pool0 repo_down) (snd session_down))
       = [Save_call ?c (Some StorageFailure)]"
    by simp_all
  \<comment> \<open>every tunnel starts and the save succeeds\<close>
  note ok3 = run_ok[OF batch_ok_eq]
  note t3 = StartClientSession_persists[OF session_eqs(1) inner_ok, unfolded batch_ok_def[symmetric, unfolded world0_def] ok3(1) ok3(6)]
  have sv3: "repo_Save spec_collab (repo (world_of pool0 (repo0 None))) ?c
               = (None, (repo0 None)\<lparr>store := \<lparr>records = [(''s1'', ?c)], available = True\<rparr>\<rparr>)"
    by (simp add: spec_collab_def spec_Save_def repo0_def session0_def)
  from t3 sv3 have c: "fst session_ok = Inr ?c"
    "repo (snd session_ok) = (repo0 None)\<lparr>store := \<lparr>records = [(''s1'', ?c)], available = True\<rparr>\<rparr>"
    "Save_call ?c None \<in> set (calls_since (world_of pool0 (repo0 None)) (snd session_ok))"
    by simp_all
  from c(2) have d: "records (store (repo (snd session_ok))) = [(''s1'', ?c)]"
    by simp
  from a b c(1,3) d show ?thesis
    unfolding world0_def by simp
qed

lemma session_ok_result:
  "fst session_ok = Inr (session0\<lparr>Tunnels := [tunnel_of (assigned_remote ''20000''),
             tunnel_of (fixed_remote ''22''), tunnel_of (assigned_remote ''20002'')]\<rparr>)"
proof -
  obtain r w c where B: "StartSessionTunnels spec_collab (world_of pool0 (repo0 None)) session0 [1, 2, 3] []
      = (r, w, c)"
    by (cases "StartSessionTunnels spec_collab (world_of pool0 (repo0 None)) session0 [1, 2, 3] []")
  note ev = run_ok[OF B]
  have "StartSessionTunnels spec_collab (world_of pool0 (repo0 None))
          (new_session 1 ''s1'' conn0 (request0 [1, 2, 3]) 2 3) (Remotes (request0 [1, 2, 3]))
          TunnelACL_zero = (r, w, c)"
    unfolding new_session0 request0_Remotes TunnelACL_zero_def by (rule B)
  then show ?thesis
    unfolding session_ok_def world0_def StartClientSession_def Let_def
    by (simp add: ev(1) ev(6) ev(7) spec_collab_def spec_Save_def repo0_def)
qed

theorem StartClientSession_constructs_witness:
  "fst session_ok = Inr (session0\<lparr>Tunnels := [tunnel_of (assigned_remote ''20000''),
             tunnel_of (fixed_remote ''22''), tunnel_of (assigned_remote ''20002'')]\<rparr>)
   \<and> session0\<lparr>Tunnels := [tunnel_of (assigned_remote ''20000''),
             tunnel_of (fixed_remote ''22''), tunnel_of (assigned_remote ''20002'')]\<rparr>
       = (new_session 1 ''s1'' conn0 (request0 [1, 2, 3]) 2 3)
           \<lparr>Tunnels := [tunnel_of (assigned_remote ''20000''),
             tunnel_of (fixed_remote ''22''), tunnel_of (assigned_remote ''20002'')]\<rparr>
   \<and> set (start_acls (calls_since (world0 None) (snd session_ok))) \<subseteq> {[]}
   \<and> map fst (tunnel_starts (calls_since (world0 None) (snd session_ok))) = [1, 2, 3]
   \<and> ID (new_session 1 ''s1'' conn0 (request0 [1, 2, 3]) 2 3) = ''s1''
   \<and> ClientSession.Name (new_session 1 ''s1'' conn0 (request0 [1, 2, 3]) 2 3) = ''edge-1''
   \<and> Address (new_session 1 ''s1'' conn0 (request0 [1, 2, 3]) 2 3) = ''203.0.113.9:51000''
   \<and> Tunnels (new_session 1 ''s1'' conn0 (request0 [1, 2, 3]) 2 3) = []
   \<and> Disconnected (new_session 1 ''s1'' conn0 (request0 [1, 2, 3]) 2 3) = None"
proof -
  let ?c = "session0\<lparr>Tunnels := [tunnel_of (assigned_remote ''20000''),
             tunnel_of (fixed_remote ''22''), tunnel_of (assigned_remote ''20002'')]\<rparr>"
  let ?new = "new_session 1 ''s1'' conn0 (request0 [1, 2, 3]) 2 3"
  let ?cs = "calls_since (world0 None) (snd session_ok)"
  note t = StartClientSession_constructs[OF session_eqs(1)[folded world0_def]]
  note r = session_ok_result
  from t have lit: "?new = \<lparr>ID = ''s1'', Name = ConnectionRequest.Name (request0 [1, 2, 3]),
            Tags = ConnectionRequest.Tags (request0 [1, 2, 3]),
            OS = ConnectionRequest.OS (request0 [1, 2, 3]),
            Hostname = ConnectionRequest.Hostname (request0 [1, 2, 3]),
            Version = ConnectionRequest.Version (request0 [1, 2, 3]),
            IPv4 = ConnectionRequest.IPv4 (request0 [1, 2, 3]),
            IPv6 = ConnectionRequest.IPv6 (request0 [1, 2, 3]), Address = RemoteAddr conn0,
            Tunnels = [], Connection = conn0, Context = 1, User = 2, Logger = 3,
            Disconnected = None\<rparr>"
    by (rule conjunct1)
  have f: "ID ?new = ''s1''" "ClientSession.Name ?new = ''edge-1''"
    "Address ?new = ''203.0.113.9:51000''" "Tunnels ?new = []" "Disconnected ?new = None"
    unfolding lit by (simp_all add: request0_def conn0_def)
  from t have a: "set (start_acls ?cs) \<subseteq> {[]}" by blast
  from t r have len: "length (tunnel_starts ?cs) = length (Remotes (request0 [1, 2, 3]))"
    by blast
  from t have "map fst (tunnel_starts ?cs)
                 = take (length (tunnel_starts ?cs)) (Remotes (request0 [1, 2, 3]))"
    by blast
  then have b: "map fst (tunnel_starts ?cs) = [1, 2, 3]"
    unfolding len by (simp add: request0_Remotes)
  from t spec_StartTunnel_Tunnels_only r have "?c = ?new\<lparr>Tunnels := Tunnels ?c\<rparr>"
    by blast
  then have c: "?c = ?new\<lparr>Tunnels := [tunnel_of (assigned_remote ''20000''),
             tunnel_of (fixed_remote ''22''), tunnel_of (assigned_remote ''20002'')]\<rparr>"
    by simp
  from r c a b f show ?thesis by blast
qed

lemma session_again_result: "fst session_again = Inr session_created"
proof -
  obtain r w c where B: "StartSessionTunnels spec_collab (world_of pool0 repo_lost) session0 [1, 2, 3] []
      = (r, w, c)"
    by (cases "StartSessionTunnels spec_collab (world_of pool0 repo_lost) session0 [1, 2, 3] []")
  note ev = run_ok[OF B]
  have "StartSessionTunnels spec_collab (world_of pool0 repo_lost)
          (new_session 1 ''s1'' conn0 (request0 [1, 2, 3]) 2 3) (Remotes (request0 [1, 2, 3]))
          TunnelACL_zero = (r, w, c)"
    unfolding new_session0 request0_Remotes TunnelACL_zero_def by (rule B)
  then show ?thesis
    unfolding session_again_def session_created_def StartClientSession_def Let_def
    by (simp add: ev(1) ev(6) ev(7) spec_collab_def spec_Save_def repo_lost_def)
qed

theorem Disconnected_lifecycle_witness:
  "Disconnected session_created = None
   \<and> fst session_ok = Inr session_created
   \<and> records (store (repo (snd session_ok))) = [(''s1'', session_created)]
   \<and> records (store repo_lost)
       = [(''s1'', session0\<lparr>Disconnected := Some \<lparr>unix_nanos = 100, location = UTC\<rparr>\<rparr>)]
   \<and> fst session_again = Inr session_created
   \<and> records (store (repo (snd session_again))) = [(''s1'', session_created)]
   \<and> map Disconnected (history spec_collab session_created
         [Start_tunnels (world0 None) [4] []]) = [None, None]
   \<and> map Disconnected (history spec_collab session_created
         [Start_tunnels (world0 None) [4] [],
          Terminate_at (world0 (Some 3600)) \<lparr>unix_nanos = 100, location = Local\<rparr>])
       = [None, None, Some \<lparr>unix_nanos = 100, location = UTC\<rparr>]
   \<and> map Disconnected (history spec_collab session_created
         [Start_tunnels (world0 None) [4] [],
          Terminate_at (world0 None) \<lparr>unix_nanos = 100, location = Local\<rparr>])
       = [None, None, None]
   \<and> Disconnected (history spec_collab
         (session0\<lparr>Disconnected := Some \<lparr>unix_nanos = 100, location = UTC\<rparr>\<rparr>)
         [Start_tunnels (world0 None) [4] []] ! 1) \<noteq> None"
proof -
  have so: "StartClientSession spec_collab (world0 None) 1 ''s1'' conn0 (request0 [1, 2, 3]) 2 3
              = (Inr session_created, snd session_ok)"
    using session_eqs(1)[folded world0_def] unfolding session_ok_result session_created_def .
  note t = Disconnected_lifecycle[OF spec_StartTunnel_Disconnected so]
  have sa: "StartClientSession spec_collab (world_of pool0 repo_lost) 1 ''s1'' conn0
              (request0 [1, 2, 3]) 2 3 = (Inr session_created, snd session_again)"
    using session_again_result unfolding session_again_def
    by (metis prod.collapse)
  have same: "portDistributor (world_of pool0 repo_lost) = portDistributor (world0 None)"
    "heap (world_of pool0 repo_lost) = heap (world0 None)"
    by (simp_all add: world0_def world_of_def)
  from t have a: "Disconnected session_created = None" by (rule conjunct1)
  have b: "fst session_ok = Inr session_created"
    unfolding session_ok_result session_created_def ..
  from t have "repo (snd session_ok) = snd (repo_Save spec_collab (repo (world0 None)) session_created)"
    by blast
  then have c: "records (store (repo (snd session_ok))) = [(''s1'', session_created)]"
    by (simp add: spec_collab_def spec_Save_def world0_def world_of_def repo0_def
        session_created_def session0_def)
  have d: "records (store repo_lost)
       = [(''s1'', session0\<lparr>Disconnected := Some \<lparr>unix_nanos = 100, location = UTC\<rparr>\<rparr>)]"
    by (simp add: repo_lost_def)
  from t same sa have
    "repo (snd session_again)
       = snd (repo_Save spec_collab (repo (world_of pool0 repo_lost)) session_created)"
    by blast
  then have e: "records (store (repo (snd session_again))) = [(''s1'', session_created)]"
    by (simp add: spec_collab_def spec_Save_def world_of_def repo_lost_def
        session_created_def session0_def)
  let ?xs = "[Start_tunnels (world0 None) [4] []]"
  have live: "\<forall>x\<in>set ?xs. \<not> is_Terminate_at x" by simp
  from t live have "map Disconnected (history spec_collab session_created ?xs)
                      = replicate (Suc (length ?xs)) None"
    by blast
  then have f: "map Disconnected (history spec_collab session_created ?xs) = [None, None]"
    by (simp add: numeral_2_eq_2)
  have k1: "KeepLostClients (repo (world0 (Some 3600))) \<noteq> None"
    and k2: "KeepLostClients (repo (world0 None)) = None"
    by (simp_all add: world0_def world_of_def repo0_def)
  from t live k1 have
    "map Disconnected (history spec_collab session_created
        (?xs @ [Terminate_at (world0 (Some 3600)) \<lparr>unix_nanos = 100, location = Local\<rparr>]))
       = replicate (Suc (length ?xs)) None
         @ [Some (Time_UTC \<lparr>unix_nanos = 100, location = Local\<rparr>)]"
    by blast
  then have g: "map Disconnected (history spec_collab session_created
         [Start_tunnels (world0 None) [4] [],
          Terminate_at (world0 (Some 3600)) \<lparr>unix_nanos = 100, location = Local\<rparr>])
       = [None, None, Some \<lparr>unix_nanos = 100, location = UTC\<rparr>]"
    by (simp add: Time_UTC_def)
  from t live k2 have
    "map Disconnected (history spec_collab session_created
        (?xs @ [Terminate_at (world0 None) \<lparr>unix_nanos = 100, location = Local\<rparr>]))
       = replicate (Suc (Suc (length ?xs))) None"
    by blast
  then have h: "map Disconnected (history spec_collab session_created
         [Start_tunnels (world0 None) [4] [],
          Terminate_at (world0 None) \<lparr>unix_nanos = 100, location = Local\<rparr>])
       = [None, None, None]"
    by simp
  let ?lost = "session0\<lparr>Disconnected := Some \<lparr>unix_nanos = 100, location = UTC\<rparr>\<rparr>"
  have i0: "(0::nat) \<le> 1" "1 < length (history spec_collab ?lost ?xs)"
    "Disconnected (history spec_collab ?lost ?xs ! 0) \<noteq> None"
    by simp_all
  from t i0 have i: "Disconnected (history spec_collab ?lost ?xs ! 1) \<noteq> None"
    by blast
  from a b sa session_again_result c d e f g h i show ?thesis by blast
qed

end
